(* ===== verification/Go_Prelude.thy ===== *)
theory Go_Prelude
  imports Main "HOL-Library.Multiset" "HOL-Library.Char_ord" "HOL-Library.List_Lexorder"
    "HOL-Library.Code_Target_Nat"
begin

text \<open>
  The parts of the Go language and of its standard library that the modelled packages use:
  two's complement 64-bit integers, instants and durations (package \<open>time\<close>), byte
  strings with their UTF-8 reading (packages \<open>strings\<close>, \<open>unicode\<close>), decimal
  printing, the sorting functions of package \<open>sort\<close>, and the ``seen map'' loops that
  the code base uses everywhere to drop duplicates.  The lemmas at the end of each section are
  the ones that the component theories share.
\<close>

named_theorems go_arith \<open>facts on wrap-around, instants and durations\<close>

section \<open>Integers\<close>

text \<open>
  Go's \<open>int\<close> and \<open>int64\<close> are 64 bits wide on every platform the agent and the
  center are built for.  A value is a HOL integer; an operation that may overflow is wrapped by
  \<open>wrap64\<close>.
\<close>

definition wrap64 :: "int \<Rightarrow> int" where
  "wrap64 x = (x + 2 ^ 63) mod 2 ^ 64 - 2 ^ 63"

definition maxInt64 :: int where
  "maxInt64 = 2 ^ 63 - 1"

definition minInt64 :: int where
  "minInt64 = - (2 ^ 63)"

definition is_int64 :: "int \<Rightarrow> bool" where
  "is_int64 x \<longleftrightarrow> minInt64 \<le> x \<and> x \<le> maxInt64"

text \<open>Integer division truncates towards zero.\<close>

definition quot :: "int \<Rightarrow> int \<Rightarrow> int" where
  "quot a b = sgn a * sgn b * (\<bar>a\<bar> div \<bar>b\<bar>)"

lemma wrap64_id [go_arith]: "is_int64 x \<Longrightarrow> wrap64 x = x"
  by (simp add: wrap64_def is_int64_def minInt64_def maxInt64_def)

lemma wrap64_in_range: "is_int64 (wrap64 x)"
proof -
  have "0 \<le> (x + 2 ^ 63) mod 2 ^ 64" and "(x + 2 ^ 63) mod 2 ^ 64 < (2::int) ^ 64"
    by (rule pos_mod_sign, simp) (rule pos_mod_bound, simp)
  then show ?thesis
    by (simp add: wrap64_def is_int64_def minInt64_def maxInt64_def)
qed

lemma quot_nonneg [go_arith]: "0 \<le> a \<Longrightarrow> 0 < b \<Longrightarrow> quot a b = a div b"
  by (cases "a = 0") (simp_all add: quot_def)

section \<open>Instants and durations\<close>

text \<open>
  An instant is a number of nanoseconds since Go's zero time (January 1 of year 1, UTC), so that
  \<open>IsZero\<close> is equality with \<open>0\<close> and \<open>After\<close>, \<open>Before\<close> and
  \<open>Equal\<close> are the orders of the integers.  A location is only a presentation of an
  instant and does not appear.  A duration is an \<open>int64\<close> count of nanoseconds;
  \<open>Sub\<close> saturates at its ends.
\<close>

type_synonym time = int
type_synonym duration = int

definition nanosecond :: duration where "nanosecond = 1"
definition microsecond :: duration where "microsecond = 1000"
definition millisecond :: duration where "millisecond = 1000000"
definition second :: duration where "second = 1000000000"
definition minute :: duration where "minute = 60 * second"
definition hour :: duration where "hour = 60 * minute"

lemmas duration_defs =
  nanosecond_def microsecond_def millisecond_def second_def minute_def hour_def

definition zeroTime :: time where "zeroTime = 0"

definition IsZero :: "time \<Rightarrow> bool" where
  "IsZero t \<longleftrightarrow> t = zeroTime"

definition time_Sub :: "time \<Rightarrow> time \<Rightarrow> duration" where
  "time_Sub t u = max minInt64 (min maxInt64 (t - u))"

text \<open>\<open>Truncate\<close> rounds down to a multiple of the duration since the zero time.\<close>

definition time_Truncate :: "time \<Rightarrow> duration \<Rightarrow> time" where
  "time_Truncate t d = (if d \<le> 0 then t else t - t mod d)"

lemma time_Sub_exact [go_arith]: "is_int64 (t - u) \<Longrightarrow> time_Sub t u = t - u"
  by (simp add: time_Sub_def is_int64_def)

lemma time_Sub_le_iff [go_arith]:
  "is_int64 d \<Longrightarrow> d < maxInt64 \<Longrightarrow> time_Sub t u \<le> d \<longleftrightarrow> t - u \<le> d"
  by (auto simp: time_Sub_def is_int64_def)

lemma le_time_Sub_iff [go_arith]:
  "is_int64 d \<Longrightarrow> minInt64 < d \<Longrightarrow> d \<le> time_Sub t u \<longleftrightarrow> d \<le> t - u"
  by (auto simp: time_Sub_def is_int64_def)

lemma time_Sub_pos_iff: "0 < time_Sub t u \<longleftrightarrow> u < t"
  by (auto simp: time_Sub_def maxInt64_def minInt64_def)

lemma time_Sub_mono: "t \<le> t' \<Longrightarrow> time_Sub t u \<le> time_Sub t' u"
  by (auto simp: time_Sub_def)

lemma time_Truncate_le: "time_Truncate t d \<le> t"
  by (simp add: time_Truncate_def)

lemma time_Truncate_idem: "time_Truncate (time_Truncate t d) d = time_Truncate t d"
  by (simp add: time_Truncate_def mod_diff_eq [symmetric])

end
