(* ===== verification/Go_Strings.thy ===== *)
theory Go_Strings
  imports Go_Prelude
begin

text \<open>
  Go strings are byte strings.  This theory gives their UTF-8 reading the way the language does
  it (an invalid byte reads as U+FFFD and is one byte wide), the functions of the packages
  \<open>strings\<close> and \<open>unicode\<close> that the modelled code calls, and decimal printing
  (\<open>%d\<close>).  A string literal of the source that is not ASCII is written as the list of its
  code points under \<open>utf8\<close>.
\<close>

section \<open>UTF-8\<close>

text \<open>A code point that UTF-8 can carry: not a surrogate, at most U+10FFFF.\<close>

definition valid_rune :: "nat \<Rightarrow> bool" where
  "valid_rune c \<longleftrightarrow> c < 0xD800 \<or> (0xE000 \<le> c \<and> c \<le> 0x10FFFF)"

definition runeError :: nat where
  "runeError = 0xFFFD"

text \<open>The bytes of a code point, as numbers.\<close>

definition rune_bytes :: "nat \<Rightarrow> nat list" where
  "rune_bytes c =
     (if c < 0x80 then [c]
      else if c < 0x800 then [0xC0 + c div 64, 0x80 + c mod 64]
      else if c < 0x10000 then [0xE0 + c div 4096, 0x80 + c div 64 mod 64, 0x80 + c mod 64]
      else [0xF0 + c div 262144, 0x80 + c div 4096 mod 64, 0x80 + c div 64 mod 64,
            0x80 + c mod 64])"

definition encode_rune :: "nat \<Rightarrow> nat list" where
  "encode_rune c = rune_bytes (if valid_rune c then c else runeError)"

definition utf8 :: "nat list \<Rightarrow> string" where
  "utf8 cs = map char_of (concat (map encode_rune cs))"

text \<open>A continuation byte, and the range of the second byte that the first one admits.\<close>

definition cont :: "nat \<Rightarrow> bool" where
  "cont b \<longleftrightarrow> 0x80 \<le> b \<and> b \<le> 0xBF"

definition second_ok :: "nat \<Rightarrow> nat \<Rightarrow> bool" where
  "second_ok b0 b1 \<longleftrightarrow>
     (if b0 = 0xE0 then 0xA0 \<le> b1 \<and> b1 \<le> 0xBF
      else if b0 = 0xED then 0x80 \<le> b1 \<and> b1 \<le> 0x9F
      else if b0 = 0xF0 then 0x90 \<le> b1 \<and> b1 \<le> 0xBF
      else if b0 = 0xF4 then 0x80 \<le> b1 \<and> b1 \<le> 0x8F
      else cont b1)"

text \<open>
  \<open>DecodeRune\<close>: the first code point of a byte string and its width.  Every invalid or
  truncated sequence gives U+FFFD with width one.
\<close>

definition seq_len :: "nat \<Rightarrow> nat" where
  "seq_len b0 =
     (if b0 < 0x80 then 1
      else if 0xC2 \<le> b0 \<and> b0 \<le> 0xDF then 2
      else if 0xE0 \<le> b0 \<and> b0 \<le> 0xEF then 3
      else if 0xF0 \<le> b0 \<and> b0 \<le> 0xF4 then 4
      else 0)"

definition lead_bits :: "nat \<Rightarrow> nat" where
  "lead_bits b0 =
     (if seq_len b0 \<le> 1 then b0
      else if seq_len b0 = 2 then b0 - 0xC0
      else if seq_len b0 = 3 then b0 - 0xE0
      else b0 - 0xF0)"

fun tail_ok :: "nat \<Rightarrow> nat list \<Rightarrow> bool" where
  "tail_ok b0 [] = True"
| "tail_ok b0 (b1 # bs) = (second_ok b0 b1 \<and> list_all cont bs)"

fun decode_rune :: "nat list \<Rightarrow> nat \<times> nat" where
  "decode_rune [] = (runeError, 0)"
| "decode_rune (b0 # bs) =
     (let n = seq_len b0; t = take (n - 1) bs in
      if 0 < n \<and> length t = n - 1 \<and> tail_ok b0 t
      then (foldl (\<lambda>v b. v * 64 + (b - 0x80)) (lead_bits b0) t, n)
      else (runeError, 1))"

lemma decode_rune_width_pos: "bs \<noteq> [] \<Longrightarrow> 0 < snd (decode_rune bs)"
  by (cases bs) (auto simp: Let_def)

lemma decode_rune_width_le: "snd (decode_rune bs) \<le> length bs"
  by (cases bs) (auto simp: Let_def)

lemma decode_rune_truncate:
  assumes "snd (decode_rune bs) \<le> n"
  shows "decode_rune (take n bs) = decode_rune bs"
proof (cases bs)
  case (Cons b0 bs')
  obtain m where n: "n = Suc m"
    using assms decode_rune_width_pos [of bs] Cons by (cases n) auto
  show ?thesis
  proof (cases "seq_len b0 - 1 \<le> m")
    case True
    then show ?thesis by (simp add: Cons n min_absorb1)
  next
    case False
    then have "min (seq_len b0 - 1) m \<noteq> seq_len b0 - 1" by simp
    with False assms show ?thesis
      by (auto simp: Cons n Let_def split: if_splits)
  qed
qed simp

text \<open>The code points of a string with the bytes each was read from (\<open>for _, r := range s\<close>).\<close>

function segments :: "nat list \<Rightarrow> (nat \<times> nat list) list" where
  "segments bs =
     (if bs = [] then []
      else let (r, w) = decode_rune bs in (r, take w bs) # segments (drop w bs))"
  by pat_completeness auto
termination
proof (relation "measure length")
  fix bs :: "nat list" and x r w
  assume ne: "bs \<noteq> []" and "x = decode_rune bs" and "(r, w) = x"
  then have "w = snd (decode_rune bs)" by (metis snd_conv)
  with ne have "0 < w" by (metis decode_rune_width_pos)
  with ne show "(drop w bs, bs) \<in> measure length" by simp
qed simp

declare segments.simps [simp del]

definition bytes_of :: "string \<Rightarrow> nat list" where
  "bytes_of s = map of_char s"

definition runes :: "string \<Rightarrow> nat list" where
  "runes s = map fst (segments (bytes_of s))"

lemma segments_Nil [simp]: "segments [] = []"
  by (simp add: segments.simps)

lemma segments_concat: "concat (map snd (segments bs)) = bs"
proof (induction bs rule: segments.induct)
  case (1 bs)
  show ?case
  proof (cases "bs = []")
    case False
    obtain r w where rw: "decode_rune bs = (r, w)" by fastforce
    with 1 [OF False, of "(r, w)" r w] False show ?thesis
      by (simp add: segments.simps [of bs])
  qed simp
qed

lemma rune_bytes_lt: "valid_rune c \<Longrightarrow> \<forall>b \<in> set (rune_bytes c). b < 256"
  by (auto simp: rune_bytes_def valid_rune_def)

lemma split64:
  fixes c :: nat
  obtains a b where "a * 64 + b = c" "b \<le> 63" "c div 64 = a" "c mod 64 = b"
proof -
  have "c div 64 * 64 + c mod 64 = c" and "c mod 64 \<le> 63" by (simp, presburger)
  then show ?thesis using that by blast
qed

lemma decode_rune_bytes:
  assumes "valid_rune c"
  shows "decode_rune (rune_bytes c @ bs) = (c, length (rune_bytes c))"
proof -
  consider (one) "c < 0x80" | (two) "0x80 \<le> c" "c < 0x800"
    | (three) "0x800 \<le> c" "c < 0x10000" | (four) "0x10000 \<le> c" "c \<le> 0x10FFFF"
    using assms by (force simp: valid_rune_def)
  then show ?thesis
  proof cases
    case one
    then show ?thesis by (simp add: rune_bytes_def seq_len_def lead_bits_def)
  next
    case two
    obtain a b where c: "a * 64 + b = c" "b \<le> 63" "c div 64 = a" "c mod 64 = b"
      by (rule split64)
    with two have a: "2 \<le> a" "a \<le> 31" by auto
    have rb: "rune_bytes c = [0xC0 + a, 0x80 + b]"
      using two c by (simp add: rune_bytes_def)
    have "seq_len (0xC0 + a) = 2" and "second_ok (0xC0 + a) (0x80 + b)"
      using a c(2) by (simp_all add: seq_len_def second_ok_def cont_def)
    then show ?thesis unfolding rb using c by (simp add: lead_bits_def)
  next
    case three
    obtain x d where c: "x * 64 + d = c" "d \<le> 63" "c div 64 = x" "c mod 64 = d"
      by (rule split64)
    obtain a b where x: "a * 64 + b = x" "b \<le> 63" "x div 64 = a" "x mod 64 = b"
      by (rule split64)
    have "c div 4096 = a"
      using c x div_mult2_eq [of c 64 64] by simp
    then have rb: "rune_bytes c = [0xE0 + a, 0x80 + b, 0x80 + d]"
      using three c x by (simp add: rune_bytes_def)
    have a: "a \<le> 15" and lo: "a = 0 \<Longrightarrow> 32 \<le> b" and hi: "a = 13 \<Longrightarrow> b < 32"
      using three assms c(1,2) x(1,2) unfolding valid_rune_def by linarith+
    have "second_ok (0xE0 + a) (0x80 + b)"
      using a lo hi x(2) by (auto simp: second_ok_def cont_def)
    moreover have "(a * 64 + b) * 64 + d = c" using c x by simp
    moreover have "seq_len (0xE0 + a) = 3" using a by (simp add: seq_len_def)
    ultimately show ?thesis unfolding rb using x(2) c(2)
      by (simp add: cont_def lead_bits_def)
  next
    case four
    obtain x e where c: "x * 64 + e = c" "e \<le> 63" "c div 64 = x" "c mod 64 = e"
      by (rule split64)
    obtain y d where x: "y * 64 + d = x" "d \<le> 63" "x div 64 = y" "x mod 64 = d"
      by (rule split64)
    obtain a b where y: "a * 64 + b = y" "b \<le> 63" "y div 64 = a" "y mod 64 = b"
      by (rule split64)
    have y': "c div 4096 = y"
      using c x div_mult2_eq [of c 64 64] by simp
    then have "c div 262144 = a"
      using y div_mult2_eq [of c 4096 64] by simp
    then have rb: "rune_bytes c = [0xF0 + a, 0x80 + b, 0x80 + d, 0x80 + e]"
      using four c x y y' by (simp add: rune_bytes_def)
    have a: "a \<le> 4" and lo: "a = 0 \<Longrightarrow> 16 \<le> b" and hi: "a = 4 \<Longrightarrow> b < 16"
      using four c(1,2) x(1,2) y(1,2) by linarith+
    have "second_ok (0xF0 + a) (0x80 + b)"
      using a lo hi y(2) by (auto simp: second_ok_def cont_def)
    moreover have "((a * 64 + b) * 64 + d) * 64 + e = c" using c x y by simp
    moreover have "seq_len (0xF0 + a) = 4" using a by (simp add: seq_len_def)
    ultimately show ?thesis unfolding rb using y(2) x(2) c(2)
      by (simp add: cont_def lead_bits_def)
  qed
qed

lemma rune_bytes_nonempty: "rune_bytes c \<noteq> []"
  by (simp add: rune_bytes_def)

lemma segments_rune_bytes:
  assumes "valid_rune c"
  shows "segments (rune_bytes c @ bs) = (c, rune_bytes c) # segments bs"
  using decode_rune_bytes [OF assms, of bs]
  by (subst segments.simps) (simp add: rune_bytes_nonempty)

lemma segments_encode:
  "\<forall>c \<in> set cs. valid_rune c \<Longrightarrow>
   segments (concat (map encode_rune cs)) = map (\<lambda>c. (c, rune_bytes c)) cs"
  by (induction cs) (simp_all add: encode_rune_def segments_rune_bytes)

lemma bytes_of_utf8:
  assumes "\<forall>c \<in> set cs. valid_rune c"
  shows "bytes_of (utf8 cs) = concat (map encode_rune cs)"
proof -
  have "\<forall>b \<in> set (concat (map encode_rune cs)). b < 256"
    using assms rune_bytes_lt by (auto simp: encode_rune_def)
  then show ?thesis
    unfolding bytes_of_def utf8_def map_map comp_def
    by (intro map_idI) (metis of_char_of mod_less)
qed

text \<open>Reading back what was encoded: the round trip of UTF-8.\<close>

lemma runes_utf8: "\<forall>c \<in> set cs. valid_rune c \<Longrightarrow> runes (utf8 cs) = cs"
  by (simp add: runes_def bytes_of_utf8 segments_encode comp_def)

lemma runeError_valid: "valid_rune runeError"
  by (simp add: valid_rune_def runeError_def)

section \<open>Trimming, fields, joining\<close>

text \<open>\<open>unicode.IsSpace\<close> and \<open>unicode.IsControl\<close> on code points.\<close>

definition IsSpace :: "nat \<Rightarrow> bool" where
  "IsSpace r \<longleftrightarrow>
     r \<in> {0x09, 0x0A, 0x0B, 0x0C, 0x0D, 0x20, 0x85, 0xA0, 0x1680, 0x2028, 0x2029, 0x202F, 0x205F, 0x3000}
     \<or> 0x2000 \<le> r \<and> r \<le> 0x200A"

definition IsControl :: "nat \<Rightarrow> bool" where
  "IsControl r \<longleftrightarrow> r < 0x20 \<or> 0x7F \<le> r \<and> r < 0xA0"

text \<open>Dropping from both ends.\<close>

definition trim_list :: "('a \<Rightarrow> bool) \<Rightarrow> 'a list \<Rightarrow> 'a list" where
  "trim_list P xs = rev (dropWhile P (rev (dropWhile P xs)))"

definition TrimSpace :: "string \<Rightarrow> string" where
  "TrimSpace s =
     map char_of (concat (map snd (trim_list (\<lambda>x. IsSpace (fst x)) (segments (bytes_of s)))))"

text \<open>\<open>strings.Fields\<close> on code points: the maximal runs without white space.\<close>

fun fields_of :: "nat list \<Rightarrow> nat list \<Rightarrow> nat list list" where
  "fields_of acc [] = (if acc = [] then [] else [acc])"
| "fields_of acc (r # rs) =
     (if IsSpace r then (if acc = [] then fields_of [] rs else acc # fields_of [] rs)
      else fields_of (acc @ [r]) rs)"

fun join_runes :: "nat list \<Rightarrow> nat list list \<Rightarrow> nat list" where
  "join_runes sep [] = []"
| "join_runes sep [f] = f"
| "join_runes sep (f # g # fs) = f @ sep @ join_runes sep (g # fs)"

text \<open>\<open>strings.Join\<close>.\<close>

fun join :: "string \<Rightarrow> string list \<Rightarrow> string" where
  "join sep [] = []"
| "join sep [x] = x"
| "join sep (x # y # xs) = x @ sep @ join sep (y # xs)"

lemma trim_list_ends:
  assumes "trim_list P xs \<noteq> []"
  shows "\<not> P (hd (trim_list P xs))" and "\<not> P (last (trim_list P xs))"
proof -
  let ?ys = "dropWhile P xs" and ?zs = "dropWhile P (rev (dropWhile P xs))"
  have ne: "?zs \<noteq> []" using assms by (simp add: trim_list_def)
  then show "\<not> P (last (trim_list P xs))"
    by (simp add: trim_list_def last_rev hd_dropWhile)
  have ys: "?ys \<noteq> []" using ne by force
  obtain us where "rev ?ys = us @ ?zs" using takeWhile_dropWhile_id by metis
  then have "?ys = rev ?zs @ rev us" by (metis rev_append rev_rev_ident)
  then have "hd ?ys = hd (rev ?zs)" using ne by (metis hd_append2 rev_is_Nil_conv)
  with hd_dropWhile [OF ys] show "\<not> P (hd (trim_list P xs))"
    by (simp add: trim_list_def)
qed

lemma trim_list_id: "xs = [] \<or> (\<not> P (hd xs) \<and> \<not> P (last xs)) \<Longrightarrow> trim_list P xs = xs"
proof (cases "xs = []")
  case False
  assume "xs = [] \<or> (\<not> P (hd xs) \<and> \<not> P (last xs))"
  with False have h: "\<not> P (hd xs)" and l: "\<not> P (hd (rev xs))" by (simp_all add: hd_rev)
  have "dropWhile P xs = xs" using h False by (cases xs) auto
  moreover have "dropWhile P (rev xs) = rev xs" using l False by (cases "rev xs") auto
  ultimately show ?thesis by (simp add: trim_list_def)
qed (simp add: trim_list_def)

lemma trim_list_idem: "trim_list P (trim_list P xs) = trim_list P xs"
  using trim_list_ends [of P xs] by (metis trim_list_id)

lemma trim_list_sublist: "\<exists>us vs. xs = us @ trim_list P xs @ vs"
proof -
  obtain us where "xs = us @ dropWhile P xs" using takeWhile_dropWhile_id by metis
  moreover obtain ws where "rev (dropWhile P xs) = ws @ dropWhile P (rev (dropWhile P xs))"
    using takeWhile_dropWhile_id by metis
  then have "dropWhile P xs = trim_list P xs @ rev ws"
    unfolding trim_list_def by (metis rev_append rev_rev_ident)
  ultimately show ?thesis by metis
qed

lemma trim_list_subset: "set (trim_list P xs) \<subseteq> set xs"
  using trim_list_sublist [of xs P] by (metis Un_upper1 Un_upper2 set_append subset_trans)

lemma segments_Cons:
  "bs \<noteq> [] \<Longrightarrow>
   segments bs = (fst (decode_rune bs), take (snd (decode_rune bs)) bs)
                   # segments (drop (snd (decode_rune bs)) bs)"
  by (subst segments.simps) (simp add: case_prod_beta Let_def)

text \<open>Reading a run of segments again gives the same segments.\<close>

lemma segments_suffix: "segments bs = us @ xs \<Longrightarrow> segments (concat (map snd xs)) = xs"
proof (induction us arbitrary: bs)
  case Nil
  then show ?case using segments_concat [of bs] by simp
next
  case (Cons u us)
  then have ne: "bs \<noteq> []" by auto
  have "segments (drop (snd (decode_rune bs)) bs) = us @ xs"
    using Cons.prems unfolding segments_Cons [OF ne] by simp
  then show ?case by (rule Cons.IH)
qed

lemma segments_prefix: "segments bs = xs @ vs \<Longrightarrow> segments (concat (map snd xs)) = xs"
proof (induction xs arbitrary: bs)
  case (Cons x xs)
  let ?w = "snd (decode_rune bs)"
  have ne: "bs \<noteq> []" using Cons.prems by auto
  then have x: "x = (fst (decode_rune bs), take ?w bs)"
    and rest: "segments (drop ?w bs) = xs @ vs"
    using Cons.prems unfolding segments_Cons [OF ne] by simp_all
  let ?cs = "concat (map snd (x # xs))"
  have bs: "bs = ?cs @ concat (map snd vs)"
    using segments_concat [of bs] Cons.prems by simp
  have w: "?w \<le> length bs" by (rule decode_rune_width_le)
  then have len: "?w \<le> length ?cs" using x by simp
  have "take (length ?cs) bs = ?cs" by (subst bs) simp
  then have "decode_rune ?cs = decode_rune bs"
    using decode_rune_truncate [OF len] by simp
  moreover have "take ?w ?cs = take ?w bs" and "drop ?w ?cs = concat (map snd xs)"
    using x w by simp_all
  moreover have ne': "?cs \<noteq> []"
    using len decode_rune_width_pos [OF ne] by (metis le_zero_eq list.size(3) not_less_zero)
  ultimately have "segments ?cs = x # segments (concat (map snd xs))"
    unfolding segments_Cons [OF ne'] using x by simp
  with Cons.IH [OF rest] show ?case by simp
qed simp

lemma segment_bytes_lt: "\<forall>b \<in> set bs. b < 256 \<Longrightarrow> sg \<in> set (segments bs) \<Longrightarrow> \<forall>b \<in> set (snd sg). b < 256"
proof -
  assume lt: "\<forall>b \<in> set bs. b < 256" and "sg \<in> set (segments bs)"
  then have "set (snd sg) \<subseteq> set (concat (map snd (segments bs)))" by auto
  with lt show ?thesis unfolding segments_concat by auto
qed

lemma bytes_of_lt: "\<forall>b \<in> set (bytes_of s). b < 256"
  by (simp add: bytes_of_def)

lemma char_of_bytes: "map char_of (bytes_of s) = s"
  by (simp add: bytes_of_def comp_def)

lemma bytes_of_char: "\<forall>b \<in> set bs. b < 256 \<Longrightarrow> bytes_of (map char_of bs) = bs"
  unfolding bytes_of_def map_map comp_def by (intro map_idI) (metis of_char_of mod_less)

lemma segments_TrimSpace:
  "segments (bytes_of (TrimSpace s)) = trim_list (\<lambda>x. IsSpace (fst x)) (segments (bytes_of s))"
proof -
  let ?t = "trim_list (\<lambda>x. IsSpace (fst x)) (segments (bytes_of s))"
  obtain us vs where sg: "segments (bytes_of s) = us @ ?t @ vs"
    using trim_list_sublist by blast
  have "\<forall>b \<in> set (concat (map snd ?t)). b < 256"
    using segment_bytes_lt [OF bytes_of_lt] trim_list_subset by fastforce
  then have "bytes_of (TrimSpace s) = concat (map snd ?t)"
    unfolding TrimSpace_def by (rule bytes_of_char)
  moreover have "segments (concat (map snd (?t @ vs))) = ?t @ vs"
    using sg by (rule segments_suffix)
  then have "segments (concat (map snd ?t)) = ?t"
    by (rule segments_prefix)
  ultimately show ?thesis by simp
qed

lemma TrimSpace_idem [simp]: "TrimSpace (TrimSpace s) = TrimSpace s"
  unfolding TrimSpace_def [of "TrimSpace s"] segments_TrimSpace trim_list_idem
  by (simp add: TrimSpace_def)

lemma TrimSpace_Nil [simp]: "TrimSpace [] = []"
  by (simp add: TrimSpace_def bytes_of_def trim_list_def)

section \<open>Decimal numbers\<close>

fun nat_digits :: "nat \<Rightarrow> string" where
  "nat_digits n =
     (if n < 10 then [char_of (48 + n)]
      else nat_digits (n div 10) @ [char_of (48 + n mod 10)])"

declare nat_digits.simps [simp del]

text \<open>\<open>strconv.FormatInt\<close> in base 10, and \<open>%d\<close>.\<close>

definition itoa :: "int \<Rightarrow> string" where
  "itoa i = (if i < 0 then CHR ''-'' # nat_digits (nat (- i)) else nat_digits (nat i))"

definition digits_value :: "string \<Rightarrow> nat" where
  "digits_value s = foldl (\<lambda>v c. v * 10 + (of_char c - 48)) 0 s"

lemma digits_value_nat_digits: "digits_value (nat_digits n) = n"
proof (induction n rule: nat_digits.induct)
  case (1 n)
  show ?case
  proof (cases "n < 10")
    case True
    then show ?thesis by (simp add: nat_digits.simps [of n] digits_value_def)
  next
    case False
    have "48 + n mod 10 < 256" by presburger
    then show ?thesis using 1 False
      by (simp add: nat_digits.simps [of n] digits_value_def)
  qed
qed

lemma nat_digits_set: "c \<in> set (nat_digits n) \<Longrightarrow> 48 \<le> (of_char c :: nat) \<and> (of_char c :: nat) < 58"
proof (induction n rule: nat_digits.induct)
  case (1 n)
  have "48 + n mod 10 < 256" and "48 + n mod 10 < 58" by presburger+
  with 1 show ?case
    by (cases "n < 10") (auto simp: nat_digits.simps [of n])
qed

lemma nat_digits_inj: "nat_digits m = nat_digits n \<Longrightarrow> m = n"
  by (metis digits_value_nat_digits)

lemma nat_digits_no_minus: "nat_digits n \<noteq> CHR ''-'' # s"
proof
  assume "nat_digits n = CHR ''-'' # s"
  then have "CHR ''-'' \<in> set (nat_digits n)" by simp
  from nat_digits_set [OF this] show False by simp
qed

lemma itoa_inj: "itoa i = itoa j \<Longrightarrow> i = j"
proof -
  assume eq: "itoa i = itoa j"
  consider "i < 0" "j < 0" | "\<not> i < 0" "\<not> j < 0" | "i < 0" "\<not> j < 0" | "\<not> i < 0" "j < 0" by blast
  then show ?thesis
  proof cases
    case 1
    with eq have "nat (- i) = nat (- j)" by (auto simp: itoa_def dest: nat_digits_inj)
    with 1 show ?thesis by simp
  next
    case 2
    with eq have "nat i = nat j" by (auto simp: itoa_def dest: nat_digits_inj)
    with 2 show ?thesis by simp
  next
    case 3
    with eq nat_digits_no_minus [of "nat j"] show ?thesis by (metis itoa_def)
  next
    case 4
    with eq nat_digits_no_minus [of "nat i"] show ?thesis by (metis itoa_def)
  qed
qed

text \<open>On ASCII strings the decoding is byte by byte.\<close>

lemma segments_ascii: "list_all (\<lambda>b. b < 128) bs \<Longrightarrow> segments bs = map (\<lambda>b. (b, [b])) bs"
proof (induction bs)
  case (Cons b bs)
  have "decode_rune (b # bs) = (b, 1)"
    using Cons.prems by (simp add: seq_len_def lead_bits_def Let_def)
  thus ?case using Cons by (subst segments.simps) simp
qed (subst segments.simps, simp)

lemma trim_list_map: "trim_list P (map f xs) = map f (trim_list (\<lambda>x. P (f x)) xs)"
  by (simp add: trim_list_def dropWhile_map rev_map comp_def)

lemma TrimSpace_ascii:
  assumes "list_all (\<lambda>c. (of_char c :: nat) < 128) s"
  shows "TrimSpace s = trim_list (\<lambda>c. IsSpace (of_char c)) s"
proof -
  have "segments (bytes_of s) = map (\<lambda>b. (b, [b])) (bytes_of s)"
    using assms by (intro segments_ascii) (simp add: bytes_of_def list_all_iff)
  thus ?thesis
    by (simp add: TrimSpace_def bytes_of_def trim_list_map comp_def)
qed

text \<open>Only ASCII bytes decode to ASCII runes.\<close>

lemma decode_rune_high:
  assumes "128 \<le> b0"
  shows "128 \<le> fst (decode_rune (b0 # bs))"
proof (cases "seq_len b0")
  case 0
  thus ?thesis by (simp add: runeError_def)
next
  case (Suc n)
  consider "seq_len b0 = 2" | "seq_len b0 = 3" | "seq_len b0 = 4"
    using assms Suc by (auto simp: seq_len_def split: if_splits)
  thus ?thesis
  proof cases
    case 1
    thus ?thesis
      by (cases bs) (auto simp: Let_def runeError_def lead_bits_def seq_len_def second_ok_def cont_def split: if_splits)
  next
    case 2
    have "128 \<le> ((b0 - 224) * 64 + (b1 - 128)) * 64 + (b2 - 128)" if "second_ok b0 b1" for b1 b2
      using that 2 by (auto simp: seq_len_def second_ok_def cont_def split: if_splits)
    with 2 show ?thesis
      by (cases bs; cases "tl bs") (auto simp: Let_def runeError_def lead_bits_def numeral_3_eq_3)
  next
    case 3
    have "128 \<le> (((b0 - 240) * 64 + (b1 - 128)) * 64 + (b2 - 128)) * 64 + (b3 - 128)" if "second_ok b0 b1" for b1 b2 b3
      using that 3 by (auto simp: seq_len_def second_ok_def cont_def split: if_splits)
    with 3 show ?thesis
      by (cases bs; cases "tl bs"; cases "tl (tl bs)") (auto simp: Let_def runeError_def lead_bits_def)
  qed
qed

lemma segments_ascii_bytes:
  "list_all (\<lambda>r. r < 128) (map fst (segments bs)) \<Longrightarrow> list_all (\<lambda>b. b < 128) bs"
proof (induction bs rule: length_induct)
  case (1 bs)
  show ?case
  proof (cases bs)
    case (Cons b0 rest)
    have seg: "segments bs = (fst (decode_rune bs), take (snd (decode_rune bs)) bs) # segments (drop (snd (decode_rune bs)) bs)"
      using Cons by (simp add: segments_Cons)
    hence "fst (decode_rune bs) < 128" using "1.prems" by (simp only: list.map list.pred_inject fst_conv)
    hence b0: "b0 < 128" using decode_rune_high [of b0 rest] unfolding Cons by (metis not_less order_less_le_trans)
    hence "snd (decode_rune bs) = 1" by (simp add: Cons seq_len_def Let_def)
    hence "list_all (\<lambda>r. r < 128) (map fst (segments rest))"
      using "1.prems" seg Cons by (simp only: list.map list.pred_inject drop_Suc_Cons One_nat_def drop0)
    thus ?thesis using "1.IH" Cons b0 by simp
  qed simp
qed

lemma runes_ascii_iff:
  "list_all (\<lambda>r. r < 128) (runes s) \<longleftrightarrow> list_all (\<lambda>c. (of_char c :: nat) < 128) s"
  using segments_ascii_bytes [of "bytes_of s"] segments_ascii [of "bytes_of s"]
  by (auto simp: runes_def bytes_of_def list_all_iff)

lemma runes_ascii: "list_all (\<lambda>c. (of_char c :: nat) < 128) s \<Longrightarrow> runes s = map of_char s"
  using segments_ascii [of "bytes_of s"] by (simp add: runes_def bytes_of_def list_all_iff comp_def)

lemma utf8_ascii: "list_all (\<lambda>r. r < 128) rs \<Longrightarrow> utf8 rs = map char_of rs"
  by (induction rs) (simp_all add: utf8_def encode_rune_def rune_bytes_def valid_rune_def)

end
