(* ===== verification/Go_Float.thy ===== *)
theory Go_Float
  imports Go_Strings Complex_Main "HOL-Library.Log_Nat"
begin

text \<open>
  Go's \<open>float64\<close>: IEEE 754 binary64 values as rational numbers, the two infinities and NaN.
  Arithmetic is done exactly on the rationals and then rounded to the nearest representable
  value, ties to even (\<open>round64\<close>), so sums and averages carry the rounding that the program
  has.  The two zeros are one value: the modelled code never divides by a zero whose sign could
  matter, and the sign of a zero shows only when it is printed.
\<close>

datatype f64 = NaN | PInf | NInf | Fin rat

definition pow2 :: "int \<Rightarrow> rat" where
  "pow2 e = (if 0 \<le> e then 2 ^ nat e else 1 / 2 ^ nat (- e))"

text \<open>The binary exponent of a positive rational number.\<close>

definition ilog2 :: "rat \<Rightarrow> int" where
  "ilog2 x =
     (let pq = quotient_of x;
          e = int (floorlog 2 (nat (fst pq))) - int (floorlog 2 (nat (snd pq)))
      in if pow2 e \<le> x then e else e - 1)"

text \<open>Round to the nearest integer, ties to even.\<close>

definition round_even :: "rat \<Rightarrow> int" where
  "round_even x =
     (let f = \<lfloor>x\<rfloor>; d = x - of_int f in
      if d < 1 / 2 then f
      else if 1 / 2 < d then f + 1
      else if even f then f else f + 1)"

definition round64 :: "rat \<Rightarrow> f64" where
  "round64 x =
     (if x = 0 then Fin 0
      else
        let a = \<bar>x\<bar>;
            e = max (ilog2 a - 52) (- 1074);
            v = of_int (round_even (a / pow2 e)) * pow2 e
        in if pow2 1024 \<le> v then (if x < 0 then NInf else PInf)
           else Fin (sgn x * v))"

text \<open>Conversion \<open>float64(i)\<close>.\<close>

definition f64_of_int :: "int \<Rightarrow> f64" where
  "f64_of_int i = round64 (of_int i)"

section \<open>Arithmetic\<close>

fun f_add :: "f64 \<Rightarrow> f64 \<Rightarrow> f64" where
  "f_add (Fin a) (Fin b) = round64 (a + b)"
| "f_add NaN _ = NaN"
| "f_add _ NaN = NaN"
| "f_add PInf NInf = NaN"
| "f_add NInf PInf = NaN"
| "f_add PInf _ = PInf"
| "f_add _ PInf = PInf"
| "f_add NInf _ = NInf"
| "f_add _ NInf = NInf"

fun f_neg :: "f64 \<Rightarrow> f64" where
  "f_neg (Fin a) = Fin (- a)"
| "f_neg PInf = NInf"
| "f_neg NInf = PInf"
| "f_neg NaN = NaN"

definition f_sub :: "f64 \<Rightarrow> f64 \<Rightarrow> f64" where
  "f_sub a b = f_add a (f_neg b)"

definition inf_of_sign :: "rat \<Rightarrow> f64" where
  "inf_of_sign s = (if s = 0 then NaN else if 0 < s then PInf else NInf)"

fun f_sign :: "f64 \<Rightarrow> rat" where
  "f_sign (Fin a) = sgn a"
| "f_sign PInf = 1"
| "f_sign NInf = - 1"
| "f_sign NaN = 0"

fun f_mul :: "f64 \<Rightarrow> f64 \<Rightarrow> f64" where
  "f_mul NaN _ = NaN"
| "f_mul _ NaN = NaN"
| "f_mul (Fin a) (Fin b) = round64 (a * b)"
| "f_mul a b = inf_of_sign (f_sign a * f_sign b)"

fun f_div :: "f64 \<Rightarrow> f64 \<Rightarrow> f64" where
  "f_div NaN _ = NaN"
| "f_div _ NaN = NaN"
| "f_div (Fin a) (Fin b) = (if b = 0 then inf_of_sign (sgn a) else round64 (a / b))"
| "f_div (Fin a) _ = Fin 0"
| "f_div a (Fin b) = (if 0 \<le> b then a else f_neg a)"
| "f_div _ _ = NaN"

section \<open>Comparison\<close>

fun f_le :: "f64 \<Rightarrow> f64 \<Rightarrow> bool" where
  "f_le NaN _ = False"
| "f_le _ NaN = False"
| "f_le NInf _ = True"
| "f_le _ PInf = True"
| "f_le (Fin a) (Fin b) = (a \<le> b)"
| "f_le _ _ = False"

fun f_lt :: "f64 \<Rightarrow> f64 \<Rightarrow> bool" where
  "f_lt NaN _ = False"
| "f_lt _ NaN = False"
| "f_lt (Fin a) (Fin b) = (a < b)"
| "f_lt NInf b = (b \<noteq> NInf)"
| "f_lt a PInf = (a \<noteq> PInf)"
| "f_lt _ _ = False"

fun f_eq :: "f64 \<Rightarrow> f64 \<Rightarrow> bool" where
  "f_eq NaN _ = False"
| "f_eq a b = (a = b)"

abbreviation (input) f_ge :: "f64 \<Rightarrow> f64 \<Rightarrow> bool" where
  "f_ge a b \<equiv> f_le b a"

abbreviation (input) f_gt :: "f64 \<Rightarrow> f64 \<Rightarrow> bool" where
  "f_gt a b \<equiv> f_lt b a"

definition f_finite :: "f64 \<Rightarrow> bool" where
  "f_finite a \<longleftrightarrow> (case a of Fin _ \<Rightarrow> True | _ \<Rightarrow> False)"

section \<open>Printing\<close>

text \<open>The verb \<open>%.1f\<close>.\<close>

definition fmt_f1 :: "f64 \<Rightarrow> string" where
  "fmt_f1 x =
     (case x of
        NaN \<Rightarrow> ''NaN''
      | PInf \<Rightarrow> ''+Inf''
      | NInf \<Rightarrow> ''-Inf''
      | Fin a \<Rightarrow>
          let n = nat (round_even (\<bar>a\<bar> * 10)) in
          (if a < 0 then ''-'' else '''') @ nat_digits (n div 10) @ ''.'' @ nat_digits (n mod 10))"

section \<open>Laws\<close>

lemma f_le_trans: "f_le a b \<Longrightarrow> f_le b c \<Longrightarrow> f_le a c"
  by (cases a; cases b; cases c) auto

lemma f_lt_le_trans: "f_lt a b \<Longrightarrow> f_le b c \<Longrightarrow> f_lt a c"
  by (cases a; cases b; cases c) auto

lemma f_le_lt_trans: "f_le a b \<Longrightarrow> f_lt b c \<Longrightarrow> f_lt a c"
  by (cases a; cases b; cases c) auto

lemma f_lt_imp_le: "f_lt a b \<Longrightarrow> f_le a b"
  by (cases a; cases b) auto

lemma f_lt_iff_not_le: "a \<noteq> NaN \<Longrightarrow> b \<noteq> NaN \<Longrightarrow> f_lt a b \<longleftrightarrow> \<not> f_le b a"
  by (cases a; cases b) auto

lemma f_le_not_NaN: "f_le a b \<Longrightarrow> a \<noteq> NaN \<and> b \<noteq> NaN"
  by (cases a; cases b) auto

lemma pow2_pos [simp]: "0 < pow2 e"
  by (simp add: pow2_def)

lemma round_even_of_int [simp]: "round_even (of_int i) = i"
  by (simp add: round_even_def Let_def)

lemma pow2_powi: "pow2 e = 2 powi e"
  by (simp add: pow2_def power_int_def power_one_over)

lemma pow2_add: "pow2 (a + b) = pow2 a * pow2 b"
  by (simp add: pow2_powi power_int_add)

lemma pow2_mono: "a \<le> b \<Longrightarrow> pow2 a \<le> pow2 b"
  by (simp add: pow2_powi power_int_increasing)

lemma pow2_strict: "a < b \<Longrightarrow> pow2 a < pow2 b"
  using power_int_strict_increasing [of a b "2 :: rat"] by (simp add: pow2_powi)

lemma pow2_less_iff: "pow2 a < pow2 b \<longleftrightarrow> a < b"
  using pow2_mono [of b a] pow2_strict [of a b] by linarith

lemma pow2_nat: "pow2 (int n) = 2 ^ n"
  by (simp add: pow2_def)

text \<open>The exponent brackets its argument.\<close>

lemma floorlog_rat_bounds:
  fixes p :: int
  assumes "0 < p"
  shows "pow2 (int (floorlog 2 (nat p)) - 1) \<le> of_int p"
    and "of_int p < pow2 (int (floorlog 2 (nat p)))"
proof -
  let ?k = "floorlog 2 (nat p)"
  have b: "2 ^ (?k - 1) \<le> nat p" "nat p < 2 ^ ?k"
    using floorlog_bounds [of "nat p" 2] assms by auto
  have k: "0 < ?k" using assms by (simp add: floorlog_def)
  have "pow2 (int ?k - 1) = of_nat (2 ^ (?k - 1))"
    using k pow2_nat [of "?k - 1"] by (simp add: of_nat_diff)
  also have "\<dots> \<le> of_nat (nat p)" using b(1) by (simp only: of_nat_le_iff)
  finally show "pow2 (int ?k - 1) \<le> of_int p" using assms by simp
  have "of_nat (nat p) < (of_nat (2 ^ ?k) :: rat)" using b(2) by (simp only: of_nat_less_iff)
  thus "of_int p < pow2 (int ?k)" using assms by (simp add: pow2_nat)
qed

lemma ilog2_bounds:
  assumes "0 < x"
  shows "pow2 (ilog2 x) \<le> x" and "x < pow2 (ilog2 x + 1)"
proof -
  obtain p q where pq: "quotient_of x = (p, q)" by (cases "quotient_of x")
  have q: "0 < q" using quotient_of_denom_pos [OF pq] .
  have x: "x = of_int p / of_int q" using quotient_of_div [OF pq] .
  have p: "0 < p" using assms q x by (simp add: zero_less_divide_iff)
  define a b where "a = int (floorlog 2 (nat p))" and "b = int (floorlog 2 (nat q))"
  note P = floorlog_rat_bounds [OF p, folded a_def]
  note Q = floorlog_rat_bounds [OF q, folded b_def]
  have qpos: "(0::rat) < of_int q" using q by simp
  have "x * of_int q = of_int p" using x qpos by simp
  have lo: "pow2 (a - b - 1) \<le> x"
  proof -
    have "pow2 (a - b - 1) * of_int q \<le> pow2 (a - b - 1) * pow2 b"
      using Q(2) by simp
    also have "\<dots> = pow2 (a - 1)" using pow2_add [of "a - b - 1" b] by (simp add: algebra_simps)
    also have "\<dots> \<le> x * of_int q" using P(1) x qpos by simp
    finally show ?thesis using qpos by simp
  qed
  have hi: "x < pow2 (a - b + 1)"
  proof -
    have "x * of_int q < pow2 a" using P(2) x qpos by simp
    also have "pow2 a = pow2 (a - b + 1) * pow2 (b - 1)"
      using pow2_add [of "a - b + 1" "b - 1"] by simp
    also have "\<dots> \<le> pow2 (a - b + 1) * of_int q" using Q(1) by simp
    finally show ?thesis using qpos by simp
  qed
  have e: "ilog2 x = (if pow2 (a - b) \<le> x then a - b else a - b - 1)"
    by (simp add: ilog2_def pq a_def b_def Let_def)
  show "pow2 (ilog2 x) \<le> x" using lo by (simp add: e)
  show "x < pow2 (ilog2 x + 1)" using hi by (simp add: e not_le)
qed

lemma ilog2_unique:
  assumes "pow2 e \<le> x" and "x < pow2 (e + 1)"
  shows "ilog2 x = e"
proof -
  have x: "0 < x" using assms(1) pow2_pos [of e] by linarith
  have "pow2 (ilog2 x) < pow2 (e + 1)" "pow2 e < pow2 (ilog2 x + 1)"
    using ilog2_bounds [OF x] assms by auto
  thus ?thesis by (simp add: pow2_less_iff)
qed

lemma ilog2_mono: "0 < x \<Longrightarrow> x \<le> y \<Longrightarrow> ilog2 x \<le> ilog2 y"
  using ilog2_bounds [of x] ilog2_bounds [of y] pow2_less_iff [of "ilog2 x" "ilog2 y + 1"]
  by linarith

text \<open>Integers up to \<open>2\<^sup>5\<^sup>3\<close> are represented exactly.\<close>

lemma round_even_int: "of_int i = x \<Longrightarrow> round_even x = i"
  using round_even_of_int [of i] by simp

lemma round64_exact:
  assumes "x \<noteq> 0" and "\<bar>x\<bar> / pow2 (max (ilog2 \<bar>x\<bar> - 52) (- 1074)) = of_int m"
    and "\<bar>x\<bar> < pow2 1024"
  shows "round64 x = Fin x"
proof -
  let ?e = "max (ilog2 \<bar>x\<bar> - 52) (- 1074)"
  have "of_int m * pow2 ?e = \<bar>x\<bar>"
    using assms(2) pow2_pos [of ?e] by (simp add: field_simps)
  thus ?thesis
    using assms by (simp add: round64_def Let_def sgn_mult_abs)
qed

lemma ilog2_less:
  assumes "0 < x" and "x < pow2 k"
  shows "ilog2 x < k"
  using ilog2_bounds(1) [OF assms(1)] assms(2) pow2_less_iff [of "ilog2 x" k] by linarith

lemma divide_by_inverse:
  fixes a b k c :: rat
  assumes "a * b * k = 1"
  shows "c / (k * b) = c * a"
proof -
  have "k * b \<noteq> 0" using assms by auto
  moreover have "c = c * (a * b * k)" using assms by simp
  ultimately show ?thesis by (simp add: divide_eq_eq mult_ac)
qed

text \<open>Dyadic fractions with a numerator of at most 53 bits are represented exactly.\<close>

lemma round64_dyadic:
  assumes "\<bar>m\<bar> < 2 ^ 53" and "k \<le> 900"
  shows "round64 (of_int m / 2 ^ k) = Fin (of_int m / 2 ^ k)"
proof (cases "m = 0")
  case False
  let ?x = "of_int m / 2 ^ k :: rat" let ?a = "\<bar>?x\<bar>"
  let ?e = "max (ilog2 ?a - 52) (- 1074)"
  have pos: "0 < ?a" using False by simp
  have "(of_int \<bar>m\<bar> :: rat) < of_int (2 ^ 53)" using assms(1) by (simp only: of_int_less_iff)
  hence m53: "of_int \<bar>m\<bar> < (2 :: rat) ^ 53" by simp
  have p: "pow2 (53 - int k) = 2 ^ 53 / 2 ^ k"
    using pow2_add [of "53 - int k" "int k"] pow2_nat [of k] pow2_nat [of 53] by (simp add: field_simps)
  have a: "?a < pow2 (53 - int k)" using m53 unfolding p by (simp add: field_simps)
  have "ilog2 ?a < 53 - int k" by (rule ilog2_less [OF pos a])
  hence e: "?e \<le> - int k" using assms(2) by simp
  have "pow2 (- int k - ?e) * pow2 ?e * 2 ^ k = 1"
    using pow2_add [of "- int k - ?e" ?e] pow2_add [of "- int k" "int k"] pow2_nat [of k]
    by (simp add: pow2_def [of 0])
  hence "c / (2 ^ k * pow2 ?e) = c * pow2 (- int k - ?e)" for c
    using divide_by_inverse [of "pow2 (- int k - ?e)" "pow2 ?e" "2 ^ k" c] by blast
  hence "?a / pow2 ?e = of_int \<bar>m\<bar> * pow2 (- int k - ?e)" by simp
  moreover have "pow2 (- int k - ?e) = of_int (2 ^ nat (- int k - ?e))"
    using e by (simp add: pow2_def)
  ultimately have i: "?a / pow2 ?e = of_int (\<bar>m\<bar> * 2 ^ nat (- int k - ?e))" by simp
  have "?a < pow2 1024" using a pow2_mono [of "53 - int k" 1024] by linarith
  thus ?thesis using False by (intro round64_exact [OF _ i]) simp_all
qed (simp add: round64_def)

lemma f64_of_int_exact:
  assumes "\<bar>i\<bar> < 2 ^ 53"
  shows "f64_of_int i = Fin (of_int i)"
  using round64_dyadic [of i 0] assms by (simp add: f64_of_int_def)

text \<open>
  Evaluation tests for overflow on the exponent, so that the bound \<open>2 ^ 1024\<close> is not computed, and
  returns short dyadic fractions as they are.
\<close>

lemma pow2_le_iff_ilog2: "pow2 k \<le> v \<longleftrightarrow> 0 < v \<and> k \<le> ilog2 v"
proof (cases "0 < v")
  case True
  show ?thesis
    using ilog2_bounds [OF True] pow2_mono [of k "ilog2 v"] pow2_less_iff [of k "ilog2 v + 1"] True
    by (auto intro: order_trans)
next
  case False
  hence "\<not> pow2 k \<le> v" using pow2_pos [of k] by linarith
  thus ?thesis using False by simp
qed

lemma divisor_power_two:
  fixes q :: int
  assumes "0 < q" and "q dvd 2 ^ n"
  shows "\<exists>k \<le> n. q = 2 ^ k"
  using assms
proof (induction n arbitrary: q)
  case (Suc n)
  show ?case
  proof (cases "even q")
    case True
    then obtain r where r: "q = 2 * r" by blast
    then obtain k where "k \<le> n" "r = 2 ^ k" using Suc.IH [of r] Suc.prems by auto
    thus ?thesis using r by (intro exI [of _ "Suc k"]) simp
  next
    case False
    hence "coprime q (2 ^ Suc n)" by (simp add: coprime_commute)
    hence "is_unit q" using coprime_absorb_left [OF Suc.prems(2)] by blast
    hence "q = 1" using Suc.prems(1) by simp
    thus ?thesis by (intro exI [of _ 0]) simp
  qed
qed simp

lemma round64_code [code]:
  "round64 x =
     (let pq = quotient_of x in
      if 1152921504606846976 mod snd pq = 0 \<and> \<bar>fst pq\<bar> < 9007199254740992 then Fin x
      else
        let a = \<bar>x\<bar>;
            e = max (ilog2 a - 52) (- 1074);
            v = of_int (round_even (a / pow2 e)) * pow2 e
        in if 0 < v \<and> 1024 \<le> ilog2 v then (if x < 0 then NInf else PInf)
           else Fin (sgn x * v))"
proof -
  obtain p q where pq: "quotient_of x = (p, q)" by (cases "quotient_of x")
  have q: "0 < q" and x: "x = of_int p / of_int q"
    using quotient_of_denom_pos [OF pq] quotient_of_div [OF pq] by auto
  have exact: "round64 x = Fin x" if "1152921504606846976 mod q = 0" and "\<bar>p\<bar> < 9007199254740992"
  proof -
    have "q dvd 2 ^ 60" using that(1) by (simp add: dvd_eq_mod_eq_0)
    then obtain k where k: "k \<le> 60" "q = 2 ^ k" using divisor_power_two [OF q] by blast
    have "round64 (of_int p / 2 ^ k) = Fin (of_int p / 2 ^ k)"
      by (rule round64_dyadic) (use that(2) k(1) in simp_all)
    thus ?thesis by (simp add: x k(2))
  qed
  have "x \<noteq> 0" if "\<not> (1152921504606846976 mod q = 0 \<and> \<bar>p\<bar> < 9007199254740992)"
    using that pq by auto
  thus ?thesis
    using exact by (auto simp: pq Let_def round64_def pow2_le_iff_ilog2)
qed

text \<open>A literal of the source is the nearest multiple of the last place.\<close>

lemma round_even_near:
  assumes "\<bar>x - of_int m\<bar> < 1 / 2"
  shows "round_even x = m"
proof (cases "of_int m \<le> x")
  case True
  hence "\<lfloor>x\<rfloor> = m" using assms by linarith
  thus ?thesis using assms True by (simp add: round_even_def Let_def)
next
  case False
  hence "\<lfloor>x\<rfloor> = m - 1" using assms by linarith
  thus ?thesis using assms False by (simp add: round_even_def Let_def)
qed

lemma round64_nearest:
  assumes "pow2 e \<le> x" and "x < pow2 (e + 1)" and "- 1022 \<le> e" and "0 < m" and "m < 2 ^ 53" and "e \<le> 900"
    and "\<bar>x / pow2 (e - 52) - of_int m\<bar> < 1 / 2"
  shows "round64 x = Fin (of_int m * pow2 (e - 52))"
proof -
  have pos: "0 < x" using assms(1) pow2_pos [of e] by linarith
  have l: "ilog2 x = e" by (rule ilog2_unique [OF assms(1,2)])
  have "(of_int m :: rat) < of_int (2 ^ 53)" using assms(5) by (simp only: of_int_less_iff)
  hence "of_int m < pow2 53" by (simp add: pow2_def)
  hence "of_int m * pow2 (e - 52) < pow2 53 * pow2 (e - 52)" by (rule mult_strict_right_mono) simp
  also have "\<dots> = pow2 (e + 1)" by (simp add: pow2_add [symmetric] add.commute)
  also have "\<dots> \<le> pow2 1024" using assms(6) by (intro pow2_mono) simp
  finally have "\<not> pow2 1024 \<le> of_int m * pow2 (e - 52)" by simp
  thus ?thesis
    using pos assms(3) round_even_near [OF assms(7)] by (simp add: round64_def l Let_def)
qed

end
