(* ===== verification/Go_JSON.thy ===== *)
theory Go_JSON
  imports Go_Float Go_Strings
begin

text \<open>
  JSON values as \<open>encoding/json\<close> reads them from a text: members in the order of the text, repeated keys
  kept, strings and keys after unquoting, numbers by their exact value.  \<open>json.RawMessage\<close> is a piece of
  text inside a Go value: empty, a JSON value, or bytes that are not JSON.
\<close>

datatype json =
  JNull
| JBool bool
| JNumber rat
| JString string
| JArray "json list"
| JObject "(string \<times> json) list"

datatype RawMessage = RawNil | RawValue json | RawInvalid string

text \<open>
  The nesting of arrays and objects, which the scanner of \<open>encoding/json\<close> limits to 10000.
\<close>

definition maxNestingDepth :: nat where "maxNestingDepth = 10000"

fun jsonDepth :: "json \<Rightarrow> nat" where
  "jsonDepth (JArray values) = Suc (fold max (map jsonDepth values) 0)"
| "jsonDepth (JObject members) = Suc (fold max (map (\<lambda>(key, value). jsonDepth value) members) 0)"
| "jsonDepth _ = 0"

text \<open>
  Reading a number as a \<open>float64\<close> fails when it is out of range.  A string that is not UTF-8 is written
  with U+FFFD in the place of every byte that does not belong to a character.
\<close>

definition numberInRange :: "rat \<Rightarrow> bool" where
  "numberInRange x \<longleftrightarrow> f_finite (round64 x)"

definition jsonString :: "string \<Rightarrow> string" where
  "jsonString s = utf8 (runes s)"

text \<open>\<open>json.Marshal\<close> checks a raw message with the scanner and refuses it when it is not JSON.\<close>

fun rawMarshals :: "RawMessage \<Rightarrow> bool" where
  "rawMarshals RawNil = True"
| "rawMarshals (RawValue value) = (jsonDepth value \<le> maxNestingDepth)"
| "rawMarshals (RawInvalid bytes) = False"

text \<open>The value of a raw message in a text that has it inside so many arrays and objects.\<close>

fun rawJSON :: "nat \<Rightarrow> RawMessage \<Rightarrow> (nat \<times> json) list" where
  "rawJSON around (RawValue value) = [(around, value)]"
| "rawJSON around _ = []"

end
