(* ===== verification/Go_Collections.thy ===== *)
theory Go_Collections
  imports Go_Prelude "HOL-Library.AList"
begin

text \<open>
  Sorting, duplicate removal and maps.  \<open>sort.SliceStable\<close> is a stable insertion sort by
  the comparison function the caller passes; \<open>sort.Slice\<close> is modelled by the same function
  and is only used where elements that compare equal are equal (instants, strings) or do not
  occur (map values with distinct keys), so that every sorting algorithm gives the same list.
  The contract of the comparison functions is the locale \<open>go_less\<close>, which each component
  interprets for its own order.  A Go map is an association list with distinct keys in the order
  of first insertion; the order of a \<open>range\<close> over a map is not specified by the language
  and is an argument of the definitions where it can be observed.
\<close>

section \<open>Sorting\<close>

fun insort_less :: "('a \<Rightarrow> 'a \<Rightarrow> bool) \<Rightarrow> 'a \<Rightarrow> 'a list \<Rightarrow> 'a list" where
  "insort_less lt x [] = [x]"
| "insort_less lt x (y # ys) = (if lt y x then y # insort_less lt x ys else x # y # ys)"

definition SliceStable :: "('a \<Rightarrow> 'a \<Rightarrow> bool) \<Rightarrow> 'a list \<Rightarrow> 'a list" where
  "SliceStable lt xs = foldr (insort_less lt) xs []"

definition in_order :: "('a \<Rightarrow> 'a \<Rightarrow> bool) \<Rightarrow> 'a list \<Rightarrow> bool" where
  "in_order lt xs \<longleftrightarrow> sorted_wrt (\<lambda>a b. \<not> lt b a) xs"

lemma mset_insort_less [simp]: "mset (insort_less lt x xs) = add_mset x (mset xs)"
  by (induction xs) auto

lemma mset_SliceStable [simp]: "mset (SliceStable lt xs) = mset xs"
  unfolding SliceStable_def by (induction xs) auto

lemma set_SliceStable [simp]: "set (SliceStable lt xs) = set xs"
  using mset_SliceStable by (rule mset_eq_setD)

lemma length_SliceStable [simp]: "length (SliceStable lt xs) = length xs"
  using mset_SliceStable by (rule mset_eq_length)

lemma SliceStable_Nil_iff [simp]: "SliceStable lt xs = [] \<longleftrightarrow> xs = []"
  by (metis length_SliceStable length_0_conv)

locale go_less =
  fixes lt :: "'a \<Rightarrow> 'a \<Rightarrow> bool"
  assumes less_irrefl: "\<not> lt x x"
    and less_trans: "lt x y \<Longrightarrow> lt y z \<Longrightarrow> lt x z"
    and less_neg_trans: "\<not> lt x y \<Longrightarrow> \<not> lt y z \<Longrightarrow> \<not> lt x z"
begin

lemma less_asym: "lt x y \<Longrightarrow> \<not> lt y x"
  using less_irrefl less_trans by blast

lemma in_order_insort:
  "in_order lt xs \<Longrightarrow> in_order lt (insort_less lt x xs)"
proof (induction xs)
  case (Cons y ys)
  have "set (insort_less lt x ys) = insert x (set ys)"
    using mset_insort_less by (metis set_mset_add_mset_insert set_mset_mset)
  with Cons show ?case
    by (auto simp: in_order_def less_asym dest: less_neg_trans)
qed (simp add: in_order_def)

lemma in_order_SliceStable: "in_order lt (SliceStable lt xs)"
  unfolding SliceStable_def by (induction xs) (simp_all add: in_order_insort, simp add: in_order_def)

lemma SliceStable_in_order_id: "in_order lt xs \<Longrightarrow> SliceStable lt xs = xs"
proof (induction xs)
  case (Cons x xs)
  then have "SliceStable lt xs = xs" by (simp add: in_order_def)
  with Cons.prems show ?case
    by (cases xs) (auto simp: SliceStable_def in_order_def)
qed (simp add: SliceStable_def)

lemma SliceStable_idem: "SliceStable lt (SliceStable lt xs) = SliceStable lt xs"
  by (rule SliceStable_in_order_id) (rule in_order_SliceStable)

lemma filter_insort_less:
  assumes "in_order lt ys" and "\<And>a b. P a \<Longrightarrow> P b \<Longrightarrow> \<not> lt a b"
  shows "filter P (insort_less lt x ys) = (if P x then x # filter P ys else filter P ys)"
  using assms(1)
proof (induction ys)
  case (Cons y ys)
  have "in_order lt ys" using Cons.prems by (simp add: in_order_def)
  moreover have "\<not> P y" if "lt y x" and "P x" using that assms(2) by blast
  ultimately show ?case using Cons.IH by auto
qed simp

text \<open>Elements that compare equal keep their order.\<close>

lemma SliceStable_stable:
  assumes "\<And>a b. P a \<Longrightarrow> P b \<Longrightarrow> \<not> lt a b"
  shows "filter P (SliceStable lt xs) = filter P xs"
proof (induction xs)
  case (Cons x xs)
  show ?case
    using Cons filter_insort_less [where P = P, OF in_order_SliceStable [of xs] assms, of x]
    by (auto simp: SliceStable_def)
qed (simp add: SliceStable_def)

text \<open>Where equal elements cannot be told apart the sorted list is unique.\<close>

lemma in_order_unique:
  assumes "in_order lt xs" and "in_order lt ys" and "mset xs = mset ys"
    and tot: "\<And>a b. a \<in> set xs \<Longrightarrow> b \<in> set xs \<Longrightarrow> \<not> lt a b \<Longrightarrow> \<not> lt b a \<Longrightarrow> a = b"
  shows "xs = ys"
  using assms
proof (induction xs arbitrary: ys)
  case (Cons x xs)
  then obtain y zs where ys: "ys = y # zs" by (cases ys) auto
  have sets: "set (x # xs) = set (y # zs)" using Cons.prems(3) ys by (metis mset_eq_setD)
  have "y \<in> set (x # xs)" and "x \<in> set (y # zs)"
    using sets list.set_intros(1) by metis+
  then have "\<not> lt y x" and "\<not> lt x y"
    using Cons.prems(1,2) less_irrefl unfolding ys by (auto simp: in_order_def)
  then have xy: "x = y" using Cons.prems(4) [of x y] sets by auto
  have "xs = zs"
  proof (rule Cons.IH)
    show "in_order lt xs" "in_order lt zs" using Cons.prems(1,2) by (simp_all add: in_order_def ys)
    show "mset xs = mset zs" using Cons.prems(3) by (simp add: ys xy)
    show "\<And>a b. a \<in> set xs \<Longrightarrow> b \<in> set xs \<Longrightarrow> \<not> lt a b \<Longrightarrow> \<not> lt b a \<Longrightarrow> a = b"
      using Cons.prems(4) by auto
  qed
  then show ?case by (simp add: ys xy)
qed simp

lemma SliceStable_perm_eq:
  assumes "mset xs = mset ys"
    and "\<And>a b. a \<in> set xs \<Longrightarrow> b \<in> set xs \<Longrightarrow> \<not> lt a b \<Longrightarrow> \<not> lt b a \<Longrightarrow> a = b"
  shows "SliceStable lt xs = SliceStable lt ys"
  by (rule in_order_unique) (simp_all add: in_order_SliceStable assms)

end

text \<open>Sorting the images of a list by their order is sorting the list by the order of its images.\<close>

lemma insort_less_map:
  "insort_less lt (f x) (map f xs) = map f (insort_less (\<lambda>a b. lt (f a) (f b)) x xs)"
  by (induction xs) auto

lemma SliceStable_map:
  "SliceStable lt (map f xs) = map f (SliceStable (\<lambda>a b. lt (f a) (f b)) xs)"
  unfolding SliceStable_def by (induction xs) (simp_all add: insort_less_map)

lemma distinct_submset:
  assumes "mset xs \<subseteq># mset ys" and "distinct ys"
  shows "distinct xs"
proof -
  have "count (mset xs) a = (if a \<in> set xs then 1 else 0)" for a
  proof -
    have "count (mset xs) a \<le> count (mset ys) a"
      using assms(1) by (rule mset_subset_eq_count)
    also have "\<dots> \<le> 1" using assms(2) by (simp add: distinct_count_atmost_1)
    finally have "count (mset xs) a \<le> 1" .
    moreover have "0 < count (mset xs) a \<longleftrightarrow> a \<in> set xs"
      by (simp only: count_greater_zero_iff set_mset_mset)
    ultimately show ?thesis by (cases "count (mset xs) a"; cases "a \<in> set xs") simp_all
  qed
  thus ?thesis unfolding distinct_count_atmost_1 by blast
qed

lemma go_less_key: "go_less (\<lambda>x y. (key x :: 'k::linorder) < key y)"
  by unfold_locales auto

lemma go_less_key_desc: "go_less (\<lambda>x y. (key y :: 'k::linorder) < key x)"
  by unfold_locales auto

text \<open>\<open>sort.Strings\<close>, and instants in increasing and decreasing order.\<close>

definition string_less :: "string \<Rightarrow> string \<Rightarrow> bool" where
  "string_less a b \<longleftrightarrow> a < b"

definition sort_Strings :: "string list \<Rightarrow> string list" where
  "sort_Strings xs = SliceStable string_less xs"

definition time_Before :: "time \<Rightarrow> time \<Rightarrow> bool" where
  "time_Before a b \<longleftrightarrow> a < b"

definition time_After :: "time \<Rightarrow> time \<Rightarrow> bool" where
  "time_After a b \<longleftrightarrow> b < a"

interpretation strings_order: go_less string_less
  using go_less_key [of "\<lambda>x. x"] by (simp add: string_less_def [abs_def])

interpretation before_order: go_less time_Before
  using go_less_key [of "\<lambda>x. x"] by (simp add: time_Before_def [abs_def])

interpretation after_order: go_less time_After
  using go_less_key_desc [of "\<lambda>x. x"] by (simp add: time_After_def [abs_def])

lemma sort_Strings_perm: "mset xs = mset ys \<Longrightarrow> sort_Strings xs = sort_Strings ys"
  unfolding sort_Strings_def
  by (rule strings_order.SliceStable_perm_eq) (auto simp: string_less_def)

lemma sort_Strings_sorted: "sorted (sort_Strings xs)"
  using strings_order.in_order_SliceStable [of xs]
  by (simp add: sort_Strings_def in_order_def string_less_def not_less)

lemma set_sort_Strings [simp]: "set (sort_Strings xs) = set xs"
  by (simp add: sort_Strings_def)

lemma mset_sort_Strings [simp]: "mset (sort_Strings xs) = mset xs"
  by (simp add: sort_Strings_def)

section \<open>Duplicates\<close>

text \<open>The loop over a slice with a \<open>seen\<close> map that keeps the first occurrence of each value.\<close>

fun keep_first :: "'a set \<Rightarrow> 'a list \<Rightarrow> 'a list" where
  "keep_first seen [] = []"
| "keep_first seen (x # xs) =
     (if x \<in> seen then keep_first seen xs else x # keep_first (insert x seen) xs)"

lemma set_keep_first: "set (keep_first seen xs) = set xs - seen"
  by (induction xs arbitrary: seen) auto

lemma distinct_keep_first: "distinct (keep_first seen xs)"
  by (induction xs arbitrary: seen) (auto simp: set_keep_first)

lemma keep_first_distinct_id: "distinct xs \<Longrightarrow> set xs \<inter> seen = {} \<Longrightarrow> keep_first seen xs = xs"
  by (induction xs arbitrary: seen) auto

section \<open>Maps\<close>

type_synonym ('k, 'v) gomap = "('k \<times> 'v) list"

text \<open>Appending to the slice stored under a key: \<open>m[k] = append(m[k], x)\<close>.\<close>

definition map_append :: "'k \<Rightarrow> 'x \<Rightarrow> ('k, 'x list) gomap \<Rightarrow> ('k, 'x list) gomap" where
  "map_append k x m =
     AList.update k ((case map_of m k of None \<Rightarrow> [] | Some xs \<Rightarrow> xs) @ [x]) m"

definition group_by :: "('x \<Rightarrow> 'k) \<Rightarrow> 'x list \<Rightarrow> ('k, 'x list) gomap" where
  "group_by key xs = foldl (\<lambda>m x. map_append (key x) x m) [] xs"

lemma foldl_map_append:
  "map_of (foldl (\<lambda>m x. map_append (key x) x m) m xs) k =
     (case map_of m k of
        None \<Rightarrow> if filter (\<lambda>x. key x = k) xs = [] then None else Some (filter (\<lambda>x. key x = k) xs)
      | Some ys \<Rightarrow> Some (ys @ filter (\<lambda>x. key x = k) xs))"
proof (induction xs arbitrary: m)
  case (Cons x xs)
  then show ?case
    by (auto simp: map_append_def update_conv' split: option.splits)
qed (auto split: option.split)

lemma map_of_group_by:
  "map_of (group_by key xs) k =
     (if filter (\<lambda>x. key x = k) xs = [] then None else Some (filter (\<lambda>x. key x = k) xs))"
  by (simp add: group_by_def foldl_map_append)

lemma distinct_keys_foldl_map_append:
  "distinct (map fst m) \<Longrightarrow> distinct (map fst (foldl (\<lambda>m x. map_append (key x) x m) m xs))"
  by (induction xs arbitrary: m) (auto simp: map_append_def distinct_update)

lemma distinct_keys_group_by: "distinct (map fst (group_by key xs))"
  by (simp add: group_by_def distinct_keys_foldl_map_append)

lemma group_by_entry:
  assumes "(k, ys) \<in> set (group_by key xs)"
  shows "ys = filter (\<lambda>x. key x = k) xs" and "ys \<noteq> []"
  using map_of_is_SomeI [OF distinct_keys_group_by assms] map_of_group_by [of key xs k]
  by (auto split: if_splits)

lemma keys_group_by: "fst ` set (group_by key xs) = key ` set xs"
proof -
  have "k \<in> fst ` set (group_by key xs) \<longleftrightarrow> k \<in> key ` set xs" for k
  proof -
    have "k \<in> fst ` set (group_by key xs) \<longleftrightarrow> map_of (group_by key xs) k \<noteq> None"
      by (metis map_of_eq_None_iff)
    also have "\<dots> \<longleftrightarrow> k \<in> key ` set xs"
      by (auto simp: map_of_group_by filter_empty_conv)
    finally show ?thesis .
  qed
  then show ?thesis by blast
qed

end
