(* ===== verification/Agent_Api.thy ===== *)
theory Agent_Api
  imports Go_JSON Go_Collections
begin

text \<open>
  The wire contract between agent and center (\<open>internal/contracts/agentapi\<close>): the fact payloads of
  a sync request, the request itself and the sync protocol constants; and the stored form of the
  facts the incident rules read (\<open>internal/center/runtimefacts\<close>).  A nil pointer is \<open>None\<close>, a nil
  slice the empty list, a raw JSON message a \<open>RawMessage\<close>.  Field names carry a prefix for their struct.
\<close>

section \<open>Result kinds and probe kinds\<close>

definition ProbeResultSuccess :: string where "ProbeResultSuccess = ''success''"
definition ProbeResultFailure :: string where "ProbeResultFailure = ''failure''"

definition ProbeKindTCP :: string where "ProbeKindTCP = ''tcp''"
definition ProbeKindHTTP :: string where "ProbeKindHTTP = ''http''"
definition ProbeKindTLS :: string where "ProbeKindTLS = ''tls''"

definition FrequencyTier5s :: string where "FrequencyTier5s = ''5s''"
definition FrequencyTier1m :: string where "FrequencyTier1m = ''1m''"
definition FrequencyTier5m :: string where "FrequencyTier5m = ''5m''"
definition FrequencyTier15m :: string where "FrequencyTier15m = ''15m''"
definition FrequencyTier6h :: string where "FrequencyTier6h = ''6h''"

lemmas agentapi_consts =
  ProbeResultSuccess_def ProbeResultFailure_def ProbeKindTCP_def ProbeKindHTTP_def ProbeKindTLS_def
  FrequencyTier5s_def FrequencyTier1m_def FrequencyTier5m_def FrequencyTier15m_def FrequencyTier6h_def

section \<open>Payloads\<close>

record MonitoringInstanceHeartbeat =
  hb_ObservedAt   :: time
  hb_AgentVersion :: string
  hb_Fingerprint  :: string
  hb_SyncBatchID  :: string
  hb_IsBackfilled :: bool

record ContainerInfo =
  ci_ID     :: string
  ci_Name   :: string
  ci_Image  :: string
  ci_Status :: string
  ci_CPUPct :: "f64 option"
  ci_MemPct :: "f64 option"

record HostSamplePayload =
  hp_ObservedAt           :: time
  hp_AgentVersion         :: string
  hp_Fingerprint          :: string
  hp_SyncBatchID          :: string
  hp_CPUUsagePct          :: f64
  hp_CPURatesValid        :: "bool option"
  hp_Load1                :: f64
  hp_Load5                :: f64
  hp_Load15               :: f64
  hp_MemUsedPct           :: f64
  hp_MemAvailableBytes    :: int
  hp_MemTotalBytes        :: int
  hp_SwapUsedPct          :: f64
  hp_DiskUsedPct          :: f64
  hp_DiskTotalBytes       :: int
  hp_InodeUsedPct         :: f64
  hp_NetInBytesPerSec     :: int
  hp_NetOutBytesPerSec    :: int
  hp_NetworkRatesValid    :: "bool option"
  hp_CPUIOWaitPct         :: f64
  hp_CPUStealPct          :: f64
  hp_DiskReadBytesPerSec  :: int
  hp_DiskWriteBytesPerSec :: int
  hp_DiskBusyPct          :: f64
  hp_UptimeSeconds        :: int
  hp_MaintenanceContext   :: bool
  hp_IsBackfilled         :: bool
  hp_Containers           :: "ContainerInfo list"

definition CPURatesUsable :: "bool option \<Rightarrow> f64 \<Rightarrow> f64 \<Rightarrow> f64 \<Rightarrow> bool" where
  "CPURatesUsable valid usage iowait steal \<longleftrightarrow>
     (valid = None \<or> valid = Some True) \<and>
     f_ge usage (Fin 0) \<and> f_le usage (Fin 100) \<and>
     f_ge iowait (Fin 0) \<and> f_le iowait (Fin 100) \<and>
     f_ge steal (Fin 0) \<and> f_le steal (Fin 100)"

record ProbeObservationPayload =
  pp_TargetID           :: string
  pp_ProbeItemID        :: string
  pp_ProbeKind          :: string
  pp_ObservedAt         :: time
  pp_AgentVersion       :: string
  pp_Fingerprint        :: string
  pp_SyncBatchID        :: string
  pp_ResultKind         :: string
  pp_LatencyMS          :: "int option"
  pp_HTTPStatus         :: "int option"
  pp_TLSExpiryDays      :: "int option"
  pp_ErrorCode          :: string
  pp_ErrorSummary       :: string
  pp_MaintenanceContext :: bool
  pp_IsBackfilled       :: bool

record IPQualityScore =
  qs_ID          :: string
  qs_Label       :: string
  qs_RawValue    :: string
  qs_Unit        :: string
  qs_Scope       :: string
  qs_Direction   :: string
  qs_SourceLabel :: string
  qs_Value       :: "f64 option"
  qs_Min         :: "f64 option"
  qs_Max         :: "f64 option"

record IPQualityProviderDetails =
  qd_QueriedIP             :: string
  qd_ObservedAt            :: time
  qd_Method                :: string
  qd_APITier               :: string
  qd_CountryCode           :: string
  qd_Region                :: string
  qd_City                  :: string
  qd_PostalCode            :: string
  qd_Timezone              :: string
  qd_Latitude              :: "f64 option"
  qd_Longitude             :: "f64 option"
  qd_RegisteredCountryCode :: string
  qd_ASN                   :: string
  qd_ASName                :: string
  qd_ASDomain              :: string
  qd_ASCountryCode         :: string
  qd_Route                 :: string
  qd_CompanyName           :: string
  qd_CompanyDomain         :: string
  qd_IsMobile              :: "bool option"
  qd_IsAnycast             :: "bool option"
  qd_IsBogon               :: "bool option"
  qd_Scores                :: "IPQualityScore list"
  qd_FieldStates           :: "(string \<times> string) list"

record IPQualityMailResult =
  qm_Provider     :: string
  qm_Domain       :: string
  qm_Status       :: string
  qm_MXHost       :: string
  qm_TargetIP     :: string
  qm_ErrorCode    :: string
  qm_MXPreference :: "int option"
  qm_GreetingCode :: "int option"
  qm_LatencyMS    :: "int option"
  qm_ObservedAt   :: time

record IPQualityAgentProduct =
  qp_Revision :: int
  qp_PTRNames :: "string list"
  qp_Mail     :: "IPQualityMailResult list"

record IPQualityServiceCheck =
  qc_ID         :: string
  qc_Label      :: string
  qc_Status     :: string
  qc_Region     :: string
  qc_ErrorCode  :: string
  qc_Rule       :: string
  qc_HTTPStatus :: "int option"

record IPQualityProviderResultPayload =
  qr_Provider     :: string
  qr_Status       :: string
  qr_SourceType   :: string
  qr_LatencyMS    :: "int option"
  qr_UsageType    :: string
  qr_CompanyType  :: string
  qr_RiskLevel    :: string
  qr_RiskScore    :: string
  qr_RegionCode   :: string
  qr_RegionName   :: string
  qr_IsProxy      :: "bool option"
  qr_IsTor        :: "bool option"
  qr_IsVPN        :: "bool option"
  qr_IsServer     :: "bool option"
  qr_IsAbuser     :: "bool option"
  qr_IsRobot      :: "bool option"
  qr_ErrorCode    :: string
  qr_ErrorSummary :: string
  qr_ExtraJSON    :: RawMessage
  qr_Details      :: "IPQualityProviderDetails option"

record IPQualityServiceUnlockPayload =
  qu_Service      :: string
  qu_Source       :: string
  qu_Status       :: string
  qu_ProbeStatus  :: string
  qu_LatencyMS    :: "int option"
  qu_Region       :: string
  qu_UnlockType   :: string
  qu_ErrorCode    :: string
  qu_ErrorSummary :: string
  qu_ExtraJSON    :: RawMessage
  qu_Checks       :: "IPQualityServiceCheck list"

record IPQualityCoveragePayload =
  qv_ExpectedProviderCount      :: int
  qv_SuccessfulProviderCount    :: int
  qv_FailedProviderCount        :: int
  qv_SkippedProviderCount       :: int
  qv_NotConfiguredProviderCount :: int
  qv_ExpectedServiceCount       :: int
  qv_SuccessfulServiceCount     :: int
  qv_FailedServiceCount         :: int
  qv_SkippedServiceCount        :: int
  qv_NotConfiguredServiceCount  :: int

record IPQualityReportPayload =
  iq_ObservedAt           :: time
  iq_AgentVersion         :: string
  iq_Fingerprint          :: string
  iq_SyncBatchID          :: string
  iq_IPAddress            :: string
  iq_IPVersion            :: int
  iq_Status               :: string
  iq_ASN                  :: string
  iq_Organization         :: string
  iq_Latitude             :: "f64 option"
  iq_Longitude            :: "f64 option"
  iq_UseRegionCode        :: string
  iq_UseRegionName        :: string
  iq_RegisteredRegionCode :: string
  iq_RegisteredRegionName :: string
  iq_RiskLevel            :: string
  iq_ErrorCode            :: string
  iq_ErrorSummary         :: string
  iq_IsBackfilled         :: bool
  iq_RawJSON              :: RawMessage
  iq_Coverage             :: "IPQualityCoveragePayload option"
  iq_DiagnosticsJSON      :: RawMessage
  iq_ProviderResults      :: "IPQualityProviderResultPayload list"
  iq_ServiceUnlocks       :: "IPQualityServiceUnlockPayload list"
  iq_Product              :: "IPQualityAgentProduct option"

record LiveSignal =
  ls_Sequence    :: int
  ls_Fingerprint :: string

record CommandResult =
  cr_ActionID  :: string
  cr_CommandID :: string
  cr_Stdout    :: string
  cr_Stderr    :: string
  cr_ExitCode  :: int

record SyncRequest =
  sr_ProtocolRevision     :: int
  sr_ProducerID           :: string
  sr_BatchSequence        :: int
  sr_AllocatedThrough     :: int
  sr_RetiredThrough       :: int
  sr_SessionID            :: string
  sr_LiveSignal           :: "LiveSignal option"
  sr_MonitoringInstanceID :: string
  sr_SyncToken            :: string
  sr_Heartbeats           :: "MonitoringInstanceHeartbeat list"
  sr_HostSamples          :: "HostSamplePayload list"
  sr_ProbeObservations    :: "ProbeObservationPayload list"
  sr_IPQualityReports     :: "IPQualityReportPayload list"
  sr_CommandResults       :: "CommandResult list"

section \<open>Stored facts\<close>

record HostSample =
  hs_MonitoringInstanceID :: string
  hs_ObservedAt           :: time
  hs_ReceivedAt           :: time
  hs_AgentVersion         :: string
  hs_Fingerprint          :: string
  hs_CPUUsagePct          :: f64
  hs_CPURatesValid        :: "bool option"
  hs_Load1                :: f64
  hs_Load5                :: f64
  hs_Load15               :: f64
  hs_MemUsedPct           :: f64
  hs_MemAvailableBytes    :: int
  hs_MemTotalBytes        :: int
  hs_SwapUsedPct          :: f64
  hs_DiskUsedPct          :: f64
  hs_DiskTotalBytes       :: int
  hs_InodeUsedPct         :: f64
  hs_NetInBytesPerSec     :: int
  hs_NetOutBytesPerSec    :: int
  hs_NetworkRatesValid    :: "bool option"
  hs_CPUIOWaitPct         :: f64
  hs_CPUStealPct          :: f64
  hs_DiskReadBytesPerSec  :: int
  hs_DiskWriteBytesPerSec :: int
  hs_DiskBusyPct          :: f64
  hs_UptimeSeconds        :: int
  hs_MaintenanceContext   :: bool
  hs_IsBackfilled         :: bool
  hs_SyncBatchID          :: string
  hs_Containers           :: "ContainerInfo list"

record ProbeObservation =
  po_MonitoringInstanceID :: string
  po_TargetID             :: string
  po_ProbeItemID          :: string
  po_ProbeKind            :: string
  po_ObservedAt           :: time
  po_ReceivedAt           :: time
  po_AgentVersion         :: string
  po_Fingerprint          :: string
  po_ResultKind           :: string
  po_LatencyMS            :: "int option"
  po_HTTPStatus           :: "int option"
  po_TLSExpiryDays        :: "int option"
  po_ErrorCode            :: string
  po_ErrorSummary         :: string
  po_MaintenanceContext   :: bool
  po_IsBackfilled         :: bool
  po_SyncBatchID          :: string

section \<open>Sync protocol\<close>

definition SyncProtocolRevision :: int where "SyncProtocolRevision = 2"
definition LiveSequenceReservation :: int where "LiveSequenceReservation = 1024"

text \<open>
  \<open>uuid_Parse\<close> stands for \<open>uuid.Parse\<close> followed by \<open>String\<close> of \<open>github.com/google/uuid\<close>: the
  canonical spelling of the identifier, or \<open>None\<close> when it is not one.  The canonical spelling has
  only hexadecimal digits and hyphens, on which \<open>strings.EqualFold\<close> folds the letters A to F.
\<close>

definition fold_hex :: "char \<Rightarrow> char" where
  "fold_hex c = (let n = of_char c :: nat in
     if 65 \<le> n \<and> n \<le> 70 then char_of (n + 32) else c)"

definition ValidSyncProducerID :: "(string \<Rightarrow> string option) \<Rightarrow> string \<Rightarrow> bool" where
  "ValidSyncProducerID uuid_Parse pid \<longleftrightarrow>
     length pid = 36 \<and>
     (case uuid_Parse pid of
        None \<Rightarrow> False
      | Some parsed \<Rightarrow> map fold_hex parsed = map fold_hex pid)"

section \<open>Laws\<close>

lemma CPURatesUsable_range:
  assumes "CPURatesUsable v u i s"
  shows "v \<noteq> Some False"
    and "\<exists>a. u = Fin a \<and> 0 \<le> a \<and> a \<le> 100"
    and "\<exists>a. i = Fin a \<and> 0 \<le> a \<and> a \<le> 100"
    and "\<exists>a. s = Fin a \<and> 0 \<le> a \<and> a \<le> 100"
proof -
  have fin: "f_le (Fin 0) x \<Longrightarrow> f_le x (Fin 100) \<Longrightarrow> \<exists>a. x = Fin a \<and> 0 \<le> a \<and> a \<le> 100" for x
    by (cases x) auto
  show "v \<noteq> Some False" using assms by (auto simp: CPURatesUsable_def)
  show "\<exists>a. u = Fin a \<and> 0 \<le> a \<and> a \<le> 100" "\<exists>a. i = Fin a \<and> 0 \<le> a \<and> a \<le> 100"
    "\<exists>a. s = Fin a \<and> 0 \<le> a \<and> a \<le> 100"
    using assms by (auto simp: CPURatesUsable_def intro: fin)
qed

end
