(* ===== verification/Incident_Types.thy ===== *)
theory Incident_Types
  imports Agent_Api
begin

text \<open>
  The data of the incident engine (\<open>internal/center/incidents/types.go\<close>): severities, object and
  event types, incident and event records, policies, and the closed contract
  \<open>ValidMonitoringEventMetadata\<close> that every persisted monitoring event has to satisfy.  Go's typed
  strings become datatypes whose last constructor holds any other string; incident classes stay
  strings because the code sorts by them and keys maps with them.
\<close>

section \<open>Enumerations\<close>

datatype Severity =
  SeverityNormal | SeverityNotice | SeverityAlert | SeverityCritical | SeverityOther string

datatype ObjectType =
  ObjectTypeMonitoringInstance | ObjectTypeTarget | ObjectTypeSubscription | ObjectTypeVPS
| ObjectTypeOther string

fun objectType_string :: "ObjectType \<Rightarrow> string" where
  "objectType_string ObjectTypeMonitoringInstance = ''monitoring_instance''"
| "objectType_string ObjectTypeTarget = ''target''"
| "objectType_string ObjectTypeSubscription = ''subscription''"
| "objectType_string ObjectTypeVPS = ''vps''"
| "objectType_string (ObjectTypeOther s) = s"

datatype EventType =
  EventIncidentStarted
| EventIncidentEscalated
| EventIncidentRecovered
| EventIncidentClosedByManagement
| EventMonitoringInstanceBindingRebindConfirmed
| EventMonitoringInstanceBindingPendingRejected
| EventMonitoringInstanceBindingReset
| EventMonitoringInstanceMonitoringMaintenanceEntered
| EventMonitoringInstanceMonitoringMaintenanceExited
| EventMonitoringInstanceMonitoringPaused
| EventMonitoringInstanceMonitoringResumed
| EventMonitoringInstanceLifecycleUpdated
| EventMonitoringInstanceRetired
| EventMonitoringInstanceRetirementReconciled
| EventMonitoringInstanceRestoredToObserving
| EventMonitoringInstanceRestoredFromArchive
| EventTargetMaintenanceEntered
| EventTargetMaintenanceExited
| EventTargetPaused
| EventTargetResumed
| EventTargetArchived
| EventTargetRestoredToPaused
| EventCorrected
| EventOther string

datatype NotificationReason =
  NotificationReasonStarted | NotificationReasonEscalated | NotificationReasonRecovered
| NotificationReasonOther string

datatype NotificationChannel =
  NotificationChannelTelegram | NotificationChannelFeishu | NotificationChannelOther string

datatype DeliveryStatus =
  DeliveryStatusSent | DeliveryStatusSuppressed | DeliveryStatusFailed | DeliveryStatusOther string

datatype EvaluationTransition =
  TransitionNoop | TransitionStarted | TransitionEscalated | TransitionRecovered | TransitionSkipped

type_synonym IncidentClass = string

definition IncidentMonitoringInstanceHeartbeatMissing :: IncidentClass where
  "IncidentMonitoringInstanceHeartbeatMissing = ''monitoring_instance_heartbeat_missing''"
definition IncidentMonitoringInstanceDiskPressure :: IncidentClass where
  "IncidentMonitoringInstanceDiskPressure = ''monitoring_instance_disk_pressure''"
definition IncidentMonitoringInstanceInodePressure :: IncidentClass where
  "IncidentMonitoringInstanceInodePressure = ''monitoring_instance_inode_pressure''"
definition IncidentMonitoringInstanceResourcePressure :: IncidentClass where
  "IncidentMonitoringInstanceResourcePressure = ''monitoring_instance_resource_pressure''"
definition IncidentMonitoringInstanceTrendDegradation :: IncidentClass where
  "IncidentMonitoringInstanceTrendDegradation = ''monitoring_instance_trend_degradation''"
definition IncidentTargetProbeFailure :: IncidentClass where
  "IncidentTargetProbeFailure = ''target_probe_failure''"
definition IncidentTargetTLSExpiry :: IncidentClass where
  "IncidentTargetTLSExpiry = ''target_tls_expiry''"
definition IncidentTargetLatencyTrendDegradation :: IncidentClass where
  "IncidentTargetLatencyTrendDegradation = ''target_latency_trend_degradation''"

lemmas incident_class_defs =
  IncidentMonitoringInstanceHeartbeatMissing_def
  IncidentMonitoringInstanceDiskPressure_def
  IncidentMonitoringInstanceInodePressure_def
  IncidentMonitoringInstanceResourcePressure_def
  IncidentMonitoringInstanceTrendDegradation_def
  IncidentTargetProbeFailure_def
  IncidentTargetTLSExpiry_def
  IncidentTargetLatencyTrendDegradation_def

definition IncidentStatusActive :: string where "IncidentStatusActive = ''active''"

definition MonitoringEventProvenanceAgentSync :: string where
  "MonitoringEventProvenanceAgentSync = ''agent_sync''"
definition MonitoringEventProvenanceCenter :: string where
  "MonitoringEventProvenanceCenter = ''center''"
definition MonitoringEventProvenanceWeb :: string where
  "MonitoringEventProvenanceWeb = ''web''"
definition MonitoringEventProvenanceRetentionBackfill :: string where
  "MonitoringEventProvenanceRetentionBackfill = ''retention_backfill''"
definition MonitoringEventProvenanceManualCorrection :: string where
  "MonitoringEventProvenanceManualCorrection = ''manual_correction''"
definition MonitoringEventProducerVersion :: string where
  "MonitoringEventProducerVersion = ''center-monitoring-events/v1''"
definition MonitoringEventIncidentRuleVersion :: string where
  "MonitoringEventIncidentRuleVersion = ''incident-rules/v1''"
definition MonitoringEventBindingRuleVersion :: string where
  "MonitoringEventBindingRuleVersion = ''monitoring-binding-rules/v1''"
definition MonitoringEventLifecycleRuleVersion :: string where
  "MonitoringEventLifecycleRuleVersion = ''monitoring-lifecycle-rules/v1''"
definition MonitoringEventRuntimeRuleVersion :: string where
  "MonitoringEventRuntimeRuleVersion = ''monitoring-runtime-rules/v1''"
definition MonitoringEventTargetRuleVersion :: string where
  "MonitoringEventTargetRuleVersion = ''target-runtime-rules/v1''"
definition MonitoringEventEvidenceSourceVersion :: string where
  "MonitoringEventEvidenceSourceVersion = ''state-change-events/v2''"

lemmas event_const_defs =
  MonitoringEventProvenanceAgentSync_def
  MonitoringEventProvenanceCenter_def
  MonitoringEventProvenanceWeb_def
  MonitoringEventProvenanceRetentionBackfill_def
  MonitoringEventProvenanceManualCorrection_def
  MonitoringEventProducerVersion_def
  MonitoringEventIncidentRuleVersion_def
  MonitoringEventBindingRuleVersion_def
  MonitoringEventLifecycleRuleVersion_def
  MonitoringEventRuntimeRuleVersion_def
  MonitoringEventTargetRuleVersion_def
  MonitoringEventEvidenceSourceVersion_def

text \<open>State names of \<open>internal/center/monitoringinstances\<close> and \<open>internal/center/targets\<close>.\<close>

definition LifecyclePendingEnrollment :: string where
  "LifecyclePendingEnrollment = utf8 [0x5F85, 0x63A5, 0x5165]"
definition LifecycleInUse :: string where
  "LifecycleInUse = utf8 [0x5DF2, 0x63A5, 0x5165]"
definition LifecycleObserving :: string where
  "LifecycleObserving = utf8 [0x89C2, 0x5BDF, 0x4E2D]"
definition LifecycleNoRenewal :: string where
  "LifecycleNoRenewal = utf8 [0x4E0D, 0x7EED, 0x8D39]"
definition LifecycleRetired :: string where
  "LifecycleRetired = utf8 [0x5DF2, 0x9000, 0x5F79]"
definition MonitoringEnabled :: string where
  "MonitoringEnabled = utf8 [0x542F, 0x7528]"
definition MonitoringMaintenance :: string where
  "MonitoringMaintenance = utf8 [0x7EF4, 0x62A4, 0x4E2D]"
definition MonitoringPaused :: string where
  "MonitoringPaused = utf8 [0x6682, 0x505C]"
definition BindingUnbound :: string where
  "BindingUnbound = utf8 [0x672A, 0x7ED1, 0x5B9A]"
definition BindingBound :: string where
  "BindingBound = utf8 [0x5DF2, 0x7ED1, 0x5B9A]"
definition BindingPendingConfirmation :: string where
  "BindingPendingConfirmation = utf8 [0x6307, 0x7EB9, 0x53D8, 0x66F4, 0x5F85, 0x786E, 0x8BA4]"
definition RunStatusEnabled :: string where
  "RunStatusEnabled = utf8 [0x542F, 0x7528]"
definition RunStatusMaintenance :: string where
  "RunStatusMaintenance = utf8 [0x7EF4, 0x62A4, 0x4E2D]"
definition RunStatusPaused :: string where
  "RunStatusPaused = utf8 [0x6682, 0x505C]"
definition RunStatusArchived :: string where
  "RunStatusArchived = utf8 [0x5DF2, 0x5F52, 0x6863]"
definition TargetLifecycleActive :: string where "TargetLifecycleActive = ''active''"
definition TargetLifecycleRetired :: string where "TargetLifecycleRetired = ''retired''"

lemmas state_name_defs =
  LifecyclePendingEnrollment_def
  LifecycleInUse_def
  LifecycleObserving_def
  LifecycleNoRenewal_def
  LifecycleRetired_def
  MonitoringEnabled_def
  MonitoringMaintenance_def
  MonitoringPaused_def
  BindingUnbound_def
  BindingBound_def
  BindingPendingConfirmation_def
  RunStatusEnabled_def
  RunStatusMaintenance_def
  RunStatusPaused_def
  RunStatusArchived_def
  TargetLifecycleActive_def TargetLifecycleRetired_def

section \<open>Records\<close>

record IncidentRecord =
  inc_IncidentID      :: string
  inc_ObjectType      :: ObjectType
  inc_ObjectID        :: string
  inc_IncidentClass   :: IncidentClass
  inc_Severity        :: Severity
  inc_StartedAt       :: time
  inc_LastEvaluatedAt :: time
  inc_Status          :: string
  inc_SourceSummary   :: string

record StateChangeEventRecord =
  ev_ClosureReason       :: string
  ev_IncidentID          :: string
  ev_IncidentClass       :: IncidentClass
  ev_ObjectType          :: ObjectType
  ev_ObjectID            :: string
  ev_EventType           :: EventType
  ev_Severity            :: Severity
  ev_Summary             :: string
  ev_CreatedAt           :: time
  ev_IsBackfilled        :: bool
  ev_Provenance          :: string
  ev_ProducerVersion     :: string
  ev_RuleVersion         :: string
  ev_PriorState          :: string
  ev_ResultingState      :: string
  ev_CorrectionOfEventID :: string

record NotificationDecision =
  nd_ShouldSend :: bool
  nd_Channel    :: NotificationChannel
  nd_Reason     :: NotificationReason
  nd_Severity   :: Severity
  nd_Summary    :: string

record NotificationRecordWrite =
  nr_IncidentID     :: string
  nr_ObjectType     :: ObjectType
  nr_ObjectID       :: string
  nr_Channel        :: NotificationChannel
  nr_DeliveryStatus :: DeliveryStatus
  nr_Summary        :: string
  nr_SentAt         :: "time option"

record IncidentMutation =
  mu_ObjectType               :: ObjectType
  mu_ObjectID                 :: string
  mu_ExpectedObjectRowVersion :: string
  mu_Active                   :: "IncidentRecord list"
  mu_Events                   :: "StateChangeEventRecord list"

record MonitoringInstanceResourceSample =
  rs_ObservedAt         :: time
  rs_ReceivedAt         :: time
  rs_CPUUsagePct        :: f64
  rs_CPURatesValid      :: "bool option"
  rs_NormalizedLoad5    :: f64
  rs_MemUsedPct         :: f64
  rs_MemAvailableBytes  :: int
  rs_SwapUsedPct        :: f64
  rs_CPUIOWaitPct       :: f64
  rs_CPUStealPct        :: f64
  rs_MaintenanceContext :: bool
  rs_IsBackfilled       :: bool

record HeartbeatIncidentPolicy =
  hbp_HeartbeatInterval      :: duration
  hbp_MissingThreshold       :: int
  hbp_RecoverySuccesses      :: int
  hbp_RecoveryMaxIntervalGap :: duration

record ResourcePressurePolicy =
  rpp_EvaluatedAt    :: time
  rpp_SampleInterval :: duration

record LiveHeartbeatReceipt =
  lr_SyncBatchID :: string
  lr_ReceivedAt  :: time

record EvaluationResult =
  er_Current      :: "IncidentRecord option"
  er_Transition   :: EvaluationTransition
  er_Event        :: "StateChangeEventRecord option"
  er_Notification :: "NotificationDecision option"

record MonitoringInstanceHostDailyAggregate =
  ha_BucketDate                     :: time
  ha_SampleCount                    :: int
  ha_AvgLoad5                       :: f64
  ha_AvgCPUIOWaitPct                :: "f64 option"
  ha_AvgCPUStealPct                 :: "f64 option"
  ha_BackfilledSampleCount          :: int
  ha_MaintenanceSampleCount         :: int
  ha_CPUValidSampleCount            :: "int option"
  ha_CPUValidBackfilledSampleCount  :: "int option"
  ha_CPUValidMaintenanceSampleCount :: "int option"

record TargetProbeDailyAggregate =
  pa_TargetID                    :: string
  pa_ProbeItemID                 :: string
  pa_BucketDate                  :: time
  pa_ObservationCount            :: int
  pa_SuccessCount                :: int
  pa_AvgLatencyMS                :: "f64 option"
  pa_P95LatencyMS                :: "f64 option"
  pa_BackfilledObservationCount  :: int
  pa_MaintenanceObservationCount :: int

record MetricThresholds =
  mt_CPUWarningPct     :: int
  mt_CPUAlertPct       :: int
  mt_CPUCriticalPct    :: int
  mt_MemWarningPct     :: int
  mt_MemAlertPct       :: int
  mt_MemCriticalPct    :: int
  mt_DiskWarningPct    :: int
  mt_DiskAlertPct      :: int
  mt_DiskCriticalPct   :: int
  mt_InodeWarningPct   :: int
  mt_InodeAlertPct     :: int
  mt_InodeCriticalPct  :: int
  mt_IOWaitWarningPct  :: int
  mt_IOWaitAlertPct    :: int
  mt_IOWaitCriticalPct :: int
  mt_Load5Warning      :: f64
  mt_Load5Alert        :: f64
  mt_Load5Critical     :: f64

definition DefaultMetricThresholds :: MetricThresholds where
  "DefaultMetricThresholds = \<lparr>
     mt_CPUWarningPct = 80,
     mt_CPUAlertPct = 90,
     mt_CPUCriticalPct = 95,
     mt_MemWarningPct = 85,
     mt_MemAlertPct = 92,
     mt_MemCriticalPct = 95,
     mt_DiskWarningPct = 85,
     mt_DiskAlertPct = 92,
     mt_DiskCriticalPct = 97,
     mt_InodeWarningPct = 80,
     mt_InodeAlertPct = 90,
     mt_InodeCriticalPct = 95,
     mt_IOWaitWarningPct = 20,
     mt_IOWaitAlertPct = 35,
     mt_IOWaitCriticalPct = 50,
     mt_Load5Warning = Fin 4,
     mt_Load5Alert = Fin 6,
     mt_Load5Critical = Fin 8 \<rparr>"

section \<open>Metadata contract of monitoring events\<close>

fun monitoringEventIncidentState :: "Severity \<Rightarrow> string" where
  "monitoringEventIncidentState SeverityNormal = ''normal''"
| "monitoringEventIncidentState SeverityNotice = ''notice''"
| "monitoringEventIncidentState SeverityAlert = ''alert''"
| "monitoringEventIncidentState SeverityCritical = ''critical''"
| "monitoringEventIncidentState (SeverityOther _) = ''''"

fun severityRank :: "Severity \<Rightarrow> int" where
  "severityRank SeverityNotice = 1"
| "severityRank SeverityAlert = 2"
| "severityRank SeverityCritical = 3"
| "severityRank _ = 0"

definition monitoringEventIncidentStateRank :: "string \<Rightarrow> int" where
  "monitoringEventIncidentStateRank state =
     (if state = ''normal'' then 1
      else if state = ''notice'' then 2
      else if state = ''alert'' then 3
      else if state = ''critical'' then 4
      else 0)"

definition validMonitoringEventLifecycleStateDomain :: "string \<Rightarrow> string \<Rightarrow> bool" where
  "validMonitoringEventLifecycleStateDomain priorState resultingState =
     (let priorIsArchiveMarker = priorState = ''unarchived'' \<or> priorState = ''archived'';
          resultIsArchiveMarker = resultingState = ''unarchived'' \<or> resultingState = ''archived''
      in if \<not> priorIsArchiveMarker \<and> \<not> resultIsArchiveMarker then True
         else priorState = ''unarchived'' \<and> resultingState = ''archived'')"

text \<open>
  The switch on the rule version: \<open>None\<close> where the code returns false at once, otherwise whether
  the event type belongs to the rule, and the rule's states.
\<close>

definition eventRuleDomain :: "ObjectType \<Rightarrow> EventType \<Rightarrow> string \<Rightarrow> (bool \<times> string list) option" where
  "eventRuleDomain objectType eventType ruleVersion =
     (if ruleVersion = MonitoringEventIncidentRuleVersion then
        if objectType \<noteq> ObjectTypeMonitoringInstance \<and> objectType \<noteq> ObjectTypeTarget then None
        else Some
          (eventType \<in> {EventIncidentStarted, EventIncidentEscalated, EventIncidentRecovered,
             EventIncidentClosedByManagement, EventCorrected},
           [''normal'', ''notice'', ''alert'', ''critical'', ''closed_by_management''])
      else if ruleVersion = MonitoringEventBindingRuleVersion then
        if objectType \<noteq> ObjectTypeMonitoringInstance then None
        else Some
          (eventType \<in> {EventMonitoringInstanceBindingRebindConfirmed,
             EventMonitoringInstanceBindingPendingRejected, EventMonitoringInstanceBindingReset,
             EventCorrected},
           [BindingUnbound, BindingBound, BindingPendingConfirmation])
      else if ruleVersion = MonitoringEventLifecycleRuleVersion then
        if objectType \<noteq> ObjectTypeMonitoringInstance then None
        else Some
          (eventType \<in> {EventMonitoringInstanceLifecycleUpdated, EventMonitoringInstanceRetired,
             EventMonitoringInstanceRetirementReconciled, EventMonitoringInstanceRestoredToObserving,
             EventMonitoringInstanceRestoredFromArchive, EventCorrected},
           [LifecyclePendingEnrollment, LifecycleInUse, LifecycleObserving, LifecycleNoRenewal,
            LifecycleRetired, ''unarchived'', ''archived''])
      else if ruleVersion = MonitoringEventRuntimeRuleVersion then
        if objectType \<noteq> ObjectTypeMonitoringInstance then None
        else Some
          (eventType \<in> {EventMonitoringInstanceMonitoringMaintenanceEntered,
             EventMonitoringInstanceMonitoringMaintenanceExited,
             EventMonitoringInstanceMonitoringPaused, EventMonitoringInstanceMonitoringResumed,
             EventCorrected},
           [MonitoringEnabled, MonitoringMaintenance, MonitoringPaused])
      else if ruleVersion = MonitoringEventTargetRuleVersion then
        if objectType \<noteq> ObjectTypeTarget then None
        else Some
          (eventType \<in> {EventTargetMaintenanceEntered, EventTargetMaintenanceExited,
             EventTargetPaused, EventTargetResumed, EventTargetArchived,
             EventTargetRestoredToPaused, EventCorrected},
           [RunStatusEnabled, RunStatusMaintenance, RunStatusPaused, RunStatusArchived,
            TargetLifecycleActive, TargetLifecycleRetired])
      else None)"

text \<open>The second switch: which state changes each event type may record.\<close>

definition eventTransitionAllowed ::
    "string \<Rightarrow> EventType \<Rightarrow> Severity \<Rightarrow> string \<Rightarrow> string \<Rightarrow> bool" where
  "eventTransitionAllowed ruleVersion eventType severity priorState resultingState =
     (if ruleVersion = MonitoringEventIncidentRuleVersion then
        (case eventType of
           EventIncidentStarted \<Rightarrow>
             priorState = ''normal'' \<and> resultingState \<noteq> ''normal'' \<and>
             monitoringEventIncidentState severity = resultingState
         | EventIncidentEscalated \<Rightarrow>
             monitoringEventIncidentStateRank resultingState > monitoringEventIncidentStateRank priorState \<and>
             monitoringEventIncidentState severity = resultingState
         | EventIncidentClosedByManagement \<Rightarrow>
             priorState \<noteq> ''normal'' \<and> priorState \<noteq> ''closed_by_management'' \<and>
             resultingState = ''closed_by_management'' \<and>
             monitoringEventIncidentState severity = priorState
         | EventIncidentRecovered \<Rightarrow>
             priorState \<noteq> ''normal'' \<and> resultingState = ''normal'' \<and>
             monitoringEventIncidentState severity = priorState
         | _ \<Rightarrow> False)
      else if severity \<noteq> SeverityOther '''' then False
      else if ruleVersion = MonitoringEventBindingRuleVersion then
        (case eventType of
           EventMonitoringInstanceBindingRebindConfirmed \<Rightarrow>
             priorState = BindingPendingConfirmation \<and> resultingState = BindingBound
         | EventMonitoringInstanceBindingPendingRejected \<Rightarrow>
             priorState = BindingPendingConfirmation \<and> resultingState = BindingBound
         | EventMonitoringInstanceBindingReset \<Rightarrow> resultingState = BindingUnbound
         | _ \<Rightarrow> False)
      else if ruleVersion = MonitoringEventLifecycleRuleVersion then
        (case eventType of
           EventMonitoringInstanceLifecycleUpdated \<Rightarrow> priorState \<noteq> resultingState
         | EventMonitoringInstanceRetirementReconciled \<Rightarrow>
             priorState = LifecycleRetired \<and> resultingState = LifecycleRetired
         | EventMonitoringInstanceRetired \<Rightarrow> resultingState = LifecycleRetired
         | EventMonitoringInstanceRestoredToObserving \<Rightarrow>
             priorState = LifecycleRetired \<and> resultingState = LifecycleObserving
         | EventMonitoringInstanceRestoredFromArchive \<Rightarrow>
             priorState = ''archived'' \<and> resultingState = ''unarchived''
         | _ \<Rightarrow> False)
      else if ruleVersion = MonitoringEventRuntimeRuleVersion then
        (case eventType of
           EventMonitoringInstanceMonitoringMaintenanceEntered \<Rightarrow>
             priorState = MonitoringEnabled \<and> resultingState = MonitoringMaintenance
         | EventMonitoringInstanceMonitoringMaintenanceExited \<Rightarrow>
             priorState = MonitoringMaintenance \<and> resultingState = MonitoringEnabled
         | EventMonitoringInstanceMonitoringPaused \<Rightarrow>
             (priorState = MonitoringEnabled \<or> priorState = MonitoringMaintenance) \<and>
             resultingState = MonitoringPaused
         | EventMonitoringInstanceMonitoringResumed \<Rightarrow>
             priorState = MonitoringPaused \<and> resultingState = MonitoringEnabled
         | _ \<Rightarrow> False)
      else if ruleVersion = MonitoringEventTargetRuleVersion then
        (case eventType of
           EventTargetMaintenanceEntered \<Rightarrow>
             priorState = RunStatusEnabled \<and> resultingState = RunStatusMaintenance
         | EventTargetMaintenanceExited \<Rightarrow>
             priorState = RunStatusMaintenance \<and> resultingState = RunStatusEnabled
         | EventTargetPaused \<Rightarrow>
             (priorState = RunStatusEnabled \<or> priorState = RunStatusMaintenance) \<and>
             resultingState = RunStatusPaused
         | EventTargetResumed \<Rightarrow>
             priorState = RunStatusPaused \<and> resultingState = RunStatusEnabled
         | EventTargetArchived \<Rightarrow>
             priorState = TargetLifecycleActive \<and> resultingState = TargetLifecycleRetired
         | EventTargetRestoredToPaused \<Rightarrow>
             priorState = TargetLifecycleRetired \<and> resultingState = TargetLifecycleActive
         | _ \<Rightarrow> False)
      else False)"

definition ValidMonitoringEventMetadata ::
    "ObjectType \<Rightarrow> EventType \<Rightarrow> Severity \<Rightarrow> bool \<Rightarrow> string \<Rightarrow> string \<Rightarrow> string \<Rightarrow> string \<Rightarrow> string \<Rightarrow> string \<Rightarrow> bool" where
  "ValidMonitoringEventMetadata objectType eventType severity isBackfilled provenance
      producerVersion ruleVersion priorState resultingState correctionOfEventID =
     (if provenance \<notin> {MonitoringEventProvenanceAgentSync, MonitoringEventProvenanceCenter,
           MonitoringEventProvenanceWeb, MonitoringEventProvenanceRetentionBackfill,
           MonitoringEventProvenanceManualCorrection} then False
      else if producerVersion \<noteq> MonitoringEventProducerVersion \<or>
           (provenance = MonitoringEventProvenanceRetentionBackfill \<and> \<not> isBackfilled) then False
      else if eventType = EventCorrected \<and>
           (provenance \<noteq> MonitoringEventProvenanceManualCorrection \<or> correctionOfEventID = '''') then False
      else if eventType \<noteq> EventCorrected \<and>
           (provenance = MonitoringEventProvenanceManualCorrection \<or> correctionOfEventID \<noteq> '''') then False
      else (case eventRuleDomain objectType eventType ruleVersion of
          None \<Rightarrow> False
        | Some (validEventType, states) \<Rightarrow>
            if \<not> validEventType then False
            else if priorState \<notin> set states \<or> resultingState \<notin> set states then False
            else if ruleVersion = MonitoringEventLifecycleRuleVersion \<and>
                 eventType \<noteq> EventMonitoringInstanceRetirementReconciled \<and>
                 eventType \<noteq> EventMonitoringInstanceRestoredFromArchive \<and>
                 \<not> validMonitoringEventLifecycleStateDomain priorState resultingState then False
            else if eventType = EventCorrected then
              if ruleVersion = MonitoringEventIncidentRuleVersion
              then monitoringEventIncidentState severity = resultingState
              else severity = SeverityOther ''''
            else eventTransitionAllowed ruleVersion eventType severity priorState resultingState))"

text \<open>The contract applied to a record, as the event writer applies it.\<close>

definition event_metadata_ok :: "StateChangeEventRecord \<Rightarrow> bool" where
  "event_metadata_ok e = ValidMonitoringEventMetadata (ev_ObjectType e) (ev_EventType e)
     (ev_Severity e) (ev_IsBackfilled e) (ev_Provenance e) (ev_ProducerVersion e)
     (ev_RuleVersion e) (ev_PriorState e) (ev_ResultingState e) (ev_CorrectionOfEventID e)"

section \<open>Laws\<close>

abbreviation active_severity :: "Severity \<Rightarrow> bool" where
  "active_severity s \<equiv> s \<in> {SeverityNotice, SeverityAlert, SeverityCritical}"

lemma active_severity_rank: "active_severity s \<longleftrightarrow> 0 < severityRank s"
  by (cases s) auto

lemma incidentState_rank:
  "active_severity s \<Longrightarrow> monitoringEventIncidentStateRank (monitoringEventIncidentState s) = severityRank s + 1"
  by (auto simp: monitoringEventIncidentStateRank_def)

lemma incidentState_simps [simp]:
  "monitoringEventIncidentState s = ''normal'' \<longleftrightarrow> s = SeverityNormal"
  "monitoringEventIncidentState s = ''notice'' \<longleftrightarrow> s = SeverityNotice"
  "monitoringEventIncidentState s = ''alert'' \<longleftrightarrow> s = SeverityAlert"
  "monitoringEventIncidentState s = ''critical'' \<longleftrightarrow> s = SeverityCritical"
  "monitoringEventIncidentState s \<noteq> ''closed_by_management''"
  by (cases s; simp)+

lemma incidentState_inj:
  "monitoringEventIncidentState s = monitoringEventIncidentState t \<Longrightarrow> t \<noteq> SeverityOther u \<Longrightarrow>
   active_severity s \<Longrightarrow> s = t"
  by (cases t) auto

lemma provenance_distinct [simp]:
  "MonitoringEventProvenanceAgentSync \<noteq> MonitoringEventProvenanceManualCorrection"
  "MonitoringEventProvenanceCenter \<noteq> MonitoringEventProvenanceManualCorrection"
  "MonitoringEventProvenanceAgentSync \<noteq> MonitoringEventProvenanceRetentionBackfill"
  "MonitoringEventProvenanceCenter \<noteq> MonitoringEventProvenanceRetentionBackfill"
  by (simp_all add: event_const_defs)

lemma rule_version_distinct [simp]:
  "MonitoringEventIncidentRuleVersion \<noteq> MonitoringEventBindingRuleVersion"
  "MonitoringEventIncidentRuleVersion \<noteq> MonitoringEventLifecycleRuleVersion"
  "MonitoringEventIncidentRuleVersion \<noteq> MonitoringEventRuntimeRuleVersion"
  "MonitoringEventIncidentRuleVersion \<noteq> MonitoringEventTargetRuleVersion"
  "MonitoringEventBindingRuleVersion \<noteq> MonitoringEventIncidentRuleVersion"
  "MonitoringEventBindingRuleVersion \<noteq> MonitoringEventLifecycleRuleVersion"
  "MonitoringEventBindingRuleVersion \<noteq> MonitoringEventRuntimeRuleVersion"
  "MonitoringEventBindingRuleVersion \<noteq> MonitoringEventTargetRuleVersion"
  "MonitoringEventLifecycleRuleVersion \<noteq> MonitoringEventIncidentRuleVersion"
  "MonitoringEventLifecycleRuleVersion \<noteq> MonitoringEventBindingRuleVersion"
  "MonitoringEventLifecycleRuleVersion \<noteq> MonitoringEventRuntimeRuleVersion"
  "MonitoringEventLifecycleRuleVersion \<noteq> MonitoringEventTargetRuleVersion"
  "MonitoringEventRuntimeRuleVersion \<noteq> MonitoringEventIncidentRuleVersion"
  "MonitoringEventRuntimeRuleVersion \<noteq> MonitoringEventBindingRuleVersion"
  "MonitoringEventRuntimeRuleVersion \<noteq> MonitoringEventLifecycleRuleVersion"
  "MonitoringEventRuntimeRuleVersion \<noteq> MonitoringEventTargetRuleVersion"
  "MonitoringEventTargetRuleVersion \<noteq> MonitoringEventIncidentRuleVersion"
  "MonitoringEventTargetRuleVersion \<noteq> MonitoringEventBindingRuleVersion"
  "MonitoringEventTargetRuleVersion \<noteq> MonitoringEventLifecycleRuleVersion"
  "MonitoringEventTargetRuleVersion \<noteq> MonitoringEventRuntimeRuleVersion"
  by (simp_all add: event_const_defs)

text \<open>The incident rule alone.\<close>

lemma eventRuleDomain_incident:
  "eventRuleDomain ot et MonitoringEventIncidentRuleVersion =
     (if ot \<noteq> ObjectTypeMonitoringInstance \<and> ot \<noteq> ObjectTypeTarget then None
      else Some
        (et \<in> {EventIncidentStarted, EventIncidentEscalated, EventIncidentRecovered,
           EventIncidentClosedByManagement, EventCorrected},
         [''normal'', ''notice'', ''alert'', ''critical'', ''closed_by_management'']))"
  unfolding eventRuleDomain_def by (rule if_P) (rule refl)

lemma incidentState_in_domain:
  "active_severity s \<Longrightarrow> monitoringEventIncidentState s \<in>
     set [''normal'', ''notice'', ''alert'', ''critical'', ''closed_by_management'']"
  by auto

text \<open>
  What the incident rules have to supply for the events they emit: a rule the evaluators and the
  administrative close are checked against.
\<close>

definition incident_event_frame :: "StateChangeEventRecord \<Rightarrow> bool" where
  "incident_event_frame e \<longleftrightarrow>
     ev_ObjectType e \<in> {ObjectTypeMonitoringInstance, ObjectTypeTarget} \<and>
     ev_Provenance e \<in> {MonitoringEventProvenanceAgentSync, MonitoringEventProvenanceCenter} \<and>
     ev_ProducerVersion e = MonitoringEventProducerVersion \<and>
     ev_RuleVersion e = MonitoringEventIncidentRuleVersion \<and>
     ev_CorrectionOfEventID e = [] \<and>
     active_severity (ev_Severity e)"

lemma metadata_core:
  assumes "prov \<in> {MonitoringEventProvenanceAgentSync, MonitoringEventProvenanceCenter}"
    and "et \<noteq> EventCorrected"
    and "eventRuleDomain ot et MonitoringEventIncidentRuleVersion = Some (True, st)"
    and "p \<in> set st" and "r \<in> set st"
    and "eventTransitionAllowed MonitoringEventIncidentRuleVersion et sev p r"
  shows "ValidMonitoringEventMetadata ot et sev bf prov MonitoringEventProducerVersion
    MonitoringEventIncidentRuleVersion p r []"
  using assms by (auto simp: ValidMonitoringEventMetadata_def)

lemma incident_event_ok:
  assumes "incident_event_frame e"
    and "ev_EventType e \<in> {EventIncidentStarted, EventIncidentEscalated, EventIncidentRecovered,
           EventIncidentClosedByManagement}"
    and "ev_PriorState e \<in> set [''normal'', ''notice'', ''alert'', ''critical'', ''closed_by_management'']"
    and "ev_ResultingState e \<in> set [''normal'', ''notice'', ''alert'', ''critical'', ''closed_by_management'']"
    and "eventTransitionAllowed MonitoringEventIncidentRuleVersion (ev_EventType e)
           (ev_Severity e) (ev_PriorState e) (ev_ResultingState e)"
  shows "event_metadata_ok e"
proof -
  have ne: "ev_EventType e \<noteq> EventCorrected" using assms(2) by auto
  have dom: "eventRuleDomain (ev_ObjectType e) (ev_EventType e) MonitoringEventIncidentRuleVersion =
      Some (True, [''normal'', ''notice'', ''alert'', ''critical'', ''closed_by_management''])"
    using assms(1,2) unfolding incident_event_frame_def eventRuleDomain_incident by auto
  have prov: "ev_Provenance e \<in> {MonitoringEventProvenanceAgentSync, MonitoringEventProvenanceCenter}"
    and "ev_ProducerVersion e = MonitoringEventProducerVersion"
    and "ev_RuleVersion e = MonitoringEventIncidentRuleVersion"
    and "ev_CorrectionOfEventID e = []"
    using assms(1) by (simp_all add: incident_event_frame_def)
  thus ?thesis
    using metadata_core [OF prov ne dom assms(3,4,5)] by (simp only: event_metadata_ok_def)
qed

lemma started_event_ok:
  assumes "incident_event_frame e" and "ev_EventType e = EventIncidentStarted"
    and "ev_PriorState e = ''normal''"
    and "ev_ResultingState e = monitoringEventIncidentState (ev_Severity e)"
  shows "event_metadata_ok e"
  using assms
  by (intro incident_event_ok) (auto simp: incident_event_frame_def eventTransitionAllowed_def)

lemma escalated_event_ok:
  assumes "incident_event_frame e" and "ev_EventType e = EventIncidentEscalated"
    and "active_severity old" and "severityRank old < severityRank (ev_Severity e)"
    and "ev_PriorState e = monitoringEventIncidentState old"
    and "ev_ResultingState e = monitoringEventIncidentState (ev_Severity e)"
  shows "event_metadata_ok e"
proof (rule incident_event_ok [OF assms(1)])
  have act: "active_severity (ev_Severity e)" using assms(1) by (simp add: incident_event_frame_def)
  show "eventTransitionAllowed MonitoringEventIncidentRuleVersion (ev_EventType e)
      (ev_Severity e) (ev_PriorState e) (ev_ResultingState e)"
    using assms(2,4-6) incidentState_rank [OF act] incidentState_rank [OF assms(3)]
    by (simp add: eventTransitionAllowed_def)
qed (use assms incidentState_in_domain in \<open>auto simp: incident_event_frame_def\<close>)

lemma recovered_event_ok:
  assumes "incident_event_frame e" and "ev_EventType e = EventIncidentRecovered"
    and "ev_PriorState e = monitoringEventIncidentState (ev_Severity e)"
    and "ev_ResultingState e = ''normal''"
  shows "event_metadata_ok e"
  using assms
  by (intro incident_event_ok) (auto simp: incident_event_frame_def eventTransitionAllowed_def)

lemma closed_event_ok:
  assumes "incident_event_frame e" and "ev_EventType e = EventIncidentClosedByManagement"
    and "ev_PriorState e = monitoringEventIncidentState (ev_Severity e)"
    and "ev_ResultingState e = ''closed_by_management''"
  shows "event_metadata_ok e"
  using assms
  by (intro incident_event_ok) (auto simp: incident_event_frame_def eventTransitionAllowed_def)

end
