(* ===== verification/Incident_Transitions.thy ===== *)
theory Incident_Transitions
  imports Incident_Types
begin

text \<open>
  The point evaluators of \<open>internal/center/incidents/evaluator.go\<close>: the transition core
  (\<open>evaluateTransition\<close>, \<open>recoverIfNeeded\<close>, \<open>noop\<close>, \<open>skip\<close>), the heartbeat, disk and inode
  evaluators of a monitoring instance, and the probe failure and TLS expiry evaluators of a target.
  Every evaluator is a function from the previous incident, if any, to an evaluation result.
  The locale \<open>incident_evaluator\<close> states the contract they share.
\<close>

section \<open>The transition core\<close>

definition cloneIncident :: "IncidentRecord option \<Rightarrow> IncidentRecord option" where
  "cloneIncident record = (case record of None \<Rightarrow> None | Some r \<Rightarrow> Some r)"

definition noop :: "IncidentRecord option \<Rightarrow> EvaluationResult" where
  "noop previous = \<lparr> er_Current = cloneIncident previous, er_Transition = TransitionNoop,
     er_Event = None, er_Notification = None \<rparr>"

definition skip :: "IncidentRecord option \<Rightarrow> EvaluationResult" where
  "skip _ = \<lparr> er_Current = None, er_Transition = TransitionSkipped,
     er_Event = None, er_Notification = None \<rparr>"

definition suppressNotification :: "EvaluationResult \<Rightarrow> EvaluationResult" where
  "suppressNotification result =
     (case er_Notification result of
        None \<Rightarrow> result
      | Some n \<Rightarrow> result\<lparr> er_Notification := Some
          \<lparr> nd_ShouldSend = False, nd_Channel = nd_Channel n, nd_Reason = nd_Reason n,
            nd_Severity = nd_Severity n, nd_Summary = nd_Summary n \<rparr> \<rparr>)"

definition canonicalMonitoringEventTime :: "time \<Rightarrow> time" where
  "canonicalMonitoringEventTime value = time_Truncate value microsecond"

definition incidentID :: "ObjectType \<Rightarrow> string \<Rightarrow> IncidentClass \<Rightarrow> string" where
  "incidentID objectType objectID cls =
     ''inc_'' @ objectType_string objectType @ ''_'' @ objectID @ ''_'' @ cls"

definition newIncidentStateChangeEvent ::
    "IncidentRecord \<Rightarrow> EventType \<Rightarrow> Severity \<Rightarrow> string \<Rightarrow> time \<Rightarrow> string \<Rightarrow> string \<Rightarrow> string \<Rightarrow> StateChangeEventRecord" where
  "newIncidentStateChangeEvent incident eventType severity summary when provenance priorState resultingState =
     \<lparr> ev_ClosureReason = [],
       ev_IncidentID = inc_IncidentID incident,
       ev_IncidentClass = inc_IncidentClass incident,
       ev_ObjectType = inc_ObjectType incident,
       ev_ObjectID = inc_ObjectID incident,
       ev_EventType = eventType,
       ev_Severity = severity,
       ev_Summary = summary,
       ev_CreatedAt = canonicalMonitoringEventTime when,
       ev_IsBackfilled = False,
       ev_Provenance = provenance,
       ev_ProducerVersion = MonitoringEventProducerVersion,
       ev_RuleVersion = MonitoringEventIncidentRuleVersion,
       ev_PriorState = priorState,
       ev_ResultingState = resultingState,
       ev_CorrectionOfEventID = [] \<rparr>"

definition recoverIfNeeded ::
    "IncidentRecord option \<Rightarrow> time \<Rightarrow> string \<Rightarrow> string \<Rightarrow> bool \<Rightarrow> EvaluationResult" where
  "recoverIfNeeded previous when summary provenance isBackfilled =
     (case previous of
        None \<Rightarrow> \<lparr> er_Current = None, er_Transition = TransitionNoop,
                  er_Event = None, er_Notification = None \<rparr>
      | Some prev \<Rightarrow>
          let when = (if IsZero when then inc_LastEvaluatedAt prev else when) in
          \<lparr> er_Current = None,
            er_Transition = TransitionRecovered,
            er_Event = Some
              \<lparr> ev_ClosureReason = [],
                ev_IncidentID = inc_IncidentID prev,
                ev_IncidentClass = inc_IncidentClass prev,
                ev_ObjectType = inc_ObjectType prev,
                ev_ObjectID = inc_ObjectID prev,
                ev_EventType = EventIncidentRecovered,
                ev_Severity = inc_Severity prev,
                ev_Summary = summary,
                ev_CreatedAt = canonicalMonitoringEventTime when,
                ev_IsBackfilled = isBackfilled,
                ev_Provenance = provenance,
                ev_ProducerVersion = MonitoringEventProducerVersion,
                ev_RuleVersion = MonitoringEventIncidentRuleVersion,
                ev_PriorState = monitoringEventIncidentState (inc_Severity prev),
                ev_ResultingState = ''normal'',
                ev_CorrectionOfEventID = [] \<rparr>,
            er_Notification = Some
              \<lparr> nd_ShouldSend = True,
                nd_Channel = NotificationChannelTelegram,
                nd_Reason = NotificationReasonRecovered,
                nd_Severity = inc_Severity prev,
                nd_Summary = summary \<rparr> \<rparr>)"

definition evaluateTransition ::
    "IncidentRecord option \<Rightarrow> ObjectType \<Rightarrow> string \<Rightarrow> IncidentClass \<Rightarrow> Severity \<Rightarrow> time \<Rightarrow> string \<Rightarrow> string \<Rightarrow> EvaluationResult" where
  "evaluateTransition previous objectType objectID cls severity when summary provenance =
     (let current =
        \<lparr> inc_IncidentID = incidentID objectType objectID cls,
          inc_ObjectType = objectType,
          inc_ObjectID = objectID,
          inc_IncidentClass = cls,
          inc_Severity = severity,
          inc_StartedAt = when,
          inc_LastEvaluatedAt = when,
          inc_Status = IncidentStatusActive,
          inc_SourceSummary = summary \<rparr>
      in case previous of
        None \<Rightarrow>
          \<lparr> er_Current = Some current,
            er_Transition = TransitionStarted,
            er_Event = Some (newIncidentStateChangeEvent current EventIncidentStarted severity
              summary when provenance ''normal'' (monitoringEventIncidentState severity)),
            er_Notification = Some
              \<lparr> nd_ShouldSend = True, nd_Channel = NotificationChannelTelegram,
                nd_Reason = NotificationReasonStarted, nd_Severity = severity, nd_Summary = summary \<rparr> \<rparr>
      | Some prev \<Rightarrow>
          let current = current\<lparr> inc_StartedAt := inc_StartedAt prev \<rparr> in
          if severityRank severity > severityRank (inc_Severity prev) then
            \<lparr> er_Current = Some current,
              er_Transition = TransitionEscalated,
              er_Event = Some (newIncidentStateChangeEvent current EventIncidentEscalated severity
                summary when provenance (monitoringEventIncidentState (inc_Severity prev))
                (monitoringEventIncidentState severity)),
              er_Notification = Some
                \<lparr> nd_ShouldSend = True, nd_Channel = NotificationChannelTelegram,
                  nd_Reason = NotificationReasonEscalated, nd_Severity = severity, nd_Summary = summary \<rparr> \<rparr>
          else
            \<lparr> er_Current = Some current, er_Transition = TransitionNoop,
              er_Event = None, er_Notification = None \<rparr>)"

section \<open>Heartbeat\<close>

definition maxHeartbeatIncidentInterval :: duration where
  "maxHeartbeatIncidentInterval = quot maxInt64 2"

definition heartbeatRecoverySuccesses :: int where
  "heartbeatRecoverySuccesses = 3"

definition heartbeatMissedIntervals :: "time \<Rightarrow> time \<Rightarrow> duration \<Rightarrow> int" where
  "heartbeatMissedIntervals now lastHeartbeatAt heartbeatInterval =
     (if heartbeatInterval \<le> 0 \<or> \<not> time_After now lastHeartbeatAt then 0
      else
        let missed = quot (time_Sub now lastHeartbeatAt) heartbeatInterval in
        if missed \<le> 0 then 0
        else if missed > maxInt64 then maxInt64
        else missed)"

definition validHeartbeatIncidentPolicy :: "HeartbeatIncidentPolicy \<Rightarrow> bool" where
  "validHeartbeatIncidentPolicy policy \<longleftrightarrow>
     hbp_HeartbeatInterval policy > 0 \<and>
     hbp_HeartbeatInterval policy \<le> maxHeartbeatIncidentInterval \<and>
     hbp_MissingThreshold policy > 0 \<and>
     hbp_MissingThreshold policy \<le> quot maxInt64 4 \<and>
     hbp_RecoverySuccesses policy = heartbeatRecoverySuccesses \<and>
     hbp_RecoveryMaxIntervalGap policy = wrap64 (2 * hbp_HeartbeatInterval policy)"

text \<open>The latest receipt per trimmed batch id, among the receipts after \<open>startedAt\<close>.\<close>

fun latestByBatch :: "time \<Rightarrow> LiveHeartbeatReceipt list \<Rightarrow> (string, time) gomap \<Rightarrow> (string, time) gomap" where
  "latestByBatch startedAt [] m = m"
| "latestByBatch startedAt (receipt # rest) m =
     (let batchID = TrimSpace (lr_SyncBatchID receipt) in
      if batchID = [] \<or> \<not> time_After (lr_ReceivedAt receipt) startedAt then latestByBatch startedAt rest m
      else
        (case map_of m batchID of
           None \<Rightarrow> latestByBatch startedAt rest (AList.update batchID (lr_ReceivedAt receipt) m)
         | Some current \<Rightarrow>
             if time_After (lr_ReceivedAt receipt) current
             then latestByBatch startedAt rest (AList.update batchID (lr_ReceivedAt receipt) m)
             else latestByBatch startedAt rest m))"

fun gaps_within :: "duration \<Rightarrow> time list \<Rightarrow> bool" where
  "gaps_within limit (a # b # rest) = (time_Sub b a \<le> limit \<and> gaps_within limit (b # rest))"
| "gaps_within limit _ = True"

definition hasStableHeartbeatRecoveryEvidence ::
    "IncidentRecord option \<Rightarrow> HeartbeatIncidentPolicy \<Rightarrow> LiveHeartbeatReceipt list \<Rightarrow> bool" where
  "hasStableHeartbeatRecoveryEvidence previous policy receipts =
     (case previous of
        None \<Rightarrow> False
      | Some prev \<Rightarrow>
          if IsZero (inc_StartedAt prev) \<or> int (length receipts) < hbp_RecoverySuccesses policy then False
          else
            let latest = latestByBatch (inc_StartedAt prev) receipts [] in
            if int (length latest) < hbp_RecoverySuccesses policy then False
            else
              let receivedAt = SliceStable time_After (map snd latest);
                  receivedAt = take (nat (hbp_RecoverySuccesses policy)) receivedAt;
                  receivedAt = SliceStable time_Before receivedAt
              in gaps_within (hbp_RecoveryMaxIntervalGap policy) receivedAt)"

definition heartbeatSeverity :: "int \<Rightarrow> int \<Rightarrow> Severity \<times> string \<times> bool" where
  "heartbeatSeverity missed missingThreshold =
     (let alertThreshold = wrap64 (2 * missingThreshold);
          criticalThreshold = wrap64 (4 * missingThreshold);
          summary = (utf8 [0x6700, 0x8FD1, 0x20]) @ itoa missed @ (utf8 [0x20, 0x4E2A, 0x5FC3, 0x8DF3, 0x5468, 0x671F, 0x672A, 0x6536, 0x5230, 0x5FC3, 0x8DF3])
      in if missed \<ge> criticalThreshold then (SeverityCritical, summary, True)
         else if missed \<ge> alertThreshold then (SeverityAlert, summary, True)
         else if missed \<ge> missingThreshold then (SeverityNotice, summary, True)
         else (SeverityNormal, [], False))"

definition EvaluateMonitoringInstanceHeartbeatMissing ::
    "IncidentRecord option \<Rightarrow> string \<Rightarrow> time \<Rightarrow> time option \<Rightarrow> HeartbeatIncidentPolicy \<Rightarrow>
     LiveHeartbeatReceipt list \<Rightarrow> EvaluationResult" where
  "EvaluateMonitoringInstanceHeartbeatMissing previous monitoringInstanceID now lastHeartbeatAt policy recoveryReceipts =
     (case lastHeartbeatAt of
        None \<Rightarrow> noop previous
      | Some lastAt \<Rightarrow>
          if \<not> validHeartbeatIncidentPolicy policy then noop previous
          else
            let missed = heartbeatMissedIntervals now lastAt (hbp_HeartbeatInterval policy);
                (severity, summary, active) = heartbeatSeverity missed (hbp_MissingThreshold policy)
            in if \<not> active then
                 if previous = None \<or> \<not> hasStableHeartbeatRecoveryEvidence previous policy recoveryReceipts
                 then noop previous
                 else recoverIfNeeded previous now (utf8 [0x5FC3, 0x8DF3, 0x5DF2, 0x6062, 0x590D]) MonitoringEventProvenanceCenter False
               else evaluateTransition previous ObjectTypeMonitoringInstance monitoringInstanceID
                 IncidentMonitoringInstanceHeartbeatMissing severity now summary MonitoringEventProvenanceCenter)"

definition HeartbeatIsStale :: "time \<Rightarrow> time \<Rightarrow> HeartbeatIncidentPolicy \<Rightarrow> bool" where
  "HeartbeatIsStale now lastHeartbeatAt policy =
     (if IsZero lastHeartbeatAt \<or> \<not> validHeartbeatIncidentPolicy policy then False
      else heartbeatMissedIntervals now lastHeartbeatAt (hbp_HeartbeatInterval policy) \<ge>
           hbp_MissingThreshold policy)"

section \<open>Disk and inode pressure\<close>

definition fastThresholdSeverity :: "f64 \<Rightarrow> f64 \<Rightarrow> f64 \<Rightarrow> f64 \<Rightarrow> Severity \<times> bool" where
  "fastThresholdSeverity value notice alert critical =
     (if f_ge value critical then (SeverityCritical, True)
      else if f_ge value alert then (SeverityAlert, True)
      else if f_ge value notice then (SeverityNotice, True)
      else (SeverityNormal, False))"

definition evaluateMonitoringInstanceDiskPressure ::
    "IncidentRecord option \<Rightarrow> string \<Rightarrow> HostSample \<Rightarrow> MetricThresholds \<Rightarrow> EvaluationResult" where
  "evaluateMonitoringInstanceDiskPressure previous monitoringInstanceID sample thresholds =
     (let (severity, active) = fastThresholdSeverity (hs_DiskUsedPct sample)
            (f64_of_int (mt_DiskWarningPct thresholds)) (f64_of_int (mt_DiskAlertPct thresholds))
            (f64_of_int (mt_DiskCriticalPct thresholds))
      in if \<not> active then
           recoverIfNeeded previous (hs_ObservedAt sample) (utf8 [0x78C1, 0x76D8, 0x4F7F, 0x7528, 0x7387, 0x6062, 0x590D, 0x5230, 0x5B89, 0x5168, 0x533A, 0x95F4])
             MonitoringEventProvenanceAgentSync (hs_IsBackfilled sample)
         else
           evaluateTransition previous ObjectTypeMonitoringInstance monitoringInstanceID
             IncidentMonitoringInstanceDiskPressure severity (hs_ObservedAt sample)
             ((utf8 [0x78C1, 0x76D8, 0x4F7F, 0x7528, 0x7387, 0x20]) @ fmt_f1 (hs_DiskUsedPct sample) @ ''%'') MonitoringEventProvenanceAgentSync)"

definition EvaluateMonitoringInstanceDiskPressure ::
    "IncidentRecord option \<Rightarrow> string \<Rightarrow> HostSample option \<Rightarrow> MetricThresholds \<Rightarrow> EvaluationResult" where
  "EvaluateMonitoringInstanceDiskPressure previous monitoringInstanceID sample thresholds =
     (case sample of
        None \<Rightarrow> noop previous
      | Some s \<Rightarrow>
          let suppressed = hs_MaintenanceContext s \<or> hs_IsBackfilled s;
              result = evaluateMonitoringInstanceDiskPressure previous monitoringInstanceID s thresholds
          in if suppressed then
               if er_Transition result = TransitionRecovered then suppressNotification result
               else skip previous
             else result)"

definition evaluateMonitoringInstanceInodePressure ::
    "IncidentRecord option \<Rightarrow> string \<Rightarrow> HostSample \<Rightarrow> MetricThresholds \<Rightarrow> EvaluationResult" where
  "evaluateMonitoringInstanceInodePressure previous monitoringInstanceID sample thresholds =
     (let (severity, active) = fastThresholdSeverity (hs_InodeUsedPct sample)
            (f64_of_int (mt_InodeWarningPct thresholds)) (f64_of_int (mt_InodeAlertPct thresholds))
            (f64_of_int (mt_InodeCriticalPct thresholds))
      in if \<not> active then
           recoverIfNeeded previous (hs_ObservedAt sample) (utf8 [0x69, 0x6E, 0x6F, 0x64, 0x65, 0x20, 0x4F7F, 0x7528, 0x7387, 0x6062, 0x590D, 0x5230, 0x5B89, 0x5168, 0x533A, 0x95F4])
             MonitoringEventProvenanceAgentSync (hs_IsBackfilled sample)
         else
           evaluateTransition previous ObjectTypeMonitoringInstance monitoringInstanceID
             IncidentMonitoringInstanceInodePressure severity (hs_ObservedAt sample)
             ((utf8 [0x69, 0x6E, 0x6F, 0x64, 0x65, 0x20, 0x4F7F, 0x7528, 0x7387, 0x20]) @ fmt_f1 (hs_InodeUsedPct sample) @ ''%'') MonitoringEventProvenanceAgentSync)"

definition EvaluateMonitoringInstanceInodePressure ::
    "IncidentRecord option \<Rightarrow> string \<Rightarrow> HostSample option \<Rightarrow> MetricThresholds \<Rightarrow> EvaluationResult" where
  "EvaluateMonitoringInstanceInodePressure previous monitoringInstanceID sample thresholds =
     (case sample of
        None \<Rightarrow> noop previous
      | Some s \<Rightarrow>
          let suppressed = hs_MaintenanceContext s \<or> hs_IsBackfilled s;
              result = evaluateMonitoringInstanceInodePressure previous monitoringInstanceID s thresholds
          in if suppressed then
               if er_Transition result = TransitionRecovered then suppressNotification result
               else skip previous
             else result)"

section \<open>Probe failure and TLS expiry\<close>

text \<open>
  The order the three normalisations share: newest observation first, live facts before
  backfilled ones, then latest received first.
\<close>

definition newer :: "('a \<Rightarrow> time) \<Rightarrow> ('a \<Rightarrow> bool) \<Rightarrow> ('a \<Rightarrow> time) \<Rightarrow> 'a \<Rightarrow> 'a \<Rightarrow> bool" where
  "newer observedAt isBackfilled receivedAt l r =
     (if observedAt l \<noteq> observedAt r then time_After (observedAt l) (observedAt r)
      else if isBackfilled l \<noteq> isBackfilled r then \<not> isBackfilled l
      else if receivedAt l \<noteq> receivedAt r then time_After (receivedAt l) (receivedAt r)
      else False)"

definition normalizeHostSamples :: "HostSample list \<Rightarrow> HostSample list" where
  "normalizeHostSamples samples = SliceStable (newer hs_ObservedAt hs_IsBackfilled hs_ReceivedAt) samples"

definition normalizeProbeObservations :: "ProbeObservation list \<Rightarrow> ProbeObservation list" where
  "normalizeProbeObservations observations =
     SliceStable (newer po_ObservedAt po_IsBackfilled po_ReceivedAt) observations"

definition normalizeMonitoringInstanceResourceSamples ::
    "MonitoringInstanceResourceSample list \<Rightarrow> MonitoringInstanceResourceSample list" where
  "normalizeMonitoringInstanceResourceSamples samples =
     SliceStable (newer rs_ObservedAt rs_IsBackfilled rs_ReceivedAt) samples"

definition po_suppressed :: "ProbeObservation \<Rightarrow> bool" where
  "po_suppressed x = (po_MaintenanceContext x \<or> po_IsBackfilled x)"

definition consecutiveResults :: "ProbeObservation list \<Rightarrow> string \<Rightarrow> int" where
  "consecutiveResults observations want =
     int (length (takeWhile (\<lambda>x. po_ResultKind x = want) observations))"

definition leadingUnsuppressedFailureObservations :: "ProbeObservation list \<Rightarrow> ProbeObservation list" where
  "leadingUnsuppressedFailureObservations observations =
     takeWhile (\<lambda>x. \<not> po_suppressed x \<and> po_ResultKind x = ProbeResultFailure) observations"

definition uniqueNonEmptyMonitoringInstanceCount :: "ProbeObservation list \<Rightarrow> int" where
  "uniqueNonEmptyMonitoringInstanceCount observations =
     int (length (remdups (filter (\<lambda>x. x \<noteq> []) (map po_MonitoringInstanceID observations))))"

definition uniqueNonEmptyProbeItemCount :: "ProbeObservation list \<Rightarrow> int" where
  "uniqueNonEmptyProbeItemCount observations =
     int (length (remdups (filter (\<lambda>x. x \<noteq> []) (map po_ProbeItemID observations))))"

definition probeFailureSeverity :: "ProbeObservation list \<Rightarrow> Severity \<times> bool" where
  "probeFailureSeverity failures =
     (case failures of
        [] \<Rightarrow> (SeverityNormal, False)
      | f # _ \<Rightarrow>
          let probeKind = po_ProbeKind f;
              failureCount = int (length failures);
              severeThreshold = (if probeKind = ProbeKindTCP then 6 else 5)
          in if probeKind = ProbeKindTCP \<and> uniqueNonEmptyMonitoringInstanceCount failures \<ge> 2
             then (SeverityCritical, True)
             else if probeKind = ProbeKindHTTP \<and> uniqueNonEmptyProbeItemCount failures \<ge> 2
             then (SeverityCritical, True)
             else if failureCount \<ge> severeThreshold then (SeverityCritical, True)
             else if failureCount \<ge> 3 then (SeverityAlert, True)
             else if failureCount \<ge> 2 then (SeverityNotice, True)
             else (SeverityNormal, False))"

definition EvaluateTargetProbeFailure ::
    "IncidentRecord option \<Rightarrow> string \<Rightarrow> ProbeObservation list \<Rightarrow> EvaluationResult" where
  "EvaluateTargetProbeFailure previous targetID recent =
     (case normalizeProbeObservations recent of
        [] \<Rightarrow> noop previous
      | r0 # rest \<Rightarrow>
          let recent = r0 # rest;
              suppressed = po_suppressed r0;
              failureWindow = leadingUnsuppressedFailureObservations recent;
              failureCount = int (length failureWindow);
              successCount = consecutiveResults recent ProbeResultSuccess
          in if previous \<noteq> None \<and> successCount \<ge> 2 then
               let result = recoverIfNeeded previous (po_ObservedAt r0) (utf8 [0x63A2, 0x9488, 0x5DF2, 0x8FDE, 0x7EED, 0x6210, 0x529F, 0x6062, 0x590D])
                     MonitoringEventProvenanceAgentSync (po_IsBackfilled r0)
               in if suppressed then suppressNotification result else result
             else
               let (severity, active) = probeFailureSeverity failureWindow in
               if \<not> active then noop previous
               else if suppressed then skip previous
               else
                 let summary = po_ProbeKind r0 @ (utf8 [0x20, 0x63A2, 0x9488, 0x8FDE, 0x7EED, 0x5931, 0x8D25, 0x20]) @ itoa failureCount @ (utf8 [0x20, 0x6B21]);
                     summary = (if po_ErrorSummary r0 \<noteq> []
                       then summary @ (utf8 [0xFF08]) @ po_ErrorSummary r0 @ (utf8 [0xFF09]) else summary)
                 in evaluateTransition previous ObjectTypeTarget targetID IncidentTargetProbeFailure
                      severity (po_ObservedAt r0) summary MonitoringEventProvenanceAgentSync)"

definition tlsExpirySeverity :: "int \<Rightarrow> Severity \<times> bool" where
  "tlsExpirySeverity days =
     (if days \<le> 3 then (SeverityCritical, True)
      else if days \<le> 14 then (SeverityAlert, True)
      else if days \<le> 30 then (SeverityNotice, True)
      else (SeverityNormal, False))"

definition EvaluateTargetTLSExpiry ::
    "IncidentRecord option \<Rightarrow> string \<Rightarrow> ProbeObservation list \<Rightarrow> EvaluationResult" where
  "EvaluateTargetTLSExpiry previous targetID recent =
     (case normalizeProbeObservations recent of
        [] \<Rightarrow> noop previous
      | r0 # _ \<Rightarrow>
          let suppressed = po_suppressed r0 in
          (case po_TLSExpiryDays r0 of
             None \<Rightarrow> noop previous
           | Some days \<Rightarrow>
               let (severity, active) = tlsExpirySeverity days in
               if \<not> active then
                 let result = recoverIfNeeded previous (po_ObservedAt r0) (utf8 [0x54, 0x4C, 0x53, 0x20, 0x5230, 0x671F, 0x98CE, 0x9669, 0x89E3, 0x9664])
                       MonitoringEventProvenanceAgentSync (po_IsBackfilled r0)
                 in if suppressed then suppressNotification result else result
               else if suppressed then skip previous
               else evaluateTransition previous ObjectTypeTarget targetID IncidentTargetTLSExpiry
                 severity (po_ObservedAt r0) ((utf8 [0x54, 0x4C, 0x53, 0x20, 0x8BC1, 0x4E66, 0x5269, 0x4F59, 0x20]) @ itoa days @ (utf8 [0x20, 0x5929]))
                 MonitoringEventProvenanceAgentSync))"

section \<open>The contract of an evaluator\<close>

text \<open>
  An incident belongs to an object and a class when its identity fields say so, it is active and
  its severity is one of the three active ones.
\<close>

definition incident_ok :: "ObjectType \<Rightarrow> string \<Rightarrow> IncidentClass \<Rightarrow> IncidentRecord \<Rightarrow> bool" where
  "incident_ok ot oid cls p \<longleftrightarrow>
     inc_IncidentID p = incidentID ot oid cls \<and> inc_ObjectType p = ot \<and> inc_ObjectID p = oid \<and>
     inc_IncidentClass p = cls \<and> active_severity (inc_Severity p) \<and> inc_Status p = IncidentStatusActive"

definition previous_ok :: "ObjectType \<Rightarrow> string \<Rightarrow> IncidentClass \<Rightarrow> IncidentRecord option \<Rightarrow> bool" where
  "previous_ok ot oid cls prev \<longleftrightarrow> (case prev of None \<Rightarrow> True | Some p \<Rightarrow> incident_ok ot oid cls p)"

definition event_for :: "ObjectType \<Rightarrow> string \<Rightarrow> IncidentClass \<Rightarrow> StateChangeEventRecord \<Rightarrow> bool" where
  "event_for ot oid cls e \<longleftrightarrow>
     ev_IncidentID e = incidentID ot oid cls \<and> ev_ObjectType e = ot \<and> ev_ObjectID e = oid \<and>
     ev_IncidentClass e = cls \<and> event_metadata_ok e"

definition result_ok ::
    "ObjectType \<Rightarrow> string \<Rightarrow> IncidentClass \<Rightarrow> IncidentRecord option \<Rightarrow> EvaluationResult \<Rightarrow> bool" where
  "result_ok ot oid cls prev r \<longleftrightarrow>
     (case er_Transition r of
        TransitionNoop \<Rightarrow>
          er_Event r = None \<and> er_Notification r = None \<and>
          (case (prev, er_Current r) of
             (None, None) \<Rightarrow> True
           | (Some p, Some c) \<Rightarrow>
               incident_ok ot oid cls c \<and> inc_StartedAt c = inc_StartedAt p \<and>
               severityRank (inc_Severity c) \<le> severityRank (inc_Severity p)
           | _ \<Rightarrow> False)
      | TransitionSkipped \<Rightarrow> er_Current r = None \<and> er_Event r = None \<and> er_Notification r = None
      | TransitionStarted \<Rightarrow>
          (case (prev, er_Current r, er_Event r, er_Notification r) of
             (None, Some c, Some e, Some n) \<Rightarrow>
               incident_ok ot oid cls c \<and> event_for ot oid cls e \<and>
               ev_EventType e = EventIncidentStarted \<and> ev_Severity e = inc_Severity c \<and>
               nd_Reason n = NotificationReasonStarted \<and> nd_Severity n = inc_Severity c
           | _ \<Rightarrow> False)
      | TransitionEscalated \<Rightarrow>
          (case (prev, er_Current r, er_Event r, er_Notification r) of
             (Some p, Some c, Some e, Some n) \<Rightarrow>
               incident_ok ot oid cls c \<and> event_for ot oid cls e \<and>
               inc_StartedAt c = inc_StartedAt p \<and>
               severityRank (inc_Severity p) < severityRank (inc_Severity c) \<and>
               ev_EventType e = EventIncidentEscalated \<and> ev_Severity e = inc_Severity c \<and>
               nd_Reason n = NotificationReasonEscalated \<and> nd_Severity n = inc_Severity c
           | _ \<Rightarrow> False)
      | TransitionRecovered \<Rightarrow>
          (case (prev, er_Current r, er_Event r, er_Notification r) of
             (Some p, None, Some e, Some n) \<Rightarrow>
               event_for ot oid cls e \<and>
               ev_EventType e = EventIncidentRecovered \<and> ev_Severity e = inc_Severity p \<and>
               nd_Reason n = NotificationReasonRecovered \<and> nd_Severity n = inc_Severity p
           | _ \<Rightarrow> False))"

text \<open>What a result makes of the incident of its class, and a sequence of evaluations.\<close>

definition after_result :: "IncidentRecord option \<Rightarrow> EvaluationResult \<Rightarrow> IncidentRecord option" where
  "after_result prev r =
     (case er_Transition r of
        TransitionRecovered \<Rightarrow> None
      | TransitionSkipped \<Rightarrow> prev
      | _ \<Rightarrow> (case er_Current r of None \<Rightarrow> prev | Some c \<Rightarrow> Some c))"

fun run_evaluator ::
    "('i \<Rightarrow> IncidentRecord option \<Rightarrow> EvaluationResult) \<Rightarrow> IncidentRecord option \<Rightarrow> 'i list \<Rightarrow>
     IncidentRecord option \<times> StateChangeEventRecord list" where
  "run_evaluator eval prev [] = (prev, [])"
| "run_evaluator eval prev (i # inputs) =
     (let r = eval i prev;
          (final, events) = run_evaluator eval (after_result prev r) inputs
      in (final, (case er_Event r of None \<Rightarrow> events | Some e \<Rightarrow> e # events)))"

text \<open>
  The automaton of an incident log: whether an incident is open after the events, or \<open>None\<close> when
  the events do not fit together.
\<close>

fun log_state :: "bool \<Rightarrow> StateChangeEventRecord list \<Rightarrow> bool option" where
  "log_state isOpen [] = Some isOpen"
| "log_state isOpen (e # es) =
     (case ev_EventType e of
        EventIncidentStarted \<Rightarrow> if isOpen then None else log_state True es
      | EventIncidentEscalated \<Rightarrow> if isOpen then log_state True es else None
      | EventIncidentRecovered \<Rightarrow> if isOpen then log_state False es else None
      | EventIncidentClosedByManagement \<Rightarrow> if isOpen then log_state False es else None
      | _ \<Rightarrow> None)"

locale incident_evaluator =
  fixes ot :: ObjectType and oid :: string and cls :: IncidentClass
    and eval :: "'i \<Rightarrow> IncidentRecord option \<Rightarrow> EvaluationResult"
  assumes object_type: "ot \<in> {ObjectTypeMonitoringInstance, ObjectTypeTarget}"
    and contract: "previous_ok ot oid cls prev \<Longrightarrow> result_ok ot oid cls prev (eval i prev)"
begin

lemma result_event:
  assumes "previous_ok ot oid cls prev" and "er_Event (eval i prev) = Some e"
  shows "event_for ot oid cls e"
  using contract [OF assms(1), of i] assms(2)
  by (auto simp: result_ok_def split: EvaluationTransition.splits option.splits)

lemma after_result_ok:
  assumes "previous_ok ot oid cls prev"
  shows "previous_ok ot oid cls (after_result prev (eval i prev))"
  using contract [OF assms, of i] assms
  by (auto simp: result_ok_def after_result_def previous_ok_def
      split: EvaluationTransition.splits option.splits)

lemma notification_has_event:
  assumes "previous_ok ot oid cls prev"
  shows "(er_Notification (eval i prev) = None) = (er_Event (eval i prev) = None)"
  using contract [OF assms, of i]
  by (auto simp: result_ok_def split: EvaluationTransition.splits option.splits)

lemma result_log:
  assumes "previous_ok ot oid cls prev"
  shows "log_state (prev \<noteq> None)
    (case er_Event (eval i prev) of None \<Rightarrow> [] | Some e \<Rightarrow> [e]) =
    Some (after_result prev (eval i prev) \<noteq> None)"
  using contract [OF assms, of i]
  by (auto simp: result_ok_def after_result_def
      split: EvaluationTransition.splits option.splits)

lemma run_ok:
  assumes "previous_ok ot oid cls prev" and "run_evaluator eval prev inputs = (final, events)"
  shows "previous_ok ot oid cls final \<and> list_all (event_for ot oid cls) events \<and>
    log_state (prev \<noteq> None) events = Some (final \<noteq> None)"
  using assms
proof (induction inputs arbitrary: prev final events)
  case Nil
  thus ?case by auto
next
  case (Cons i inputs)
  let ?r = "eval i prev"
  obtain es where run: "run_evaluator eval (after_result prev ?r) inputs = (final, es)"
    and ev: "events = (case er_Event ?r of None \<Rightarrow> es | Some e \<Rightarrow> e # es)"
    using Cons.prems(2) by (auto simp: Let_def split: prod.splits)
  note IH = Cons.IH [OF after_result_ok [OF Cons.prems(1)] run]
  show ?case
  proof (cases "er_Event ?r")
    case None
    thus ?thesis using IH ev result_log [OF Cons.prems(1), of i] by simp
  next
    case (Some e)
    have "log_state (prev \<noteq> None) (e # es) = log_state (after_result prev ?r \<noteq> None) es"
      using result_log [OF Cons.prems(1), of i] Some
      by (auto split: EventType.splits if_splits)
    thus ?thesis using IH ev Some result_event [OF Cons.prems(1) Some] by simp
  qed
qed

end

section \<open>The building blocks keep the contract\<close>

lemma cloneIncident_id [simp]: "cloneIncident p = p"
  by (simp add: cloneIncident_def split: option.split)

lemma noop_ok: "previous_ok ot oid cls prev \<Longrightarrow> result_ok ot oid cls prev (noop prev)"
  by (auto simp: noop_def result_ok_def previous_ok_def split: option.splits)

lemma noop_none: "result_ok ot oid cls None
  \<lparr> er_Current = None, er_Transition = TransitionNoop, er_Event = None, er_Notification = None \<rparr>"
  by (simp add: result_ok_def)

lemma skip_ok: "result_ok ot oid cls prev (skip prev')"
  by (simp add: skip_def result_ok_def)

lemma suppressNotification_ok:
  "result_ok ot oid cls prev r \<Longrightarrow> result_ok ot oid cls prev (suppressNotification r)"
  by (auto simp: suppressNotification_def result_ok_def
      split: option.splits EvaluationTransition.splits)

lemma suppressNotification_simps [simp]:
  "er_Current (suppressNotification r) = er_Current r"
  "er_Transition (suppressNotification r) = er_Transition r"
  "er_Event (suppressNotification r) = er_Event r"
  by (simp_all add: suppressNotification_def split: option.splits)

lemma suppressNotification_silent:
  "er_Notification (suppressNotification r) = Some n \<Longrightarrow> \<not> nd_ShouldSend n"
  by (auto simp: suppressNotification_def split: option.splits)

abbreviation incident_provenance :: "string \<Rightarrow> bool" where
  "incident_provenance p \<equiv> p \<in> {MonitoringEventProvenanceAgentSync, MonitoringEventProvenanceCenter}"

abbreviation incident_object :: "ObjectType \<Rightarrow> bool" where
  "incident_object ot \<equiv> ot \<in> {ObjectTypeMonitoringInstance, ObjectTypeTarget}"

lemma recoverIfNeeded_ok:
  assumes "incident_object ot" and "incident_provenance prov" and "previous_ok ot oid cls prev"
  shows "result_ok ot oid cls prev (recoverIfNeeded prev when summary prov bf)"
proof (cases prev)
  case None
  thus ?thesis by (simp add: recoverIfNeeded_def result_ok_def)
next
  case (Some p)
  let ?r = "recoverIfNeeded prev when summary prov bf"
  have p: "incident_ok ot oid cls p" using assms(3) Some by (simp add: previous_ok_def)
  obtain e where e: "er_Event ?r = Some e" by (simp add: recoverIfNeeded_def Some Let_def)
  have "event_metadata_ok e"
    using e p assms(1,2) Some
    by (intro recovered_event_ok)
      (auto simp: recoverIfNeeded_def Let_def incident_event_frame_def incident_ok_def)
  thus ?thesis
    using e p Some by (auto simp: recoverIfNeeded_def Let_def result_ok_def event_for_def incident_ok_def)
qed

lemma recoverIfNeeded_transition:
  "er_Transition (recoverIfNeeded prev when summary prov bf) =
     (if prev = None then TransitionNoop else TransitionRecovered)"
  by (auto simp: recoverIfNeeded_def Let_def split: option.splits)

lemma evaluateTransition_event_ok:
  assumes "incident_object ot" and "incident_provenance prov" and "previous_ok ot oid cls prev"
    and "active_severity sev"
    and "er_Event (evaluateTransition prev ot oid cls sev when summary prov) = Some e"
  shows "event_metadata_ok e"
proof (cases prev)
  case None
  thus ?thesis
    using assms
    by (intro started_event_ok)
      (auto simp: evaluateTransition_def newIncidentStateChangeEvent_def Let_def incident_event_frame_def)
next
  case (Some p)
  hence "active_severity (inc_Severity p)" using assms(3) by (simp add: previous_ok_def incident_ok_def)
  thus ?thesis
    using assms Some
    by (intro escalated_event_ok [where old = "inc_Severity p"])
      (auto simp: evaluateTransition_def newIncidentStateChangeEvent_def Let_def
        incident_event_frame_def split: if_splits)
qed

lemma evaluateTransition_ok:
  assumes "incident_object ot" and "incident_provenance prov" and "previous_ok ot oid cls prev"
    and "active_severity sev"
  shows "result_ok ot oid cls prev (evaluateTransition prev ot oid cls sev when summary prov)"
proof (cases prev)
  case None
  thus ?thesis
    using evaluateTransition_event_ok [OF assms, of "when" summary] assms(4)
    by (simp add: evaluateTransition_def Let_def result_ok_def event_for_def incident_ok_def
        newIncidentStateChangeEvent_def)
next
  case (Some p)
  thus ?thesis
    using evaluateTransition_event_ok [OF assms, of "when" summary] assms(3,4)
    by (simp add: evaluateTransition_def Let_def result_ok_def event_for_def incident_ok_def
        newIncidentStateChangeEvent_def previous_ok_def split: if_splits)
qed

lemma evaluateTransition_transition:
  "er_Transition (evaluateTransition prev ot oid cls sev when summary prov) =
     (case prev of
        None \<Rightarrow> TransitionStarted
      | Some p \<Rightarrow> if severityRank sev > severityRank (inc_Severity p) then TransitionEscalated else TransitionNoop)"
  by (simp add: evaluateTransition_def Let_def split: option.splits)

lemma evaluateTransition_current:
  "\<exists>c. er_Current (evaluateTransition prev ot oid cls sev when summary prov) = Some c \<and>
     inc_Severity c = sev \<and> inc_LastEvaluatedAt c = when \<and>
     inc_StartedAt c = (case prev of None \<Rightarrow> when | Some p \<Rightarrow> inc_StartedAt p)"
  by (simp add: evaluateTransition_def Let_def split: option.splits)

lemmas transition_blocks =
  noop_ok skip_ok suppressNotification_ok recoverIfNeeded_ok evaluateTransition_ok

section \<open>The evaluators keep the contract\<close>

lemma heartbeatSeverity_active:
  "heartbeatSeverity m t = (s, summary, True) \<Longrightarrow> active_severity s"
  by (auto simp: heartbeatSeverity_def Let_def split: if_splits)

lemma fastThresholdSeverity_active:
  "fastThresholdSeverity v n a c = (s, True) \<Longrightarrow> active_severity s"
  by (auto simp: fastThresholdSeverity_def split: if_splits)

lemma probeFailureSeverity_active:
  "probeFailureSeverity fs = (s, True) \<Longrightarrow> active_severity s"
  by (auto simp: probeFailureSeverity_def Let_def split: if_splits list.splits)

lemma tlsExpirySeverity_active:
  "tlsExpirySeverity d = (s, True) \<Longrightarrow> active_severity s"
  by (auto simp: tlsExpirySeverity_def split: if_splits)

interpretation heartbeat: incident_evaluator
  ObjectTypeMonitoringInstance oid IncidentMonitoringInstanceHeartbeatMissing
  "\<lambda>(now, lastAt, policy, receipts) prev.
     EvaluateMonitoringInstanceHeartbeatMissing prev oid now lastAt policy receipts"
  for oid
proof unfold_locales
  fix prev and i :: "time \<times> time option \<times> HeartbeatIncidentPolicy \<times> LiveHeartbeatReceipt list"
  assume p: "previous_ok ObjectTypeMonitoringInstance oid IncidentMonitoringInstanceHeartbeatMissing prev"
  obtain now lastAt policy receipts where i: "i = (now, lastAt, policy, receipts)" by (cases i)
  show "result_ok ObjectTypeMonitoringInstance oid IncidentMonitoringInstanceHeartbeatMissing prev
    ((case i of (now, lastAt, policy, receipts) \<Rightarrow>
      \<lambda>prev. EvaluateMonitoringInstanceHeartbeatMissing prev oid now lastAt policy receipts) prev)"
    using p noop_ok [OF p] unfolding i EvaluateMonitoringInstanceHeartbeatMissing_def
    by (auto simp: Let_def split: option.splits prod.splits
        intro!: evaluateTransition_ok recoverIfNeeded_ok heartbeatSeverity_active)
qed simp

lemma diskPressure_core_ok:
  assumes "previous_ok ObjectTypeMonitoringInstance oid IncidentMonitoringInstanceDiskPressure prev"
  shows "result_ok ObjectTypeMonitoringInstance oid IncidentMonitoringInstanceDiskPressure prev
    (evaluateMonitoringInstanceDiskPressure prev oid s th)"
  using assms unfolding evaluateMonitoringInstanceDiskPressure_def
  by (auto split: prod.splits intro!: evaluateTransition_ok recoverIfNeeded_ok
      fastThresholdSeverity_active)

interpretation disk: incident_evaluator
  ObjectTypeMonitoringInstance oid IncidentMonitoringInstanceDiskPressure
  "\<lambda>(sample, thresholds) prev. EvaluateMonitoringInstanceDiskPressure prev oid sample thresholds"
  for oid
  by unfold_locales
    (auto simp: EvaluateMonitoringInstanceDiskPressure_def Let_def split: option.splits
      intro!: noop_ok skip_ok suppressNotification_ok diskPressure_core_ok)

lemma inodePressure_core_ok:
  assumes "previous_ok ObjectTypeMonitoringInstance oid IncidentMonitoringInstanceInodePressure prev"
  shows "result_ok ObjectTypeMonitoringInstance oid IncidentMonitoringInstanceInodePressure prev
    (evaluateMonitoringInstanceInodePressure prev oid s th)"
  using assms unfolding evaluateMonitoringInstanceInodePressure_def
  by (auto split: prod.splits intro!: evaluateTransition_ok recoverIfNeeded_ok
      fastThresholdSeverity_active)

interpretation inode: incident_evaluator
  ObjectTypeMonitoringInstance oid IncidentMonitoringInstanceInodePressure
  "\<lambda>(sample, thresholds) prev. EvaluateMonitoringInstanceInodePressure prev oid sample thresholds"
  for oid
  by unfold_locales
    (auto simp: EvaluateMonitoringInstanceInodePressure_def Let_def split: option.splits
      intro!: noop_ok skip_ok suppressNotification_ok inodePressure_core_ok)

interpretation probe_failure: incident_evaluator
  ObjectTypeTarget oid IncidentTargetProbeFailure
  "\<lambda>recent prev. EvaluateTargetProbeFailure prev oid recent"
  for oid
  by unfold_locales
    (auto simp: EvaluateTargetProbeFailure_def Let_def split: list.splits prod.splits
      intro!: noop_ok skip_ok suppressNotification_ok recoverIfNeeded_ok evaluateTransition_ok
        probeFailureSeverity_active)

interpretation tls_expiry: incident_evaluator
  ObjectTypeTarget oid IncidentTargetTLSExpiry
  "\<lambda>recent prev. EvaluateTargetTLSExpiry prev oid recent"
  for oid
  by unfold_locales
    (auto simp: EvaluateTargetTLSExpiry_def Let_def split: list.splits prod.splits option.splits
      intro!: noop_ok skip_ok suppressNotification_ok recoverIfNeeded_ok evaluateTransition_ok
        tlsExpirySeverity_active)

section \<open>Heartbeat arithmetic\<close>

lemma le_div_iff_mult_le_int: "0 < c \<Longrightarrow> a \<le> b div c \<longleftrightarrow> a * c \<le> (b::int)"
proof
  assume c: "0 < c" and "a \<le> b div c"
  hence "a * c \<le> (b div c) * c" by (simp add: mult_right_mono)
  also have "\<dots> \<le> b" using c by (simp add: minus_mod_eq_div_mult [symmetric])
  finally show "a * c \<le> b" .
next
  assume c: "0 < c" and "a * c \<le> b"
  hence "(a * c) div c \<le> b div c" by (intro zdiv_mono1)
  thus "a \<le> b div c" using c by simp
qed

lemma missed_ge_iff:
  assumes "0 < iv" and "is_int64 (now - lastAt)" and "0 < n"
  shows "n \<le> heartbeatMissedIntervals now lastAt iv \<longleftrightarrow> n * iv \<le> now - lastAt"
proof (cases "lastAt < now")
  case False
  have "0 < n * iv" using assms by simp
  hence "\<not> n * iv \<le> now - lastAt" using False by linarith
  thus ?thesis using False assms(3) by (simp add: heartbeatMissedIntervals_def time_After_def)
next
  case True
  let ?d = "now - lastAt"
  have sub: "time_Sub now lastAt = ?d" using assms(2) by (rule time_Sub_exact)
  have q: "quot ?d iv = ?d div iv" using True assms(1) by (simp add: quot_nonneg)
  have "?d div iv \<le> ?d" using zdiv_mono2 [of ?d 1 iv] True assms(1) by simp
  moreover have "?d \<le> maxInt64" using assms(2) by (simp add: is_int64_def)
  ultimately have le: "?d div iv \<le> maxInt64" by linarith
  have nn: "0 \<le> ?d div iv" using True assms(1) by (simp add: pos_imp_zdiv_nonneg_iff)
  have "heartbeatMissedIntervals now lastAt iv = ?d div iv"
    using True assms(1) le nn
    by (auto simp: heartbeatMissedIntervals_def time_After_def sub q Let_def)
  thus ?thesis using assms(1) by (simp add: le_div_iff_mult_le_int)
qed

lemma missed_bounds: "0 \<le> heartbeatMissedIntervals now lastAt iv"
  and "heartbeatMissedIntervals now lastAt iv \<le> maxInt64"
  by (auto simp: heartbeatMissedIntervals_def Let_def maxInt64_def)

lemma quot_maxInt64_4: "quot maxInt64 4 = 2 ^ 61 - 1"
  by (simp add: quot_def maxInt64_def)

lemma quot_maxInt64_2: "quot maxInt64 2 = 2 ^ 62 - 1"
  by (simp add: quot_def maxInt64_def)

lemma policy_thresholds:
  assumes "validHeartbeatIncidentPolicy policy"
  shows "wrap64 (2 * hbp_MissingThreshold policy) = 2 * hbp_MissingThreshold policy"
    and "wrap64 (4 * hbp_MissingThreshold policy) = 4 * hbp_MissingThreshold policy"
    and "hbp_RecoveryMaxIntervalGap policy = 2 * hbp_HeartbeatInterval policy"
    and "0 < hbp_HeartbeatInterval policy" and "0 < hbp_MissingThreshold policy"
    and "hbp_RecoverySuccesses policy = 3"
proof -
  let ?t = "hbp_MissingThreshold policy" and ?i = "hbp_HeartbeatInterval policy"
  have t: "0 < ?t" "?t \<le> 2 ^ 61 - 1" and i: "0 < ?i" "?i \<le> 2 ^ 62 - 1"
    and gap: "hbp_RecoveryMaxIntervalGap policy = wrap64 (2 * ?i)"
    and three: "hbp_RecoverySuccesses policy = 3"
    using assms
    unfolding validHeartbeatIncidentPolicy_def maxHeartbeatIncidentInterval_def
      heartbeatRecoverySuccesses_def quot_maxInt64_2 quot_maxInt64_4 by blast+
  have "is_int64 (2 * ?t)" "is_int64 (4 * ?t)" "is_int64 (2 * ?i)"
    using t i by (simp_all add: is_int64_def minInt64_def maxInt64_def)
  thus "wrap64 (2 * ?t) = 2 * ?t" "wrap64 (4 * ?t) = 4 * ?t"
    "hbp_RecoveryMaxIntervalGap policy = 2 * ?i"
    by (simp_all add: wrap64_id gap)
  show "0 < ?i" "0 < ?t" "hbp_RecoverySuccesses policy = 3" by fact+
qed

lemma heartbeatSeverity_cases:
  assumes "validHeartbeatIncidentPolicy policy" and "is_int64 (now - lastAt)"
  defines "n \<equiv> hbp_MissingThreshold policy * hbp_HeartbeatInterval policy"
    and "r \<equiv> heartbeatSeverity (heartbeatMissedIntervals now lastAt (hbp_HeartbeatInterval policy))
               (hbp_MissingThreshold policy)"
  shows "snd (snd r) \<longleftrightarrow> n \<le> now - lastAt"
    and "n \<le> now - lastAt \<Longrightarrow>
      fst r = (if 4 * n \<le> now - lastAt then SeverityCritical
               else if 2 * n \<le> now - lastAt then SeverityAlert else SeverityNotice)"
proof -
  let ?m = "heartbeatMissedIntervals now lastAt (hbp_HeartbeatInterval policy)"
  let ?t = "hbp_MissingThreshold policy"
  note P = policy_thresholds [OF assms(1)]
  have k: "k * ?t \<le> ?m \<longleftrightarrow> k * n \<le> now - lastAt" if "0 < k" for k
    using missed_ge_iff [OF P(4) assms(2), of "k * ?t"] P(5) that
    by (simp add: n_def mult.assoc)
  have n: "0 < n" using P(4,5) by (simp add: n_def)
  have K: "?t \<le> ?m \<longleftrightarrow> n \<le> now - lastAt" "2 * ?t \<le> ?m \<longleftrightarrow> 2 * n \<le> now - lastAt"
    "4 * ?t \<le> ?m \<longleftrightarrow> 4 * n \<le> now - lastAt"
    using k [of 1] k [of 2] k [of 4] by simp_all
  show "snd (snd r) \<longleftrightarrow> n \<le> now - lastAt"
    using K n by (auto simp: r_def heartbeatSeverity_def P(1,2) Let_def)
  show "fst r = (if 4 * n \<le> now - lastAt then SeverityCritical
               else if 2 * n \<le> now - lastAt then SeverityAlert else SeverityNotice)"
    if "n \<le> now - lastAt"
    using K n that by (auto simp: r_def heartbeatSeverity_def P(1,2) Let_def)
qed

text \<open>
  (C1) A heartbeat incident starts exactly when the last heartbeat is at least the missing
  threshold of intervals old, and its severity is notice, alert or critical as the silence reaches
  one, two or four times that threshold.  No step of the computation overflows for a valid policy.
\<close>

theorem heartbeat_starts_iff:
  assumes "validHeartbeatIncidentPolicy policy" and "is_int64 (now - lastAt)"
  shows "let r = EvaluateMonitoringInstanceHeartbeatMissing None mid now (Some lastAt) policy receipts;
       n = hbp_MissingThreshold policy * hbp_HeartbeatInterval policy; d = now - lastAt in
     if n \<le> d then
       er_Transition r = TransitionStarted \<and>
       map_option inc_Severity (er_Current r) =
         Some (if 4 * n \<le> d then SeverityCritical else if 2 * n \<le> d then SeverityAlert else SeverityNotice)
     else er_Transition r = TransitionNoop \<and> er_Current r = None"
proof -
  let ?n = "hbp_MissingThreshold policy * hbp_HeartbeatInterval policy"
  obtain s summary active where sev: "heartbeatSeverity
      (heartbeatMissedIntervals now lastAt (hbp_HeartbeatInterval policy))
      (hbp_MissingThreshold policy) = (s, summary, active)" by (metis prod_cases3)
  note H = heartbeatSeverity_cases [OF assms, unfolded sev, simplified]
  show ?thesis
  proof (cases "?n \<le> now - lastAt")
    case True
    obtain c where "er_Current (evaluateTransition None ObjectTypeMonitoringInstance mid
        IncidentMonitoringInstanceHeartbeatMissing s now summary MonitoringEventProvenanceCenter) = Some c"
      and "inc_Severity c = s"
      using evaluateTransition_current [of None] by blast
    thus ?thesis
      using True H assms(1)
      by (simp add: EvaluateMonitoringInstanceHeartbeatMissing_def sev evaluateTransition_transition)
  next
    case False
    thus ?thesis
      using H assms(1) by (simp add: EvaluateMonitoringInstanceHeartbeatMissing_def sev noop_def)
  qed
qed

definition sample_policy :: HeartbeatIncidentPolicy where
  "sample_policy = \<lparr> hbp_HeartbeatInterval = 60 * second, hbp_MissingThreshold = 3,
     hbp_RecoverySuccesses = 3, hbp_RecoveryMaxIntervalGap = 120 * second \<rparr>"

lemma sample_policy_valid: "validHeartbeatIncidentPolicy sample_policy"
  by code_simp

theorem heartbeat_starts_iff_witness:
  "er_Transition (EvaluateMonitoringInstanceHeartbeatMissing None ''mi'' (400 * second)
     (Some (10 * second)) sample_policy []) = TransitionStarted"
  using heartbeat_starts_iff [OF sample_policy_valid, of "400 * second" "10 * second" "''mi''" "[]"]
  by (simp add: sample_policy_def duration_defs is_int64_def minInt64_def maxInt64_def Let_def)

text \<open>
  (C13) The staleness flag that the read side shows agrees with the incident engine: for a recorded
  heartbeat, \<open>HeartbeatIsStale\<close> holds exactly when an evaluation without an open incident starts one,
  for every policy.
\<close>

theorem HeartbeatIsStale_agrees:
  assumes "\<not> IsZero lastAt"
  shows "HeartbeatIsStale now lastAt policy \<longleftrightarrow>
    er_Transition (EvaluateMonitoringInstanceHeartbeatMissing None mid now (Some lastAt) policy receipts)
      = TransitionStarted"
proof (cases "validHeartbeatIncidentPolicy policy")
  case False
  thus ?thesis
    by (simp add: HeartbeatIsStale_def EvaluateMonitoringInstanceHeartbeatMissing_def noop_def)
next
  case True
  note P = policy_thresholds [OF True]
  let ?m = "heartbeatMissedIntervals now lastAt (hbp_HeartbeatInterval policy)"
  have "snd (snd (heartbeatSeverity ?m (hbp_MissingThreshold policy))) \<longleftrightarrow> hbp_MissingThreshold policy \<le> ?m"
    using P(5) by (auto simp: heartbeatSeverity_def P(1,2) Let_def)
  thus ?thesis
    using assms True
    by (auto simp: HeartbeatIsStale_def EvaluateMonitoringInstanceHeartbeatMissing_def noop_def
        evaluateTransition_transition split: prod.splits)
qed

theorem HeartbeatIsStale_agrees_witness:
  "HeartbeatIsStale (400 * second) (10 * second) sample_policy \<and>
   er_Transition (EvaluateMonitoringInstanceHeartbeatMissing None ''mi'' (400 * second)
     (Some (10 * second)) sample_policy []) = TransitionStarted"
proof -
  have stale: "HeartbeatIsStale (400 * second) (10 * second) sample_policy" by code_simp
  have "\<not> IsZero (10 * second)" by code_simp
  with stale show ?thesis
    using HeartbeatIsStale_agrees [of "10 * second" "400 * second" sample_policy "''mi''" "[]"] by blast
qed

section \<open>Heartbeat recovery\<close>

lemma latestByBatch_sound:
  "map_of (latestByBatch st rs m) b = Some t \<Longrightarrow>
   map_of m b = Some t \<or>
   (\<exists>r\<in>set rs. TrimSpace (lr_SyncBatchID r) = b \<and> b \<noteq> [] \<and> lr_ReceivedAt r = t \<and> st < t)"
proof (induction rs arbitrary: m)
  case (Cons r rs)
  let ?m = "AList.update (TrimSpace (lr_SyncBatchID r)) (lr_ReceivedAt r) m"
  show ?case
  proof (cases "TrimSpace (lr_SyncBatchID r) = [] \<or> \<not> time_After (lr_ReceivedAt r) st")
    case True
    thus ?thesis using Cons by (auto simp: Let_def)
  next
    case False
    hence st: "st < lr_ReceivedAt r" by (simp add: time_After_def)
    have "map_of (latestByBatch st rs m) b = Some t \<or> map_of (latestByBatch st rs ?m) b = Some t"
      using Cons.prems False by (auto simp: Let_def split: option.splits if_splits)
    thus ?thesis
      using Cons.IH [of m] Cons.IH [of ?m] False st
      by (auto simp: update_conv split: if_splits)
  qed
qed simp

lemma latestByBatch_distinct:
  "distinct (map fst m) \<Longrightarrow> distinct (map fst (latestByBatch st rs m))"
  by (induction st rs m rule: latestByBatch.induct)
    (auto simp: Let_def distinct_update split: option.splits)

lemma latestByBatch_entry:
  assumes "(b, t) \<in> set (latestByBatch st rs [])"
  shows "\<exists>r\<in>set rs. TrimSpace (lr_SyncBatchID r) = b \<and> b \<noteq> [] \<and> lr_ReceivedAt r = t \<and> st < t"
  using latestByBatch_sound [of st rs "[]" b t] map_of_is_SomeI [OF latestByBatch_distinct assms]
  by simp

lemma length_three: "length xs = 3 \<Longrightarrow> \<exists>a b c. xs = [a, b, c]"
  by (auto simp: numeral_3_eq_3 length_Suc_conv)

lemma stable_evidence_three:
  assumes "hasStableHeartbeatRecoveryEvidence (Some p) policy receipts"
    and "validHeartbeatIncidentPolicy policy"
  shows "\<exists>b1 t1 b2 t2 b3 t3.
    {(b1, t1), (b2, t2), (b3, t3)} \<subseteq> set (latestByBatch (inc_StartedAt p) receipts []) \<and>
    distinct [b1, b2, b3] \<and> t1 \<le> t2 \<and> t2 \<le> t3 \<and>
    gaps_within (hbp_RecoveryMaxIntervalGap policy) [t1, t2, t3]"
proof -
  let ?L = "latestByBatch (inc_StartedAt p) receipts []"
  let ?D = "take 3 (SliceStable (\<lambda>a b. time_After (snd a) (snd b)) ?L)"
  let ?U = "SliceStable (\<lambda>a b. time_Before (snd a) (snd b)) ?D"
  have rs: "hbp_RecoverySuccesses policy = 3" using policy_thresholds [OF assms(2)] by simp
  have len: "3 \<le> length ?L"
    and gaps: "gaps_within (hbp_RecoveryMaxIntervalGap policy) (map snd ?U)"
    using assms(1)
    by (auto simp: hasStableHeartbeatRecoveryEvidence_def rs Let_def SliceStable_map take_map
        split: if_splits)
  have "length ?U = 3" using len by simp
  then obtain e1 e2 e3 where U: "?U = [e1, e2, e3]"
    using length_three by blast
  have sub: "mset ?U \<subseteq># mset ?L"
    by (metis mset_SliceStable mset_append append_take_drop_id mset_subset_eq_add_left)
  hence "image_mset fst (mset ?U) \<subseteq># image_mset fst (mset ?L)" by (rule image_mset_subseteq_mono)
  moreover have "distinct (map fst ?L)" by (rule latestByBatch_distinct) simp
  ultimately have dist: "distinct (map fst ?U)"
    using distinct_submset [of "map fst ?U" "map fst ?L"] unfolding mset_map by blast
  have "in_order (\<lambda>a b. time_Before (snd a) (snd b)) ?U"
    using go_less.in_order_SliceStable [OF go_less_key [of snd]] by (simp add: time_Before_def)
  hence "snd e1 \<le> snd e2" "snd e2 \<le> snd e3"
    unfolding U by (simp_all add: in_order_def time_Before_def not_less)
  moreover have "{e1, e2, e3} \<subseteq> set ?L"
    using set_mset_mono [OF sub] unfolding U by simp
  ultimately show ?thesis
    using dist gaps unfolding U
    by (intro exI [of _ "fst e1"] exI [of _ "snd e1"] exI [of _ "fst e2"] exI [of _ "snd e2"]
        exI [of _ "fst e3"] exI [of _ "snd e3"]) simp
qed

text \<open>
  (C2) A heartbeat incident recovers only on stable evidence: the instance is below the missing
  threshold, and three receipts with different non-blank batch ids, all received after the incident
  started, follow each other within twice the heartbeat interval.
\<close>

theorem heartbeat_recovery_sound:
  assumes "er_Transition (EvaluateMonitoringInstanceHeartbeatMissing prev mid now lastAt policy receipts)
    = TransitionRecovered"
  shows "\<exists>p l r1 r2 r3. prev = Some p \<and> lastAt = Some l \<and> {r1, r2, r3} \<subseteq> set receipts \<and>
    distinct (map (\<lambda>r. TrimSpace (lr_SyncBatchID r)) [r1, r2, r3]) \<and>
    [] \<notin> set (map (\<lambda>r. TrimSpace (lr_SyncBatchID r)) [r1, r2, r3]) \<and>
    inc_StartedAt p < lr_ReceivedAt r1 \<and>
    lr_ReceivedAt r1 \<le> lr_ReceivedAt r2 \<and> lr_ReceivedAt r2 \<le> lr_ReceivedAt r3 \<and>
    time_Sub (lr_ReceivedAt r2) (lr_ReceivedAt r1) \<le> 2 * hbp_HeartbeatInterval policy \<and>
    time_Sub (lr_ReceivedAt r3) (lr_ReceivedAt r2) \<le> 2 * hbp_HeartbeatInterval policy \<and>
    heartbeatMissedIntervals now l (hbp_HeartbeatInterval policy) < hbp_MissingThreshold policy"
proof -
  obtain l where l: "lastAt = Some l" and pol: "validHeartbeatIncidentPolicy policy"
    using assms
    by (auto simp: EvaluateMonitoringInstanceHeartbeatMissing_def noop_def split: option.splits if_splits)
  obtain s summary active where sev: "heartbeatSeverity
      (heartbeatMissedIntervals now l (hbp_HeartbeatInterval policy))
      (hbp_MissingThreshold policy) = (s, summary, active)" by (metis prod_cases3)
  have "\<not> active" and ev: "hasStableHeartbeatRecoveryEvidence prev policy receipts"
    using assms pol
    by (auto simp: EvaluateMonitoringInstanceHeartbeatMissing_def noop_def l sev
        evaluateTransition_transition split: option.splits if_splits)
  hence below: "heartbeatMissedIntervals now l (hbp_HeartbeatInterval policy) < hbp_MissingThreshold policy"
    using sev policy_thresholds [OF pol]
    by (auto simp: heartbeatSeverity_def Let_def split: if_splits)
  obtain p where p: "prev = Some p"
    using ev by (auto simp: hasStableHeartbeatRecoveryEvidence_def split: option.splits)
  obtain b1 t1 b2 t2 b3 t3 where
    E: "{(b1, t1), (b2, t2), (b3, t3)} \<subseteq> set (latestByBatch (inc_StartedAt p) receipts [])"
    and D: "distinct [b1, b2, b3]" "t1 \<le> t2" "t2 \<le> t3"
    and G: "gaps_within (hbp_RecoveryMaxIntervalGap policy) [t1, t2, t3]"
    using stable_evidence_three [OF _ pol] ev p by meson
  obtain r1 where "r1 \<in> set receipts" "TrimSpace (lr_SyncBatchID r1) = b1" "b1 \<noteq> []"
    "lr_ReceivedAt r1 = t1" "inc_StartedAt p < t1"
    using latestByBatch_entry [of b1 t1] E by auto
  moreover obtain r2 where "r2 \<in> set receipts" "TrimSpace (lr_SyncBatchID r2) = b2" "b2 \<noteq> []"
    "lr_ReceivedAt r2 = t2"
    using latestByBatch_entry [of b2 t2] E by auto
  moreover obtain r3 where "r3 \<in> set receipts" "TrimSpace (lr_SyncBatchID r3) = b3" "b3 \<noteq> []"
    "lr_ReceivedAt r3 = t3"
    using latestByBatch_entry [of b3 t3] E by auto
  ultimately show ?thesis
    using D G p l below policy_thresholds(3) [OF pol]
    by (intro exI [of _ p] exI [of _ l] exI [of _ r1] exI [of _ r2] exI [of _ r3]) simp
qed

lemma AList_update_fresh: "k \<notin> fst ` set al \<Longrightarrow> AList.update k v al = al @ [(k, v)]"
  by (induction al) auto

lemma insort_less_front: "(\<And>y. y \<in> set ys \<Longrightarrow> \<not> lt y x) \<Longrightarrow> insort_less lt x ys = x # ys"
  by (cases ys) auto

lemma latestByBatch_descending:
  assumes "sorted_wrt (\<lambda>a b. lr_ReceivedAt b \<le> lr_ReceivedAt a) rs"
    and "\<And>b t r. (b, t) \<in> set m \<Longrightarrow> r \<in> set rs \<Longrightarrow> lr_ReceivedAt r \<le> t"
  shows "\<exists>ex. latestByBatch st rs m = m @ ex \<and> snd ` set ex \<subseteq> lr_ReceivedAt ` set rs"
  using assms
proof (induction rs arbitrary: m)
  case (Cons r rs)
  let ?b = "TrimSpace (lr_SyncBatchID r)"
  show ?case
  proof (cases "?b = [] \<or> \<not> time_After (lr_ReceivedAt r) st \<or> ?b \<in> fst ` set m")
    case True
    have "latestByBatch st (r # rs) m = latestByBatch st rs m"
    proof (cases "map_of m ?b")
      case None
      thus ?thesis using True by (auto simp: map_of_eq_None_iff Let_def)
    next
      case (Some t)
      hence "lr_ReceivedAt r \<le> t" using Cons.prems(2) [OF map_of_SomeD [OF Some]] by simp
      thus ?thesis using Some by (auto simp: Let_def time_After_def)
    qed
    moreover obtain ex where "latestByBatch st rs m = m @ ex" "snd ` set ex \<subseteq> lr_ReceivedAt ` set rs"
      using Cons.IH [of m] Cons.prems by auto
    ultimately show ?thesis by (intro exI [of _ ex]) auto
  next
    case False
    let ?m = "m @ [(?b, lr_ReceivedAt r)]"
    have new: "latestByBatch st (r # rs) m = latestByBatch st rs ?m"
    proof -
      have "map_of m ?b = None" using False by (simp add: map_of_eq_None_iff)
      thus ?thesis using False by (simp add: Let_def AList_update_fresh)
    qed
    have "\<exists>ex. latestByBatch st rs ?m = ?m @ ex \<and> snd ` set ex \<subseteq> lr_ReceivedAt ` set rs"
      by (rule Cons.IH) (use Cons.prems in auto)
    then obtain ex where "latestByBatch st rs ?m = ?m @ ex" "snd ` set ex \<subseteq> lr_ReceivedAt ` set rs"
      by blast
    thus ?thesis using new by (intro exI [of _ "(?b, lr_ReceivedAt r) # ex"]) auto
  qed
qed simp

lemma latest_three:
  assumes "t2 \<le> t1" and "t3 \<le> t2" and "\<And>t. t \<in> set vs \<Longrightarrow> t \<le> t3"
  shows "SliceStable time_Before (take 3 (SliceStable time_After (t1 # t2 # t3 # vs))) = [t3, t2, t1]"
proof -
  have vs: "\<And>t. t \<in> set (SliceStable time_After vs) \<Longrightarrow> t \<le> t3" using assms(3) by simp
  have "SliceStable time_After (t1 # t2 # t3 # vs) =
      insort_less time_After t1 (insort_less time_After t2 (insort_less time_After t3
        (SliceStable time_After vs)))"
    by (simp add: SliceStable_def)
  also have "insort_less time_After t3 (SliceStable time_After vs) = t3 # SliceStable time_After vs"
    using vs by (intro insort_less_front) (auto simp: time_After_def not_less)
  also have "insort_less time_After t2 \<dots> = t2 # t3 # SliceStable time_After vs"
    using assms(2) by (simp add: time_After_def)
  also have "insort_less time_After t1 \<dots> = t1 # t2 # t3 # SliceStable time_After vs"
    using assms(1) by (simp add: time_After_def)
  finally have "take 3 (SliceStable time_After (t1 # t2 # t3 # vs)) = [t1, t2, t3]" by simp
  moreover have "SliceStable time_Before [t1, t2, t3] = [t3, t2, t1]"
    by (rule before_order.in_order_unique [OF before_order.in_order_SliceStable])
      (use assms(1,2) in \<open>auto simp: in_order_def time_Before_def\<close>)
  ultimately show ?thesis by simp
qed

text \<open>
  (C3) Recovery is reached: once the instance is below the missing threshold and the three newest
  receipts, listed newest first as the reader delivers them, come from different non-blank batches
  after the start of the incident with gaps of at most twice the interval, the next evaluation
  closes the incident.
\<close>

theorem heartbeat_recovers:
  assumes pol: "validHeartbeatIncidentPolicy policy"
    and below: "heartbeatMissedIntervals now l (hbp_HeartbeatInterval policy) < hbp_MissingThreshold policy"
    and start: "\<not> IsZero (inc_StartedAt p)" "inc_StartedAt p < lr_ReceivedAt r3"
    and ids: "distinct (map (\<lambda>r. TrimSpace (lr_SyncBatchID r)) [r1, r2, r3])"
      "[] \<notin> set (map (\<lambda>r. TrimSpace (lr_SyncBatchID r)) [r1, r2, r3])"
    and newest_first: "sorted_wrt (\<lambda>a b. lr_ReceivedAt b \<le> lr_ReceivedAt a) (r1 # r2 # r3 # rest)"
    and gaps: "lr_ReceivedAt r1 - lr_ReceivedAt r2 \<le> 2 * hbp_HeartbeatInterval policy"
      "lr_ReceivedAt r2 - lr_ReceivedAt r3 \<le> 2 * hbp_HeartbeatInterval policy"
  shows "er_Transition (EvaluateMonitoringInstanceHeartbeatMissing (Some p) mid now (Some l) policy
    (r1 # r2 # r3 # rest)) = TransitionRecovered"
proof -
  let ?b = "\<lambda>r. TrimSpace (lr_SyncBatchID r)" and ?t = lr_ReceivedAt
  note P = policy_thresholds [OF pol]
  have order: "?t r2 \<le> ?t r1" "?t r3 \<le> ?t r2" "\<And>r. r \<in> set rest \<Longrightarrow> ?t r \<le> ?t r3"
    using newest_first by auto
  let ?m = "[(?b r1, ?t r1), (?b r2, ?t r2), (?b r3, ?t r3)]"
  have latest3: "latestByBatch (inc_StartedAt p) (r1 # r2 # r3 # rest) [] =
      latestByBatch (inc_StartedAt p) rest ?m"
  proof -
    have "?b r1 \<noteq> []" "?b r2 \<noteq> []" "?b r3 \<noteq> []" "?b r2 \<noteq> ?b r1" "?b r3 \<noteq> ?b r1" "?b r3 \<noteq> ?b r2"
      using ids by auto
    moreover have "time_After (?t r1) (inc_StartedAt p)" "time_After (?t r2) (inc_StartedAt p)"
      "time_After (?t r3) (inc_StartedAt p)"
      using start(2) order by (auto simp: time_After_def)
    ultimately show ?thesis by (simp add: Let_def)
  qed
  have "\<exists>ex. latestByBatch (inc_StartedAt p) rest ?m = ?m @ ex \<and> snd ` set ex \<subseteq> ?t ` set rest"
    by (rule latestByBatch_descending) (use newest_first in auto)
  then obtain ex where ex: "latestByBatch (inc_StartedAt p) rest ?m = ?m @ ex"
    "snd ` set ex \<subseteq> ?t ` set rest" by blast
  have le3: "\<And>t. t \<in> set (map snd ex) \<Longrightarrow> t \<le> ?t r3" using ex(2) order(3) by auto
  have top: "SliceStable time_Before (take 3 (SliceStable time_After (map snd (?m @ ex)))) =
      [?t r3, ?t r2, ?t r1]"
    using latest_three [OF order(1,2), of "map snd ex"] le3 by simp
  have "gaps_within (hbp_RecoveryMaxIntervalGap policy)
      (SliceStable time_Before (take 3 (SliceStable time_After (map snd (?m @ ex)))))"
    unfolding top using gaps P(3,4) by (simp add: time_Sub_def minInt64_def min_le_iff_disj)
  hence "hasStableHeartbeatRecoveryEvidence (Some p) policy (r1 # r2 # r3 # rest)"
    using start(1) by (simp add: hasStableHeartbeatRecoveryEvidence_def P(6) latest3 ex(1) Let_def
        del: latestByBatch.simps)
  moreover have "\<not> snd (snd (heartbeatSeverity
      (heartbeatMissedIntervals now l (hbp_HeartbeatInterval policy)) (hbp_MissingThreshold policy)))"
    using below P(5) by (simp add: heartbeatSeverity_def P(1,2) Let_def)
  ultimately show ?thesis
    using pol
    by (auto simp: EvaluateMonitoringInstanceHeartbeatMissing_def recoverIfNeeded_transition
        split: prod.splits)
qed

definition sample_incident :: "IncidentClass \<Rightarrow> Severity \<Rightarrow> IncidentRecord" where
  "sample_incident cls sev =
     \<lparr> inc_IncidentID = incidentID ObjectTypeMonitoringInstance ''mi'' cls,
       inc_ObjectType = ObjectTypeMonitoringInstance, inc_ObjectID = ''mi'',
       inc_IncidentClass = cls, inc_Severity = sev,
       inc_StartedAt = 10 * second, inc_LastEvaluatedAt = 10 * second,
       inc_Status = IncidentStatusActive, inc_SourceSummary = [] \<rparr>"

definition sample_receipts :: "LiveHeartbeatReceipt list" where
  "sample_receipts =
     [\<lparr> lr_SyncBatchID = ''c'', lr_ReceivedAt = 300 * second \<rparr>,
      \<lparr> lr_SyncBatchID = '' b '', lr_ReceivedAt = 240 * second \<rparr>,
      \<lparr> lr_SyncBatchID = ''a'', lr_ReceivedAt = 180 * second \<rparr>]"

lemma sample_receipts_latest:
  "latestByBatch (10 * second) sample_receipts [] =
     [(''c'', 300 * second), (''b'', 240 * second), (''a'', 180 * second)]"
  by (simp add: sample_receipts_def Let_def time_After_def duration_defs TrimSpace_ascii
      trim_list_def IsSpace_def)

lemma sample_receipts_stable:
  "hasStableHeartbeatRecoveryEvidence (Some (sample_incident cls sev)) sample_policy sample_receipts"
proof -
  have "int (length sample_receipts) = 3" by (simp add: sample_receipts_def)
  thus ?thesis
    using sample_receipts_latest
    by (simp add: hasStableHeartbeatRecoveryEvidence_def sample_incident_def sample_policy_def
        IsZero_def zeroTime_def SliceStable_def time_After_def time_Before_def time_Sub_def
        minInt64_def maxInt64_def duration_defs Let_def)
qed

theorem heartbeat_recovery_sound_witness:
  "\<exists>p r1 r2 r3. p = sample_incident IncidentMonitoringInstanceHeartbeatMissing SeverityNotice \<and>
     {r1, r2, r3} \<subseteq> set sample_receipts \<and> inc_StartedAt p < lr_ReceivedAt r1 \<and>
     lr_ReceivedAt r1 \<le> lr_ReceivedAt r2 \<and> lr_ReceivedAt r2 \<le> lr_ReceivedAt r3"
proof -
  have "heartbeatMissedIntervals (320 * second) (300 * second) (hbp_HeartbeatInterval sample_policy) = 0"
    by code_simp
  hence "heartbeatSeverity (heartbeatMissedIntervals (320 * second) (300 * second)
      (hbp_HeartbeatInterval sample_policy)) (hbp_MissingThreshold sample_policy) = (SeverityNormal, [], False)"
    by (simp add: heartbeatSeverity_def sample_policy_def wrap64_def)
  hence "er_Transition (EvaluateMonitoringInstanceHeartbeatMissing
      (Some (sample_incident IncidentMonitoringInstanceHeartbeatMissing SeverityNotice)) ''mi''
      (320 * second) (Some (300 * second)) sample_policy sample_receipts) = TransitionRecovered"
    using sample_policy_valid sample_receipts_stable
    by (simp add: EvaluateMonitoringInstanceHeartbeatMissing_def recoverIfNeeded_transition)
  from heartbeat_recovery_sound [OF this] show ?thesis by blast
qed

theorem heartbeat_recovers_witness:
  "er_Transition (EvaluateMonitoringInstanceHeartbeatMissing
     (Some (sample_incident IncidentMonitoringInstanceHeartbeatMissing SeverityNotice)) ''mi''
     (320 * second) (Some (300 * second)) sample_policy sample_receipts) = TransitionRecovered"
  unfolding sample_receipts_def
proof (rule heartbeat_recovers [OF sample_policy_valid])
  show "heartbeatMissedIntervals (320 * second) (300 * second) (hbp_HeartbeatInterval sample_policy)
      < hbp_MissingThreshold sample_policy" by code_simp
qed (simp_all add: sample_incident_def sample_policy_def IsZero_def zeroTime_def duration_defs
    TrimSpace_ascii trim_list_def IsSpace_def)

end
