(* ===== verification/Settings_Model.thy ===== *)
theory Settings_Model
  imports Incident_Transitions
begin

text \<open>
  The center settings of \<open>internal/center/settings\<close>: the settings records, the built-in defaults,
  the resolution of deployment values and label overrides, and \<open>Validate\<close> with its parts.  A rejected
  input is \<open>Inl\<close> with the message that Go wraps in \<open>ErrInvalidSettings\<close>.  A nil slice and an empty
  one are told apart only for the services of the IP quality settings, where the code does.
\<close>

section \<open>Settings\<close>

type_synonym ConfigSource = string

definition ConfigSourceDefault :: ConfigSource where "ConfigSourceDefault = ''default''"
definition ConfigSourceDeployment :: ConfigSource where "ConfigSourceDeployment = ''deployment''"
definition ConfigSourceDatabase :: ConfigSource where "ConfigSourceDatabase = ''database''"

definition maxIncidentDurationSeconds :: int where
  "maxIncidentDurationSeconds = quot maxInt64 second"

definition maxHeartbeatIntervalSeconds :: int where
  "maxHeartbeatIntervalSeconds = quot maxIncidentDurationSeconds 2"

record TelegramSettings =
  tg_BotToken       :: string
  tg_ChatID         :: string
  tg_RuntimeManaged :: bool

record ProbeFrequencyDefaults =
  pf_TCP  :: string
  pf_HTTP :: string
  pf_TLS  :: string

record IncidentDefaults =
  idf_HeartbeatIntervalSeconds :: int
  idf_StaleThresholdIntervals  :: int
  idf_SweepIntervalSeconds     :: int
  idf_NotifyOnStarted          :: bool
  idf_NotifyOnEscalated        :: bool
  idf_NotifyOnRecovered        :: bool
  idf_CPUWarningPct            :: int
  idf_CPUAlertPct              :: int
  idf_CPUCriticalPct           :: int
  idf_MemWarningPct            :: int
  idf_MemAlertPct              :: int
  idf_MemCriticalPct           :: int
  idf_DiskWarningPct           :: int
  idf_DiskAlertPct             :: int
  idf_DiskCriticalPct          :: int
  idf_InodeWarningPct          :: int
  idf_InodeAlertPct            :: int
  idf_InodeCriticalPct         :: int
  idf_IOWaitWarningPct         :: int
  idf_IOWaitCriticalPct        :: int
  idf_Load5Warning             :: f64
  idf_Load5Critical            :: f64

record RetentionPolicy =
  rp_RawLayerDays       :: int
  rp_AggregateLayerDays :: int

record SubscriptionCostSettings =
  sc_BaseCurrency                :: string
  sc_ExchangeRateProvider        :: string
  sc_FixerAPIKey                 :: string
  sc_DefaultReminderOffsetsDays  :: "int list"
  sc_MaxReminderLeadDays         :: int
  sc_ExchangeRateStaleAfterHours :: int

record IPQualitySources =
  iqs_IPAPIISKey        :: string
  iqs_AbuseIPDBKey      :: string
  iqs_MaxMindAccountID  :: string
  iqs_MaxMindLicenseKey :: string

record IPQualitySettings =
  iqt_Enabled           :: bool
  iqt_FrequencySeconds  :: int
  iqt_StaleAfterSeconds :: int
  iqt_TimeoutSeconds    :: int
  iqt_Services          :: "string list option"
  iqt_MailEnabled       :: bool
  iqt_Sources           :: IPQualitySources

record ProbeFrequencyOverride =
  pfo_TCP  :: "string option"
  pfo_HTTP :: "string option"
  pfo_TLS  :: "string option"

record IncidentDefaultsOverride =
  ido_HeartbeatIntervalSeconds :: "int option"
  ido_StaleThresholdIntervals  :: "int option"
  ido_SweepIntervalSeconds     :: "int option"
  ido_NotifyOnStarted          :: "bool option"
  ido_NotifyOnEscalated        :: "bool option"
  ido_NotifyOnRecovered        :: "bool option"
  ido_CPUWarningPct            :: "int option"
  ido_CPUAlertPct              :: "int option"
  ido_CPUCriticalPct           :: "int option"
  ido_MemWarningPct            :: "int option"
  ido_MemAlertPct              :: "int option"
  ido_MemCriticalPct           :: "int option"
  ido_DiskWarningPct           :: "int option"
  ido_DiskAlertPct             :: "int option"
  ido_DiskCriticalPct          :: "int option"
  ido_InodeWarningPct          :: "int option"
  ido_InodeAlertPct            :: "int option"
  ido_InodeCriticalPct         :: "int option"
  ido_IOWaitWarningPct         :: "int option"
  ido_IOWaitCriticalPct        :: "int option"
  ido_Load5Warning             :: "f64 option"
  ido_Load5Critical            :: "f64 option"

record SettingsOverrideFields =
  sof_HostSampleFrequencyTier :: "string option"
  sof_ProbeFrequencyDefaults  :: "ProbeFrequencyOverride option"
  sof_IncidentDefaults        :: "IncidentDefaultsOverride option"

record MonitoringInstanceLabelOverrideRule =
  mlr_Label     :: string
  mlr_Overrides :: SettingsOverrideFields

record TargetTypeOverrideRule =
  ttr_TargetType :: string
  ttr_Overrides  :: SettingsOverrideFields

record TargetLabelOverrideRule =
  tlr_Label     :: string
  tlr_Overrides :: SettingsOverrideFields

record OverrideRules =
  ovr_MonitoringInstanceLabels :: "MonitoringInstanceLabelOverrideRule list"
  ovr_TargetTypes              :: "TargetTypeOverrideRule list"
  ovr_TargetLabels             :: "TargetLabelOverrideRule list"

record EffectiveSettingsMetadata =
  esm_Persisted           :: bool
  esm_TelegramSource      :: ConfigSource
  esm_IncidentSweepSource :: ConfigSource

record NotificationSettings =
  nst_Telegram         :: TelegramSettings
  nst_FeishuEnabled    :: bool
  nst_FeishuWebhookURL :: string

record DeploymentDefaults =
  dpd_Telegram                     :: TelegramSettings
  dpd_IncidentSweepIntervalSeconds :: int
  dpd_IncidentSweepSource          :: ConfigSource

record CenterSettings =
  cst_Telegram                    :: TelegramSettings
  cst_FeishuEnabled               :: bool
  cst_FeishuWebhookURL            :: string
  cst_HostSampleFrequencyTier     :: string
  cst_ProbeFrequencyDefaults      :: ProbeFrequencyDefaults
  cst_IncidentDefaults            :: IncidentDefaults
  cst_IncidentSweepRuntimeManaged :: bool
  cst_Effective                   :: EffectiveSettingsMetadata
  cst_OverrideRules               :: OverrideRules
  cst_RetentionPolicy             :: RetentionPolicy
  cst_SubscriptionCost            :: SubscriptionCostSettings
  cst_IPQuality                   :: IPQualitySettings

definition Telegram_Enabled :: "TelegramSettings \<Rightarrow> bool" where
  "Telegram_Enabled t \<longleftrightarrow> TrimSpace (tg_BotToken t) \<noteq> [] \<and> TrimSpace (tg_ChatID t) \<noteq> []"

definition TargetTypeService :: string where "TargetTypeService = ''service''"
definition TargetTypeChinaReference :: string where "TargetTypeChinaReference = ''china_reference''"

definition IsValidTargetType :: "string \<Rightarrow> bool" where
  "IsValidTargetType targetType \<longleftrightarrow> targetType \<in> set [TargetTypeService, TargetTypeChinaReference]"

definition IsValidFrequencyTier :: "string \<Rightarrow> bool" where
  "IsValidFrequencyTier tier \<longleftrightarrow>
     tier \<in> set [FrequencyTier5s, FrequencyTier1m, FrequencyTier5m, FrequencyTier15m, FrequencyTier6h]"

section \<open>Defaults and resolution\<close>

definition SubscriptionExchangeRateProviderFrankfurter :: string where
  "SubscriptionExchangeRateProviderFrankfurter = ''frankfurter''"

definition SubscriptionExchangeRateProviderFixer :: string where
  "SubscriptionExchangeRateProviderFixer = ''fixer''"

definition defaultIPQualityServices :: "string list" where
  "defaultIPQualityServices =
     [''netflix'', ''chatgpt'', ''youtube-premium'', ''amazon-prime-video'', ''disney-plus'', ''tiktok'', ''reddit'']"

definition Default :: CenterSettings where
  "Default =
     \<lparr> cst_Telegram = \<lparr> tg_BotToken = [], tg_ChatID = [], tg_RuntimeManaged = False \<rparr>,
       cst_FeishuEnabled = False, cst_FeishuWebhookURL = [],
       cst_HostSampleFrequencyTier = FrequencyTier5s,
       cst_ProbeFrequencyDefaults =
         \<lparr> pf_TCP = FrequencyTier5s, pf_HTTP = FrequencyTier5s, pf_TLS = FrequencyTier6h \<rparr>,
       cst_IncidentDefaults =
         \<lparr> idf_HeartbeatIntervalSeconds = 5, idf_StaleThresholdIntervals = 12, idf_SweepIntervalSeconds = 5,
           idf_NotifyOnStarted = True, idf_NotifyOnEscalated = True, idf_NotifyOnRecovered = True,
           idf_CPUWarningPct = 80, idf_CPUAlertPct = 90, idf_CPUCriticalPct = 95,
           idf_MemWarningPct = 85, idf_MemAlertPct = 92, idf_MemCriticalPct = 95,
           idf_DiskWarningPct = 85, idf_DiskAlertPct = 92, idf_DiskCriticalPct = 97,
           idf_InodeWarningPct = 80, idf_InodeAlertPct = 90, idf_InodeCriticalPct = 95,
           idf_IOWaitWarningPct = 20, idf_IOWaitCriticalPct = 50,
           idf_Load5Warning = Fin 4, idf_Load5Critical = Fin 8 \<rparr>,
       cst_IncidentSweepRuntimeManaged = False,
       cst_Effective = \<lparr> esm_Persisted = False, esm_TelegramSource = [], esm_IncidentSweepSource = [] \<rparr>,
       cst_OverrideRules =
         \<lparr> ovr_MonitoringInstanceLabels = [], ovr_TargetTypes = [], ovr_TargetLabels = [] \<rparr>,
       cst_RetentionPolicy = \<lparr> rp_RawLayerDays = 30, rp_AggregateLayerDays = 365 \<rparr>,
       cst_SubscriptionCost =
         \<lparr> sc_BaseCurrency = ''CNY'', sc_ExchangeRateProvider = SubscriptionExchangeRateProviderFrankfurter,
           sc_FixerAPIKey = [], sc_DefaultReminderOffsetsDays = [14, 7, 1], sc_MaxReminderLeadDays = 30,
           sc_ExchangeRateStaleAfterHours = 36 \<rparr>,
       cst_IPQuality =
         \<lparr> iqt_Enabled = True, iqt_FrequencySeconds = 24 * 60 * 60, iqt_StaleAfterSeconds = 7 * 24 * 60 * 60,
           iqt_TimeoutSeconds = 60, iqt_Services = Some defaultIPQualityServices, iqt_MailEnabled = True,
           iqt_Sources = \<lparr> iqs_IPAPIISKey = [], iqs_AbuseIPDBKey = [], iqs_MaxMindAccountID = [],
             iqs_MaxMindLicenseKey = [] \<rparr> \<rparr> \<rparr>"

text \<open>\<open>time.Duration.Round\<close> for a positive unit: the nearest multiple, half away from zero, saturating.\<close>

definition Duration_Round :: "duration \<Rightarrow> duration \<Rightarrow> duration" where
  "Duration_Round d m =
     (if m \<le> 0 then d
      else if d < 0 then
        let r = (- d) mod m in
        if 2 * r < m then d + r else if minInt64 \<le> d - m + r then d - m + r else minInt64
      else
        let r = d mod m in
        if 2 * r < m then d - r else if d + m - r \<le> maxInt64 then d + m - r else maxInt64)"

definition NormalizeIncidentSweepInterval :: "duration \<Rightarrow> int" where
  "NormalizeIncidentSweepInterval interval =
     (let interval = (if interval \<le> 0 then 5 * second else interval);
          seconds = quot (Duration_Round interval second) second
      in if seconds \<le> 0 then 5 else seconds)"

definition coreMonitoringInstanceLabel :: string where
  "coreMonitoringInstanceLabel = (utf8 [0x6838, 0x5FC3])"

text \<open>The search of the loop: the index of the first rule with the label.\<close>

fun coreRuleIndex :: "nat \<Rightarrow> MonitoringInstanceLabelOverrideRule list \<Rightarrow> (nat \<times> MonitoringInstanceLabelOverrideRule) option" where
  "coreRuleIndex i [] = None"
| "coreRuleIndex i (rule # rules) =
     (if mlr_Label rule \<noteq> coreMonitoringInstanceLabel then coreRuleIndex (Suc i) rules else Some (i, rule))"

definition ensureLegacyCoreHostSampleOverride ::
    "MonitoringInstanceLabelOverrideRule list \<Rightarrow> MonitoringInstanceLabelOverrideRule list" where
  "ensureLegacyCoreHostSampleOverride rules =
     (case coreRuleIndex 0 rules of
        Some (i, rule) \<Rightarrow>
          if sof_HostSampleFrequencyTier (mlr_Overrides rule) \<noteq> None then rules
          else rules[i := rule\<lparr> mlr_Overrides :=
            (mlr_Overrides rule)\<lparr> sof_HostSampleFrequencyTier := Some FrequencyTier5s \<rparr> \<rparr>]
      | None \<Rightarrow>
          \<lparr> mlr_Label = coreMonitoringInstanceLabel,
            mlr_Overrides = \<lparr> sof_HostSampleFrequencyTier = Some FrequencyTier5s,
              sof_ProbeFrequencyDefaults = None, sof_IncidentDefaults = None \<rparr> \<rparr> # rules)"

definition FreshInstallDefaults :: CenterSettings where
  "FreshInstallDefaults =
     Default\<lparr> cst_OverrideRules := (cst_OverrideRules Default)
       \<lparr> ovr_MonitoringInstanceLabels := ensureLegacyCoreHostSampleOverride [] \<rparr> \<rparr>"

definition ResolveTelegram :: "TelegramSettings \<Rightarrow> TelegramSettings \<Rightarrow> TelegramSettings" where
  "ResolveTelegram stored deployment =
     (if tg_RuntimeManaged stored then stored else deployment\<lparr> tg_RuntimeManaged := False \<rparr>)"

definition ResolveEffectiveSettings :: "CenterSettings \<Rightarrow> DeploymentDefaults \<Rightarrow> CenterSettings" where
  "ResolveEffectiveSettings stored deployment =
     (let effective = stored\<lparr> cst_Telegram := ResolveTelegram (cst_Telegram stored) (dpd_Telegram deployment) \<rparr>;
          telegramSource =
            (if tg_RuntimeManaged (cst_Telegram effective) then ConfigSourceDatabase
             else if Telegram_Enabled (cst_Telegram effective) then ConfigSourceDeployment
             else ConfigSourceDefault);
          effective = effective\<lparr> cst_Effective :=
            (cst_Effective effective)\<lparr> esm_TelegramSource := telegramSource \<rparr> \<rparr>
      in if cst_IncidentSweepRuntimeManaged effective then
           effective\<lparr> cst_Effective := (cst_Effective effective)
             \<lparr> esm_IncidentSweepSource := ConfigSourceDatabase \<rparr> \<rparr>
         else
           let seconds = dpd_IncidentSweepIntervalSeconds deployment;
               seconds = (if seconds \<le> 0 then 5 else seconds);
               source = dpd_IncidentSweepSource deployment;
               source = (if source \<noteq> ConfigSourceDeployment then ConfigSourceDefault else source)
           in effective\<lparr>
                cst_IncidentDefaults := (cst_IncidentDefaults effective)\<lparr> idf_SweepIntervalSeconds := seconds \<rparr>,
                cst_Effective := (cst_Effective effective)\<lparr> esm_IncidentSweepSource := source \<rparr> \<rparr>)"

fun hostSampleTierOf :: "string \<Rightarrow> string list \<Rightarrow> MonitoringInstanceLabelOverrideRule list \<Rightarrow> string" where
  "hostSampleTierOf base labels [] = base"
| "hostSampleTierOf base labels (rule # rules) =
     (let matched = mlr_Label rule \<in> set labels in
      case sof_HostSampleFrequencyTier (mlr_Overrides rule) of
        None \<Rightarrow> hostSampleTierOf base labels rules
      | Some tier \<Rightarrow> if \<not> matched then hostSampleTierOf base labels rules else tier)"

definition ResolveHostSampleFrequencyTier :: "string \<Rightarrow> string list \<Rightarrow> OverrideRules \<Rightarrow> string" where
  "ResolveHostSampleFrequencyTier base labels rules =
     hostSampleTierOf base labels (ovr_MonitoringInstanceLabels rules)"

section \<open>Validation of the incident defaults\<close>

type_synonym 'a validated = "string + 'a"

definition maxIncidentThresholdIntervals :: int where
  "maxIncidentThresholdIntervals = quot maxInt64 4"

definition applyIntDefault :: "int \<Rightarrow> int \<Rightarrow> int" where
  "applyIntDefault dst defaultVal = (if dst = 0 then defaultVal else dst)"

definition fillThresholdDefaults :: "IncidentDefaults \<Rightarrow> IncidentDefaults" where
  "fillThresholdDefaults input =
     (let defaults = cst_IncidentDefaults Default in
      input\<lparr>
       idf_CPUWarningPct := applyIntDefault (idf_CPUWarningPct input) (idf_CPUWarningPct defaults),
       idf_CPUAlertPct := applyIntDefault (idf_CPUAlertPct input) (idf_CPUAlertPct defaults),
       idf_CPUCriticalPct := applyIntDefault (idf_CPUCriticalPct input) (idf_CPUCriticalPct defaults),
       idf_MemWarningPct := applyIntDefault (idf_MemWarningPct input) (idf_MemWarningPct defaults),
       idf_MemAlertPct := applyIntDefault (idf_MemAlertPct input) (idf_MemAlertPct defaults),
       idf_MemCriticalPct := applyIntDefault (idf_MemCriticalPct input) (idf_MemCriticalPct defaults),
       idf_DiskWarningPct := applyIntDefault (idf_DiskWarningPct input) (idf_DiskWarningPct defaults),
       idf_DiskAlertPct := applyIntDefault (idf_DiskAlertPct input) (idf_DiskAlertPct defaults),
       idf_DiskCriticalPct := applyIntDefault (idf_DiskCriticalPct input) (idf_DiskCriticalPct defaults),
       idf_InodeWarningPct := applyIntDefault (idf_InodeWarningPct input) (idf_InodeWarningPct defaults),
       idf_InodeAlertPct := applyIntDefault (idf_InodeAlertPct input) (idf_InodeAlertPct defaults),
       idf_InodeCriticalPct := applyIntDefault (idf_InodeCriticalPct input) (idf_InodeCriticalPct defaults),
       idf_IOWaitWarningPct := applyIntDefault (idf_IOWaitWarningPct input) (idf_IOWaitWarningPct defaults),
       idf_IOWaitCriticalPct := applyIntDefault (idf_IOWaitCriticalPct input) (idf_IOWaitCriticalPct defaults),
       idf_Load5Warning := (if f_eq (idf_Load5Warning input) (Fin 0) then idf_Load5Warning defaults
         else idf_Load5Warning input),
       idf_Load5Critical := (if f_eq (idf_Load5Critical input) (Fin 0) then idf_Load5Critical defaults
         else idf_Load5Critical input) \<rparr>)"

definition thresholdFields :: "IncidentDefaults \<Rightarrow> (string \<times> int) list" where
  "thresholdFields input =
     [(''cpu warning pct'', idf_CPUWarningPct input),
      (''cpu alert pct'', idf_CPUAlertPct input),
      (''cpu critical pct'', idf_CPUCriticalPct input),
      (''mem warning pct'', idf_MemWarningPct input),
      (''mem alert pct'', idf_MemAlertPct input),
      (''mem critical pct'', idf_MemCriticalPct input),
      (''disk warning pct'', idf_DiskWarningPct input),
      (''disk alert pct'', idf_DiskAlertPct input),
      (''disk critical pct'', idf_DiskCriticalPct input),
      (''inode warning pct'', idf_InodeWarningPct input),
      (''inode alert pct'', idf_InodeAlertPct input),
      (''inode critical pct'', idf_InodeCriticalPct input),
      (''iowait warning pct'', idf_IOWaitWarningPct input),
      (''iowait critical pct'', idf_IOWaitCriticalPct input)]"

definition threeLevelThresholds :: "IncidentDefaults \<Rightarrow> (string \<times> int \<times> int \<times> int) list" where
  "threeLevelThresholds input =
     [(''cpu'', idf_CPUWarningPct input, idf_CPUAlertPct input, idf_CPUCriticalPct input),
      (''mem'', idf_MemWarningPct input, idf_MemAlertPct input, idf_MemCriticalPct input),
      (''disk'', idf_DiskWarningPct input, idf_DiskAlertPct input, idf_DiskCriticalPct input),
      (''inode'', idf_InodeWarningPct input, idf_InodeAlertPct input, idf_InodeCriticalPct input)]"

definition validateIncidentThresholdOrder :: "string \<Rightarrow> IncidentDefaults \<Rightarrow> string option" where
  "validateIncidentThresholdOrder prefix input =
     (case find (\<lambda>(name, warning, alert, critical). \<not> (warning < alert \<and> alert < critical))
             (threeLevelThresholds input) of
        Some (name, _) \<Rightarrow> Some (prefix @ name @ '' thresholds must satisfy warning < alert < critical'')
      | None \<Rightarrow>
          if idf_IOWaitWarningPct input \<ge> idf_IOWaitCriticalPct input
          then Some (prefix @ ''iowait thresholds must satisfy warning < critical'')
          else if f_ge (idf_Load5Warning input) (idf_Load5Critical input)
          then Some (prefix @ ''load5 thresholds must satisfy warning < critical'')
          else None)"

definition validateIncidentDefaults :: "IncidentDefaults \<Rightarrow> IncidentDefaults validated" where
  "validateIncidentDefaults input =
     (if idf_HeartbeatIntervalSeconds input \<le> 0 then Inl ''heartbeat interval must be positive''
      else if idf_HeartbeatIntervalSeconds input > maxHeartbeatIntervalSeconds
      then Inl ''heartbeat interval exceeds safe duration''
      else if idf_StaleThresholdIntervals input \<le> 0 then Inl ''stale threshold intervals must be positive''
      else if idf_StaleThresholdIntervals input > maxIncidentThresholdIntervals
      then Inl ''stale threshold intervals exceed safe severity bounds''
      else if idf_SweepIntervalSeconds input \<le> 0 then Inl ''sweep interval must be positive''
      else if idf_SweepIntervalSeconds input > maxIncidentDurationSeconds
      then Inl ''sweep interval exceeds safe duration''
      else
        let input = fillThresholdDefaults input in
        (case find (\<lambda>(name, value). value < 1 \<or> value > 100) (thresholdFields input) of
           Some (name, _) \<Rightarrow> Inl (name @ '' must be between 1 and 100'')
         | None \<Rightarrow>
             if f_le (idf_Load5Warning input) (Fin 0) then Inl ''load5 warning must be positive''
             else if f_le (idf_Load5Critical input) (Fin 0) then Inl ''load5 critical must be positive''
             else (case validateIncidentThresholdOrder [] input of Some e \<Rightarrow> Inl e | None \<Rightarrow> Inr input)))"

definition ValidateIncidentDefaults :: "IncidentDefaults \<Rightarrow> IncidentDefaults validated" where
  "ValidateIncidentDefaults input = validateIncidentDefaults input"

section \<open>Validation of overrides\<close>

definition validateProbeFrequencyDefaults :: "ProbeFrequencyDefaults \<Rightarrow> ProbeFrequencyDefaults validated" where
  "validateProbeFrequencyDefaults input =
     (let input = \<lparr> pf_TCP = TrimSpace (pf_TCP input), pf_HTTP = TrimSpace (pf_HTTP input),
            pf_TLS = TrimSpace (pf_TLS input) \<rparr>
      in if \<not> IsValidFrequencyTier (pf_TCP input) \<or> \<not> IsValidFrequencyTier (pf_HTTP input) \<or>
            \<not> IsValidFrequencyTier (pf_TLS input)
         then Inl ''probe frequency defaults must use known tiers''
         else Inr input)"

definition validateProbeFrequencyOverride :: "ProbeFrequencyOverride \<Rightarrow> ProbeFrequencyOverride validated" where
  "validateProbeFrequencyOverride input =
     (let fields = [pfo_TCP input, pfo_HTTP input, pfo_TLS input] in
      if list_ex (\<lambda>f. case f of None \<Rightarrow> False | Some t \<Rightarrow> \<not> IsValidFrequencyTier (TrimSpace t)) fields
      then Inl ''probe frequency override must use known tiers''
      else if list_all (\<lambda>f. f = None) fields then Inl ''probe frequency override must set at least one kind''
      else Inr \<lparr> pfo_TCP = map_option TrimSpace (pfo_TCP input), pfo_HTTP = map_option TrimSpace (pfo_HTTP input),
        pfo_TLS = map_option TrimSpace (pfo_TLS input) \<rparr>)"

definition incidentDefaultsFromOverride :: "IncidentDefaultsOverride \<Rightarrow> IncidentDefaults \<Rightarrow> IncidentDefaults" where
  "incidentDefaultsFromOverride input defaults =
     defaults\<lparr>
       idf_CPUWarningPct := case_option (idf_CPUWarningPct defaults) (\<lambda>v. v) (ido_CPUWarningPct input),
       idf_CPUAlertPct := case_option (idf_CPUAlertPct defaults) (\<lambda>v. v) (ido_CPUAlertPct input),
       idf_CPUCriticalPct := case_option (idf_CPUCriticalPct defaults) (\<lambda>v. v) (ido_CPUCriticalPct input),
       idf_MemWarningPct := case_option (idf_MemWarningPct defaults) (\<lambda>v. v) (ido_MemWarningPct input),
       idf_MemAlertPct := case_option (idf_MemAlertPct defaults) (\<lambda>v. v) (ido_MemAlertPct input),
       idf_MemCriticalPct := case_option (idf_MemCriticalPct defaults) (\<lambda>v. v) (ido_MemCriticalPct input),
       idf_DiskWarningPct := case_option (idf_DiskWarningPct defaults) (\<lambda>v. v) (ido_DiskWarningPct input),
       idf_DiskAlertPct := case_option (idf_DiskAlertPct defaults) (\<lambda>v. v) (ido_DiskAlertPct input),
       idf_DiskCriticalPct := case_option (idf_DiskCriticalPct defaults) (\<lambda>v. v) (ido_DiskCriticalPct input),
       idf_InodeWarningPct := case_option (idf_InodeWarningPct defaults) (\<lambda>v. v) (ido_InodeWarningPct input),
       idf_InodeAlertPct := case_option (idf_InodeAlertPct defaults) (\<lambda>v. v) (ido_InodeAlertPct input),
       idf_InodeCriticalPct := case_option (idf_InodeCriticalPct defaults) (\<lambda>v. v) (ido_InodeCriticalPct input),
       idf_IOWaitWarningPct := case_option (idf_IOWaitWarningPct defaults) (\<lambda>v. v) (ido_IOWaitWarningPct input),
       idf_IOWaitCriticalPct := case_option (idf_IOWaitCriticalPct defaults) (\<lambda>v. v) (ido_IOWaitCriticalPct input),
       idf_Load5Warning := case_option (idf_Load5Warning defaults) (\<lambda>v. v) (ido_Load5Warning input),
       idf_Load5Critical := case_option (idf_Load5Critical defaults) (\<lambda>v. v) (ido_Load5Critical input) \<rparr>"

definition thresholdPtrs :: "IncidentDefaultsOverride \<Rightarrow> (string \<times> int option) list" where
  "thresholdPtrs input =
     [(''cpu warning pct'', ido_CPUWarningPct input),
      (''cpu alert pct'', ido_CPUAlertPct input),
      (''cpu critical pct'', ido_CPUCriticalPct input),
      (''mem warning pct'', ido_MemWarningPct input),
      (''mem alert pct'', ido_MemAlertPct input),
      (''mem critical pct'', ido_MemCriticalPct input),
      (''disk warning pct'', ido_DiskWarningPct input),
      (''disk alert pct'', ido_DiskAlertPct input),
      (''disk critical pct'', ido_DiskCriticalPct input),
      (''inode warning pct'', ido_InodeWarningPct input),
      (''inode alert pct'', ido_InodeAlertPct input),
      (''inode critical pct'', ido_InodeCriticalPct input),
      (''iowait warning pct'', ido_IOWaitWarningPct input),
      (''iowait critical pct'', ido_IOWaitCriticalPct input)]"

definition hasIncidentOverride :: "IncidentDefaultsOverride \<Rightarrow> bool" where
  "hasIncidentOverride input \<longleftrightarrow>
     ido_HeartbeatIntervalSeconds input \<noteq> None \<or> ido_StaleThresholdIntervals input \<noteq> None \<or>
     ido_SweepIntervalSeconds input \<noteq> None \<or>
     ido_NotifyOnStarted input \<noteq> None \<or> ido_NotifyOnEscalated input \<noteq> None \<or> ido_NotifyOnRecovered input \<noteq> None \<or>
     list_ex (\<lambda>(name, ptr). ptr \<noteq> None) (thresholdPtrs input) \<or>
     ido_Load5Warning input \<noteq> None \<or> ido_Load5Critical input \<noteq> None"

definition validateIncidentDefaultsOverride ::
    "IncidentDefaultsOverride \<Rightarrow> IncidentDefaults \<Rightarrow> IncidentDefaultsOverride validated" where
  "validateIncidentDefaultsOverride input incidentDefaults =
     (if case_option False (\<lambda>v. v \<le> 0) (ido_HeartbeatIntervalSeconds input)
      then Inl ''override heartbeat interval must be positive''
      else if case_option False (\<lambda>v. v > maxHeartbeatIntervalSeconds) (ido_HeartbeatIntervalSeconds input)
      then Inl ''override heartbeat interval exceeds safe duration''
      else if case_option False (\<lambda>v. v \<le> 0) (ido_StaleThresholdIntervals input)
      then Inl ''override stale threshold must be positive''
      else if case_option False (\<lambda>v. v > maxIncidentThresholdIntervals) (ido_StaleThresholdIntervals input)
      then Inl ''override stale threshold exceeds safe severity bounds''
      else if case_option False (\<lambda>v. v \<le> 0) (ido_SweepIntervalSeconds input)
      then Inl ''override sweep interval must be positive''
      else if case_option False (\<lambda>v. v > maxIncidentDurationSeconds) (ido_SweepIntervalSeconds input)
      then Inl ''override sweep interval exceeds safe duration''
      else
        (case find (\<lambda>(name, ptr). case_option False (\<lambda>v. v < 1 \<or> v > 100) ptr) (thresholdPtrs input) of
           Some (name, _) \<Rightarrow> Inl (''override '' @ name @ '' must be between 1 and 100'')
         | None \<Rightarrow>
             if case_option False (\<lambda>v. f_le v (Fin 0)) (ido_Load5Warning input)
             then Inl ''override load5 warning must be positive''
             else if case_option False (\<lambda>v. f_le v (Fin 0)) (ido_Load5Critical input)
             then Inl ''override load5 critical must be positive''
             else if \<not> hasIncidentOverride input then Inl ''incident override must set at least one field''
             else
               (case validateIncidentThresholdOrder ''override '' (incidentDefaultsFromOverride input incidentDefaults) of
                  Some e \<Rightarrow> Inl e
                | None \<Rightarrow> Inr input)))"

definition validateSettingsOverrideFields ::
    "SettingsOverrideFields \<Rightarrow> IncidentDefaults \<Rightarrow> SettingsOverrideFields validated" where
  "validateSettingsOverrideFields input incidentDefaults =
     (if case_option False (\<lambda>t. \<not> IsValidFrequencyTier (TrimSpace t)) (sof_HostSampleFrequencyTier input)
      then Inl ''override host sample frequency tier must be known''
      else
        (case (case sof_ProbeFrequencyDefaults input of None \<Rightarrow> Inr None
               | Some p \<Rightarrow> map_sum id Some (validateProbeFrequencyOverride p)) of
           Inl e \<Rightarrow> Inl e
         | Inr probe \<Rightarrow>
             (case (case sof_IncidentDefaults input of None \<Rightarrow> Inr None
                    | Some i \<Rightarrow> map_sum id Some (validateIncidentDefaultsOverride i incidentDefaults)) of
                Inl e \<Rightarrow> Inl e
              | Inr incident \<Rightarrow>
                  if sof_HostSampleFrequencyTier input = None \<and> probe = None \<and> incident = None
                  then Inl ''override rule must specify at least one override''
                  else Inr \<lparr> sof_HostSampleFrequencyTier = map_option TrimSpace (sof_HostSampleFrequencyTier input),
                    sof_ProbeFrequencyDefaults = probe, sof_IncidentDefaults = incident \<rparr>)))"

text \<open>
  The three loops of \<open>validateOverrideRules\<close> differ in the selector they check and set; \<open>selector\<close>
  returns the trimmed selector or the message that refuses it.
\<close>

fun validateRuleLoop ::
    "('r \<Rightarrow> string validated) \<Rightarrow> ('r \<Rightarrow> SettingsOverrideFields) \<Rightarrow> (string \<Rightarrow> SettingsOverrideFields \<Rightarrow> 'r) \<Rightarrow>
     string \<Rightarrow> IncidentDefaults \<Rightarrow> string list \<Rightarrow> 'r list \<Rightarrow> 'r list validated" where
  "validateRuleLoop selector overrides mk duplicate incidentDefaults seen [] = Inr []"
| "validateRuleLoop selector overrides mk duplicate incidentDefaults seen (rule # rules) =
     (case selector rule of
        Inl e \<Rightarrow> Inl e
      | Inr sel \<Rightarrow>
          if sel \<in> set seen then Inl duplicate
          else
            (case validateSettingsOverrideFields (overrides rule) incidentDefaults of
               Inl e \<Rightarrow> Inl e
             | Inr checked \<Rightarrow>
                 (case validateRuleLoop selector overrides mk duplicate incidentDefaults (sel # seen) rules of
                    Inl e \<Rightarrow> Inl e
                  | Inr rest \<Rightarrow> Inr (mk sel checked # rest))))"

definition monitoringInstanceLabelSelector :: "MonitoringInstanceLabelOverrideRule \<Rightarrow> string validated" where
  "monitoringInstanceLabelSelector rule =
     (let label = TrimSpace (mlr_Label rule) in
      if label = [] then Inl ''monitoringInstance label override label is required'' else Inr label)"

definition targetTypeSelector :: "TargetTypeOverrideRule \<Rightarrow> string validated" where
  "targetTypeSelector rule =
     (let targetType = TrimSpace (ttr_TargetType rule) in
      if \<not> IsValidTargetType targetType then Inl ''target type override target type is invalid''
      else Inr targetType)"

definition targetLabelSelector :: "TargetLabelOverrideRule \<Rightarrow> string validated" where
  "targetLabelSelector rule =
     (let label = TrimSpace (tlr_Label rule) in
      if label = [] then Inl ''target label override label is required'' else Inr label)"

definition validateOverrideRules :: "OverrideRules \<Rightarrow> IncidentDefaults \<Rightarrow> OverrideRules validated" where
  "validateOverrideRules input incidentDefaults =
     (case validateRuleLoop monitoringInstanceLabelSelector mlr_Overrides
             (\<lambda>l o'. \<lparr> mlr_Label = l, mlr_Overrides = o' \<rparr>)
             ''duplicate monitoringInstance label override selector'' incidentDefaults []
             (ovr_MonitoringInstanceLabels input) of
        Inl e \<Rightarrow> Inl e
      | Inr labels \<Rightarrow>
          (case validateRuleLoop targetTypeSelector ttr_Overrides
                  (\<lambda>l o'. \<lparr> ttr_TargetType = l, ttr_Overrides = o' \<rparr>)
                  ''duplicate target type override selector'' incidentDefaults [] (ovr_TargetTypes input) of
             Inl e \<Rightarrow> Inl e
           | Inr types \<Rightarrow>
               (case validateRuleLoop targetLabelSelector tlr_Overrides
                       (\<lambda>l o'. \<lparr> tlr_Label = l, tlr_Overrides = o' \<rparr>)
                       ''duplicate target label override selector'' incidentDefaults [] (ovr_TargetLabels input) of
                  Inl e \<Rightarrow> Inl e
                | Inr targetLabels \<Rightarrow>
                    Inr \<lparr> ovr_MonitoringInstanceLabels = labels, ovr_TargetTypes = types,
                      ovr_TargetLabels = targetLabels \<rparr>)))"

section \<open>Validation of the remaining parts\<close>

definition validateRetentionPolicy :: "RetentionPolicy \<Rightarrow> RetentionPolicy validated" where
  "validateRetentionPolicy input =
     (if rp_RawLayerDays input < 30 \<or> rp_RawLayerDays input > 365
      then Inl ''raw retention days must be between 30 and 365''
      else if rp_AggregateLayerDays input \<le> 0 then Inl ''aggregate retention days must be positive''
      else Inr input)"

text \<open>
  \<open>strings.ToUpper\<close> and \<open>strings.ToLower\<close> where the result is compared with ASCII text: besides the
  ASCII letters only the dotless i (U+0131) and the long s (U+017F) have an ASCII upper case, and only
  the dotted capital I (U+0130) and the Kelvin sign (U+212A) an ASCII lower case.  Other runes are kept,
  which the comparisons refuse as they refuse the letters Go maps them to.
\<close>

definition upperRune :: "nat \<Rightarrow> nat" where
  "upperRune r = (if 97 \<le> r \<and> r \<le> 122 then r - 32 else if r = 0x131 then 73 else if r = 0x17F then 83 else r)"

definition lowerRune :: "nat \<Rightarrow> nat" where
  "lowerRune r = (if 65 \<le> r \<and> r \<le> 90 then r + 32 else if r = 0x130 then 105 else if r = 0x212A then 107 else r)"

definition ToUpper :: "string \<Rightarrow> string" where
  "ToUpper s = utf8 (map upperRune (runes s))"

definition ToLower :: "string \<Rightarrow> string" where
  "ToLower s = utf8 (map lowerRune (runes s))"

definition isCurrencyCode :: "string \<Rightarrow> bool" where
  "isCurrencyCode value =
     (if length value \<noteq> 3 then False else list_all (\<lambda>ch. \<not> (ch < 65 \<or> ch > 90)) (runes value))"

definition int_descending :: "int \<Rightarrow> int \<Rightarrow> bool" where
  "int_descending a b \<longleftrightarrow> b < a"

definition normalizeReminderOffsets :: "int list \<Rightarrow> int list" where
  "normalizeReminderOffsets values = SliceStable int_descending (keep_first {} values)"

definition validateSubscriptionCostSettings :: "SubscriptionCostSettings \<Rightarrow> SubscriptionCostSettings validated" where
  "validateSubscriptionCostSettings input =
     (let defaults = cst_SubscriptionCost Default;
          currency = ToUpper (TrimSpace (sc_BaseCurrency input));
          currency = (if currency = [] then sc_BaseCurrency defaults else currency)
      in if \<not> isCurrencyCode currency then Inl ''subscription base currency must be a 3-letter uppercase code''
         else
           let provider = ToLower (TrimSpace (sc_ExchangeRateProvider input));
               provider = (if provider = [] then sc_ExchangeRateProvider defaults else provider)
           in if \<not> (provider = SubscriptionExchangeRateProviderFrankfurter \<or>
                     provider = SubscriptionExchangeRateProviderFixer)
              then Inl ''subscription exchange rate provider is invalid''
              else
                let lead = (if sc_MaxReminderLeadDays input = 0 then sc_MaxReminderLeadDays defaults
                      else sc_MaxReminderLeadDays input)
                in if lead < 1 \<or> lead > 365
                   then Inl ''subscription max reminder lead days must be between 1 and 365''
                   else
                     let offsets = normalizeReminderOffsets (sc_DefaultReminderOffsetsDays input);
                         offsets = (if offsets = [] then sc_DefaultReminderOffsetsDays defaults else offsets)
                     in (case find (\<lambda>offset. offset < 0 \<or> offset > lead) offsets of
                           Some offset \<Rightarrow>
                             if offset < 0 then Inl ''subscription reminder offsets must be non-negative''
                             else Inl ''subscription reminder offsets cannot exceed max reminder lead days''
                         | None \<Rightarrow>
                             let stale = (if sc_ExchangeRateStaleAfterHours input = 0
                                   then sc_ExchangeRateStaleAfterHours defaults
                                   else sc_ExchangeRateStaleAfterHours input)
                             in if stale < 1 \<or> stale > 24 * 14
                                then Inl ''subscription exchange rate stale hours must be between 1 and 336''
                                else Inr \<lparr> sc_BaseCurrency = currency, sc_ExchangeRateProvider = provider,
                                  sc_FixerAPIKey = TrimSpace (sc_FixerAPIKey input),
                                  sc_DefaultReminderOffsetsDays = offsets, sc_MaxReminderLeadDays = lead,
                                  sc_ExchangeRateStaleAfterHours = stale \<rparr>))"

definition validateMaxMindCredentials :: "IPQualitySources \<Rightarrow> string option" where
  "validateMaxMindCredentials sources =
     (let account = iqs_MaxMindAccountID sources; key = iqs_MaxMindLicenseKey sources in
      if (account = []) \<noteq> (key = []) then Some ''maxmind account and license key must be configured together''
      else if length account > 256 \<or> length key > 256 \<or>
              list_ex (\<lambda>c. of_char c \<in> set [0 :: nat, 13, 10]) key
      then Some ''invalid maxmind credentials''
      else if list_ex (\<lambda>c. c < 48 \<or> c > 57) (runes account) then Some ''invalid maxmind account id''
      else None)"

definition isZeroIPQualitySettings :: "IPQualitySettings \<Rightarrow> bool" where
  "isZeroIPQualitySettings input \<longleftrightarrow>
     \<not> iqt_Enabled input \<and> iqt_FrequencySeconds input = 0 \<and> iqt_StaleAfterSeconds input = 0 \<and>
     iqt_TimeoutSeconds input = 0 \<and> iqt_Services input \<in> set [None, Some []] \<and> \<not> iqt_MailEnabled input \<and>
     iqt_Sources input = \<lparr> iqs_IPAPIISKey = [], iqs_AbuseIPDBKey = [], iqs_MaxMindAccountID = [],
       iqs_MaxMindLicenseKey = [] \<rparr>"

fun normalizeServicesLoop :: "string list \<Rightarrow> string list \<Rightarrow> string list validated" where
  "normalizeServicesLoop seen [] = Inr []"
| "normalizeServicesLoop seen (value # values) =
     (let service = ToLower (TrimSpace value) in
      if service = [] then normalizeServicesLoop seen values
      else if service \<notin> set defaultIPQualityServices then Inl ''ip quality service is invalid''
      else if service \<in> set seen then normalizeServicesLoop seen values
      else map_sum id ((#) service) (normalizeServicesLoop (service # seen) values))"

definition normalizeIPQualityServices :: "string list \<Rightarrow> string list validated" where
  "normalizeIPQualityServices values = normalizeServicesLoop [] values"

definition validateIPQualitySettings :: "IPQualitySettings \<Rightarrow> IPQualitySettings validated" where
  "validateIPQualitySettings input =
     (let defaults = cst_IPQuality Default; sources = iqt_Sources input in
      if length (iqs_IPAPIISKey sources) > 256 \<or> length (iqs_AbuseIPDBKey sources) > 256
      then Inl ''ip quality source key must not exceed 256 bytes''
      else
        let sources = \<lparr> iqs_IPAPIISKey = TrimSpace (iqs_IPAPIISKey sources),
              iqs_AbuseIPDBKey = TrimSpace (iqs_AbuseIPDBKey sources),
              iqs_MaxMindAccountID = TrimSpace (iqs_MaxMindAccountID sources),
              iqs_MaxMindLicenseKey = TrimSpace (iqs_MaxMindLicenseKey sources) \<rparr>;
            input = input\<lparr> iqt_Sources := sources \<rparr>
        in (case validateMaxMindCredentials sources of
              Some e \<Rightarrow> Inl e
            | None \<Rightarrow>
                if isZeroIPQualitySettings input then Inr (defaults\<lparr> iqt_Enabled := False \<rparr>)
                else if iqt_FrequencySeconds input < 60
                then Inl ''ip quality frequency seconds must be at least 60''
                else
                  let input = (if iqt_StaleAfterSeconds input = 0
                        then input\<lparr> iqt_StaleAfterSeconds := iqt_StaleAfterSeconds defaults \<rparr> else input)
                  in if iqt_StaleAfterSeconds input < iqt_FrequencySeconds input
                     then Inl ''ip quality stale after seconds must be at least frequency seconds''
                     else if iqt_TimeoutSeconds input < 1 \<or> iqt_TimeoutSeconds input > 300
                     then Inl ''ip quality timeout seconds must be between 1 and 300''
                     else
                       (case (case iqt_Services input of
                                None \<Rightarrow> Inr defaultIPQualityServices
                              | Some values \<Rightarrow> normalizeIPQualityServices values) of
                          Inl e \<Rightarrow> Inl e
                        | Inr services \<Rightarrow>
                            if services = [] then Inl ''ip quality services must not be empty''
                            else Inr (input\<lparr> iqt_Services := Some services \<rparr>))))"

definition Validate :: "CenterSettings \<Rightarrow> CenterSettings validated" where
  "Validate input =
     (let input = input\<lparr>
            cst_Telegram := (cst_Telegram input)\<lparr> tg_BotToken := TrimSpace (tg_BotToken (cst_Telegram input)),
              tg_ChatID := TrimSpace (tg_ChatID (cst_Telegram input)) \<rparr>,
            cst_FeishuWebhookURL := TrimSpace (cst_FeishuWebhookURL input),
            cst_HostSampleFrequencyTier := TrimSpace (cst_HostSampleFrequencyTier input) \<rparr>
      in if (tg_BotToken (cst_Telegram input) = []) \<noteq> (tg_ChatID (cst_Telegram input) = [])
         then Inl ''telegram bot token and chat id must be set together''
         else if \<not> IsValidFrequencyTier (cst_HostSampleFrequencyTier input)
         then Inl ''host sample frequency tier must be one of the known tiers''
         else
           (case validateProbeFrequencyDefaults (cst_ProbeFrequencyDefaults input) of
              Inl e \<Rightarrow> Inl e
            | Inr probeDefaults \<Rightarrow>
           (case validateIncidentDefaults (cst_IncidentDefaults input) of
              Inl e \<Rightarrow> Inl e
            | Inr incidentDefaults \<Rightarrow>
           (case validateOverrideRules (cst_OverrideRules input) incidentDefaults of
              Inl e \<Rightarrow> Inl e
            | Inr overrideRules \<Rightarrow>
           (case validateRetentionPolicy (cst_RetentionPolicy input) of
              Inl e \<Rightarrow> Inl e
            | Inr retentionPolicy \<Rightarrow>
           (case validateSubscriptionCostSettings (cst_SubscriptionCost input) of
              Inl e \<Rightarrow> Inl e
            | Inr subscriptionCost \<Rightarrow>
           (case validateIPQualitySettings (cst_IPQuality input) of
              Inl e \<Rightarrow> Inl e
            | Inr ipQuality \<Rightarrow>
                Inr (input\<lparr> cst_ProbeFrequencyDefaults := probeDefaults, cst_IncidentDefaults := incidentDefaults,
                  cst_OverrideRules := overrideRules, cst_RetentionPolicy := retentionPolicy,
                  cst_SubscriptionCost := subscriptionCost, cst_IPQuality := ipQuality \<rparr>))))))))"

end
