(* ===== verification/Settings_Laws.thy ===== *)
theory Settings_Laws
  imports Settings_Model
begin

text \<open>
  What \<open>Validate\<close> guarantees: exactly which incident defaults are accepted and how they are completed,
  that accepted settings are a fixed point of validation part by part and as a whole, and that the
  defaults of a fresh installation are accepted unchanged.  Each part of the settings is an instance of
  the locale \<open>normaliser\<close>.
\<close>

section \<open>Normalising validators\<close>

text \<open>A validator that returns a completed value accepts that value as it is.\<close>

locale normaliser =
  fixes validate :: "'a \<Rightarrow> 'a validated"
  assumes stable: "validate x = Inr y \<Longrightarrow> validate y = Inr y"
begin

lemma accepted_fixed: "(\<exists>x. validate x = Inr y) \<longleftrightarrow> validate y = Inr y"
  using stable by blast

end

lemma sum_case_Inr_iff:
  "(case v of Inl e \<Rightarrow> Inl e | Inr x \<Rightarrow> f x) = Inr y \<longleftrightarrow> (\<exists>x. v = Inr x \<and> f x = Inr y)"
  by (cases v) auto

lemma if_Inl_Inr_iff: "(if c then Inl e else v) = Inr y \<longleftrightarrow> \<not> c \<and> v = Inr y"
  by simp

lemma map_sum_Inr_iff: "map_sum id f v = Inr y \<longleftrightarrow> (\<exists>x. v = Inr x \<and> y = f x)"
  by (cases v) auto

section \<open>Incident defaults\<close>

text \<open>The accepted incident defaults.\<close>

definition incident_defaults_ok :: "IncidentDefaults \<Rightarrow> bool" where
  "incident_defaults_ok d \<longleftrightarrow>
     0 < idf_HeartbeatIntervalSeconds d \<and> idf_HeartbeatIntervalSeconds d \<le> maxHeartbeatIntervalSeconds \<and>
     0 < idf_StaleThresholdIntervals d \<and> idf_StaleThresholdIntervals d \<le> maxIncidentThresholdIntervals \<and>
     0 < idf_SweepIntervalSeconds d \<and> idf_SweepIntervalSeconds d \<le> maxIncidentDurationSeconds \<and>
     (\<forall>v \<in> snd ` set (thresholdFields d). 1 \<le> v \<and> v \<le> 100) \<and>
     (\<forall>(n, w, a, c) \<in> set (threeLevelThresholds d). w < a \<and> a < c) \<and>
     idf_IOWaitWarningPct d < idf_IOWaitCriticalPct d \<and>
     \<not> f_le (idf_Load5Warning d) (Fin 0) \<and> \<not> f_le (idf_Load5Critical d) (Fin 0) \<and>
     \<not> f_ge (idf_Load5Warning d) (idf_Load5Critical d)"

lemma validateIncidentThresholdOrder_None:
  "validateIncidentThresholdOrder p d = None \<longleftrightarrow>
     (\<forall>(n, w, a, c) \<in> set (threeLevelThresholds d). w < a \<and> a < c) \<and>
     idf_IOWaitWarningPct d < idf_IOWaitCriticalPct d \<and> \<not> f_ge (idf_Load5Warning d) (idf_Load5Critical d)"
proof -
  let ?P = "\<lambda>(name :: string, warning :: int, alert, critical). \<not> (warning < alert \<and> alert < critical)"
  have none: "(\<forall>(n, w, a, c) \<in> set (threeLevelThresholds d). w < a \<and> a < c) \<longleftrightarrow>
      find ?P (threeLevelThresholds d) = None"
    unfolding find_None_iff by auto
  show ?thesis
    unfolding validateIncidentThresholdOrder_def none
    by (cases "find ?P (threeLevelThresholds d)") (auto simp only: option.case option.simps not_le if_False if_True split: prod.splits if_splits)
qed

lemma fill_keeps [simp]:
  "idf_HeartbeatIntervalSeconds (fillThresholdDefaults d) = idf_HeartbeatIntervalSeconds d"
  "idf_StaleThresholdIntervals (fillThresholdDefaults d) = idf_StaleThresholdIntervals d"
  "idf_SweepIntervalSeconds (fillThresholdDefaults d) = idf_SweepIntervalSeconds d"
  by (simp_all add: fillThresholdDefaults_def Let_def)

lemma find_fields_None:
  "find (\<lambda>(name, value). value < 1 \<or> value > (100 :: int)) xs = None \<longleftrightarrow>
     (\<forall>v \<in> snd ` set xs. 1 \<le> v \<and> v \<le> 100)"
  by (auto simp: find_None_iff not_less)

lemma validateIncidentDefaults_iff:
  "validateIncidentDefaults d = Inr d' \<longleftrightarrow>
     d' = fillThresholdDefaults d \<and> incident_defaults_ok (fillThresholdDefaults d)"
proof -
  define f where "f = fillThresholdDefaults d"
  have keep: "idf_HeartbeatIntervalSeconds d = idf_HeartbeatIntervalSeconds f"
    "idf_StaleThresholdIntervals d = idf_StaleThresholdIntervals f"
    "idf_SweepIntervalSeconds d = idf_SweepIntervalSeconds f"
    by (simp_all add: f_def)
  have "validateIncidentDefaults d = Inr d' \<longleftrightarrow>
      \<not> idf_HeartbeatIntervalSeconds f \<le> 0 \<and> \<not> idf_HeartbeatIntervalSeconds f > maxHeartbeatIntervalSeconds \<and>
      \<not> idf_StaleThresholdIntervals f \<le> 0 \<and> \<not> idf_StaleThresholdIntervals f > maxIncidentThresholdIntervals \<and>
      \<not> idf_SweepIntervalSeconds f \<le> 0 \<and> \<not> idf_SweepIntervalSeconds f > maxIncidentDurationSeconds \<and>
      find (\<lambda>(name, value). value < 1 \<or> value > 100) (thresholdFields f) = None \<and>
      \<not> f_le (idf_Load5Warning f) (Fin 0) \<and> \<not> f_le (idf_Load5Critical f) (Fin 0) \<and>
      validateIncidentThresholdOrder [] f = None \<and> d' = f"
    unfolding validateIncidentDefaults_def Let_def f_def [symmetric] keep if_Inl_Inr_iff
    by (auto split: option.splits)
  thus ?thesis
    unfolding incident_defaults_ok_def f_def [symmetric] find_fields_None validateIncidentThresholdOrder_None
    by (auto simp: not_le not_less)
qed

lemma applyIntDefault_idem: "applyIntDefault (applyIntDefault v e) e = applyIntDefault v e"
  by (simp add: applyIntDefault_def)

lemma f_eq_zero: "f_eq v (Fin 0) \<longleftrightarrow> v = Fin 0"
  by (cases v) auto

lemma fillThresholdDefaults_idem [simp]:
  "fillThresholdDefaults (fillThresholdDefaults d) = fillThresholdDefaults d"
  by (simp add: fillThresholdDefaults_def Let_def applyIntDefault_idem f_eq_zero Default_def)

interpretation incident_defaults: normaliser validateIncidentDefaults
  by unfold_locales (auto simp: validateIncidentDefaults_iff)

lemma settings_bounds:
  "maxIncidentDurationSeconds = 9223372036" "maxHeartbeatIntervalSeconds = 4611686018"
  "maxIncidentThresholdIntervals = 2305843009213693951"
  by (simp_all add: maxIncidentDurationSeconds_def maxHeartbeatIntervalSeconds_def maxIncidentThresholdIntervals_def
      quot_nonneg maxInt64_def second_def)

lemma fillThresholdDefaults_values:
  "fillThresholdDefaults d = (let or_else = (\<lambda>v e. if v = 0 then e else v) in
     d\<lparr> idf_CPUWarningPct := or_else (idf_CPUWarningPct d) 80, idf_CPUAlertPct := or_else (idf_CPUAlertPct d) 90,
        idf_CPUCriticalPct := or_else (idf_CPUCriticalPct d) 95, idf_MemWarningPct := or_else (idf_MemWarningPct d) 85,
        idf_MemAlertPct := or_else (idf_MemAlertPct d) 92, idf_MemCriticalPct := or_else (idf_MemCriticalPct d) 95,
        idf_DiskWarningPct := or_else (idf_DiskWarningPct d) 85, idf_DiskAlertPct := or_else (idf_DiskAlertPct d) 92,
        idf_DiskCriticalPct := or_else (idf_DiskCriticalPct d) 97, idf_InodeWarningPct := or_else (idf_InodeWarningPct d) 80,
        idf_InodeAlertPct := or_else (idf_InodeAlertPct d) 90, idf_InodeCriticalPct := or_else (idf_InodeCriticalPct d) 95,
        idf_IOWaitWarningPct := or_else (idf_IOWaitWarningPct d) 20, idf_IOWaitCriticalPct := or_else (idf_IOWaitCriticalPct d) 50,
        idf_Load5Warning := (if idf_Load5Warning d = Fin 0 then Fin 4 else idf_Load5Warning d),
        idf_Load5Critical := (if idf_Load5Critical d = Fin 0 then Fin 8 else idf_Load5Critical d) \<rparr>)"
  by (simp add: fillThresholdDefaults_def Let_def applyIntDefault_def f_eq_zero Default_def)

lemma incident_defaults_ok_values:
  "incident_defaults_ok d \<longleftrightarrow>
     (let levels = (\<lambda>w a c. 1 \<le> w \<and> w < a \<and> a < c \<and> c \<le> 100) in
      0 < idf_HeartbeatIntervalSeconds d \<and> idf_HeartbeatIntervalSeconds d \<le> 4611686018 \<and>
      0 < idf_StaleThresholdIntervals d \<and> idf_StaleThresholdIntervals d \<le> 2305843009213693951 \<and>
      0 < idf_SweepIntervalSeconds d \<and> idf_SweepIntervalSeconds d \<le> 9223372036 \<and>
      levels (idf_CPUWarningPct d) (idf_CPUAlertPct d) (idf_CPUCriticalPct d) \<and>
      levels (idf_MemWarningPct d) (idf_MemAlertPct d) (idf_MemCriticalPct d) \<and>
      levels (idf_DiskWarningPct d) (idf_DiskAlertPct d) (idf_DiskCriticalPct d) \<and>
      levels (idf_InodeWarningPct d) (idf_InodeAlertPct d) (idf_InodeCriticalPct d) \<and>
      1 \<le> idf_IOWaitWarningPct d \<and> idf_IOWaitWarningPct d < idf_IOWaitCriticalPct d \<and> idf_IOWaitCriticalPct d \<le> 100 \<and>
      \<not> f_le (idf_Load5Warning d) (Fin 0) \<and> \<not> f_le (idf_Load5Critical d) (Fin 0) \<and>
      \<not> f_le (idf_Load5Critical d) (idf_Load5Warning d))"
  unfolding incident_defaults_ok_def settings_bounds thresholdFields_def threeLevelThresholds_def
  by (simp, linarith)

text \<open>
  (C19) Which incident defaults validation accepts, and what it returns.  A threshold of zero stands for
  the built-in value, which the result has in its place; nothing else changes.  Accepted are exactly the
  values with a heartbeat interval of at most half the longest duration, a missing threshold that can be
  multiplied by four, a sweep interval that is a duration, and, after completion, warning below alert
  below critical within 1 to 100 for CPU, memory, disk and inodes, warning below critical within 1 to 100
  for I/O wait, and load thresholds of which none is zero or negative and the critical one is not at or
  below the warning.  A load threshold that is not a number passes all three comparisons.
\<close>

theorem incident_defaults_accepted_iff:
  "ValidateIncidentDefaults d = Inr d' \<longleftrightarrow>
     (let or_else = (\<lambda>v e. if v = 0 then e else v);
          levels = (\<lambda>w a c. 1 \<le> w \<and> w < a \<and> a < c \<and> c \<le> 100) in
      d' = d\<lparr> idf_CPUWarningPct := or_else (idf_CPUWarningPct d) 80, idf_CPUAlertPct := or_else (idf_CPUAlertPct d) 90,
        idf_CPUCriticalPct := or_else (idf_CPUCriticalPct d) 95, idf_MemWarningPct := or_else (idf_MemWarningPct d) 85,
        idf_MemAlertPct := or_else (idf_MemAlertPct d) 92, idf_MemCriticalPct := or_else (idf_MemCriticalPct d) 95,
        idf_DiskWarningPct := or_else (idf_DiskWarningPct d) 85, idf_DiskAlertPct := or_else (idf_DiskAlertPct d) 92,
        idf_DiskCriticalPct := or_else (idf_DiskCriticalPct d) 97, idf_InodeWarningPct := or_else (idf_InodeWarningPct d) 80,
        idf_InodeAlertPct := or_else (idf_InodeAlertPct d) 90, idf_InodeCriticalPct := or_else (idf_InodeCriticalPct d) 95,
        idf_IOWaitWarningPct := or_else (idf_IOWaitWarningPct d) 20, idf_IOWaitCriticalPct := or_else (idf_IOWaitCriticalPct d) 50,
        idf_Load5Warning := (if idf_Load5Warning d = Fin 0 then Fin 4 else idf_Load5Warning d),
        idf_Load5Critical := (if idf_Load5Critical d = Fin 0 then Fin 8 else idf_Load5Critical d) \<rparr> \<and>
      0 < idf_HeartbeatIntervalSeconds d' \<and> idf_HeartbeatIntervalSeconds d' \<le> 4611686018 \<and>
      0 < idf_StaleThresholdIntervals d' \<and> idf_StaleThresholdIntervals d' \<le> 2305843009213693951 \<and>
      0 < idf_SweepIntervalSeconds d' \<and> idf_SweepIntervalSeconds d' \<le> 9223372036 \<and>
      levels (idf_CPUWarningPct d') (idf_CPUAlertPct d') (idf_CPUCriticalPct d') \<and>
      levels (idf_MemWarningPct d') (idf_MemAlertPct d') (idf_MemCriticalPct d') \<and>
      levels (idf_DiskWarningPct d') (idf_DiskAlertPct d') (idf_DiskCriticalPct d') \<and>
      levels (idf_InodeWarningPct d') (idf_InodeAlertPct d') (idf_InodeCriticalPct d') \<and>
      1 \<le> idf_IOWaitWarningPct d' \<and> idf_IOWaitWarningPct d' < idf_IOWaitCriticalPct d' \<and> idf_IOWaitCriticalPct d' \<le> 100 \<and>
      \<not> f_le (idf_Load5Warning d') (Fin 0) \<and> \<not> f_le (idf_Load5Critical d') (Fin 0) \<and>
      \<not> f_le (idf_Load5Critical d') (idf_Load5Warning d'))"
proof -
  have "ValidateIncidentDefaults d = Inr d' \<longleftrightarrow> d' = fillThresholdDefaults d \<and> incident_defaults_ok d'"
    unfolding ValidateIncidentDefaults_def validateIncidentDefaults_iff by blast
  thus ?thesis unfolding fillThresholdDefaults_values incident_defaults_ok_values Let_def .
qed

section \<open>Overrides\<close>

interpretation probe_defaults: normaliser validateProbeFrequencyDefaults
  by unfold_locales (auto simp: validateProbeFrequencyDefaults_def Let_def split: if_splits)

interpretation probe_override: normaliser validateProbeFrequencyOverride
  by unfold_locales
    (auto simp: validateProbeFrequencyOverride_def Let_def option.map_comp comp_def
      split: if_splits option.splits)

lemma validateIncidentDefaultsOverride_same: "validateIncidentDefaultsOverride i d = Inr j \<Longrightarrow> j = i"
  unfolding validateIncidentDefaultsOverride_def if_Inl_Inr_iff by (auto split: option.splits if_splits)

interpretation incident_override: normaliser "\<lambda>i. validateIncidentDefaultsOverride i d" for d
  by unfold_locales (frule validateIncidentDefaultsOverride_same, simp)

lemma validateSettingsOverrideFields_iff:
  "validateSettingsOverrideFields x d = Inr y \<longleftrightarrow>
     (\<forall>t. sof_HostSampleFrequencyTier x = Some t \<longrightarrow> IsValidFrequencyTier (TrimSpace t)) \<and>
     (case sof_ProbeFrequencyDefaults x of None \<Rightarrow> sof_ProbeFrequencyDefaults y = None
      | Some p \<Rightarrow> \<exists>q. validateProbeFrequencyOverride p = Inr q \<and> sof_ProbeFrequencyDefaults y = Some q) \<and>
     (case sof_IncidentDefaults x of None \<Rightarrow> sof_IncidentDefaults y = None
      | Some i \<Rightarrow> \<exists>j. validateIncidentDefaultsOverride i d = Inr j \<and> sof_IncidentDefaults y = Some j) \<and>
     sof_HostSampleFrequencyTier y = map_option TrimSpace (sof_HostSampleFrequencyTier x) \<and>
     \<not> (sof_HostSampleFrequencyTier x = None \<and> sof_ProbeFrequencyDefaults y = None \<and> sof_IncidentDefaults y = None)"
  unfolding validateSettingsOverrideFields_def if_Inl_Inr_iff sum_case_Inr_iff
  by (cases y) (auto simp: map_sum_Inr_iff split: option.splits)

interpretation override_fields: normaliser "\<lambda>x. validateSettingsOverrideFields x d" for d
proof unfold_locales
  fix x y assume "validateSettingsOverrideFields x d = Inr y"
  thus "validateSettingsOverrideFields y d = Inr y"
    unfolding validateSettingsOverrideFields_iff
    by (auto simp: option.map_comp comp_def split: option.splits
        dest: probe_override.stable incident_override.stable)
qed

text \<open>The loops keep the order of the rules, refuse a repeated selector and are stable.\<close>

lemma validateRuleLoop_distinct:
  assumes "\<And>r s. selector r = Inr s \<Longrightarrow> key (mk s (f r)) = s" and "\<And>s fs gs. key (mk s fs) = key (mk s gs)"
    and "validateRuleLoop selector ov mk dup d seen rs = Inr rs'"
  shows "distinct (map key rs') \<and> set (map key rs') \<inter> set seen = {} \<and> length rs' = length rs"
  using assms(3)
proof (induction rs arbitrary: seen rs')
  case (Cons r rs)
  obtain s fs rest where s: "selector r = Inr s" "s \<notin> set seen"
    and rest: "validateRuleLoop selector ov mk dup d (s # seen) rs = Inr rest" "rs' = mk s fs # rest"
    using Cons.prems by (auto simp: sum_case_Inr_iff split: if_splits)
  have "key (mk s fs) = s" using assms(1) [OF s(1)] assms(2) [of s fs "f r"] by simp
  thus ?case using Cons.IH [OF rest(1)] rest(2) s(2) by auto
qed simp

lemma validateRuleLoop_stable:
  assumes sel: "\<And>r s fs. selector r = Inr s \<Longrightarrow> selector (mk s fs) = Inr s"
    and ov: "\<And>s fs. ov (mk s fs) = fs"
    and "validateRuleLoop selector ov mk dup d seen rs = Inr rs'"
  shows "validateRuleLoop selector ov mk dup d seen rs' = Inr rs'"
  using assms(3)
proof (induction rs arbitrary: seen rs')
  case (Cons r rs)
  obtain s fs rest where s: "selector r = Inr s" "s \<notin> set seen"
    and fs: "validateSettingsOverrideFields (ov r) d = Inr fs"
    and rest: "validateRuleLoop selector ov mk dup d (s # seen) rs = Inr rest" "rs' = mk s fs # rest"
    using Cons.prems by (auto simp: sum_case_Inr_iff split: if_splits)
  show ?case
    using Cons.IH [OF rest(1)] s(2) override_fields.stable [OF fs] sel [OF s(1)]
    by (simp add: rest(2) ov)
qed simp

lemma IsValidTargetType_trim: "IsValidTargetType t \<Longrightarrow> TrimSpace t = t"
  by (auto simp: IsValidTargetType_def TargetTypeService_def TargetTypeChinaReference_def TrimSpace_ascii
      trim_list_def IsSpace_def)

lemma selectors_stable:
  "monitoringInstanceLabelSelector r = Inr s \<Longrightarrow> monitoringInstanceLabelSelector \<lparr> mlr_Label = s, mlr_Overrides = fs \<rparr> = Inr s"
  "targetTypeSelector t = Inr s \<Longrightarrow> targetTypeSelector \<lparr> ttr_TargetType = s, ttr_Overrides = fs \<rparr> = Inr s"
  "targetLabelSelector l = Inr s \<Longrightarrow> targetLabelSelector \<lparr> tlr_Label = s, tlr_Overrides = fs \<rparr> = Inr s"
  by (auto simp: monitoringInstanceLabelSelector_def targetTypeSelector_def targetLabelSelector_def Let_def
      split: if_splits)

interpretation override_rules: normaliser "\<lambda>x. validateOverrideRules x d" for d
proof unfold_locales
  fix x y assume "validateOverrideRules x d = Inr y"
  thus "validateOverrideRules y d = Inr y"
    unfolding validateOverrideRules_def sum_case_Inr_iff
    by (auto intro!: validateRuleLoop_stable selectors_stable)
qed

section \<open>The remaining parts\<close>

interpretation retention: normaliser validateRetentionPolicy
  by unfold_locales (auto simp: validateRetentionPolicy_def split: if_splits)

interpretation descending_order: go_less int_descending
  using go_less_key_desc [of "\<lambda>x. x"] by (simp add: int_descending_def [abs_def])

text \<open>The reminder offsets become strictly decreasing.\<close>

lemma normalizeReminderOffsets_strict: "sorted_wrt (>) (normalizeReminderOffsets xs)"
proof -
  have "in_order int_descending (normalizeReminderOffsets xs)"
    by (simp add: normalizeReminderOffsets_def descending_order.in_order_SliceStable)
  moreover have "distinct (normalizeReminderOffsets xs)"
    unfolding normalizeReminderOffsets_def
    by (rule distinct_submset [of _ "keep_first {} xs"]) (simp_all add: distinct_keep_first)
  moreover have "sorted_wrt (>) ys" if "distinct ys" and "in_order int_descending ys" for ys :: "int list"
    using that
  proof (induction ys)
    case (Cons a ys)
    have "b < a" if "b \<in> set ys" for b
      using that Cons.prems by (cases "b = a") (auto simp: in_order_def int_descending_def not_less)
    thus ?case using Cons by (simp add: in_order_def)
  qed simp
  ultimately show ?thesis by blast
qed

lemma set_normalizeReminderOffsets: "set (normalizeReminderOffsets xs) = set xs"
  by (simp add: normalizeReminderOffsets_def set_keep_first)

lemma normalizeReminderOffsets_id:
  assumes "sorted_wrt (>) xs"
  shows "normalizeReminderOffsets xs = xs"
proof -
  have "distinct xs" using assms by (induction xs) auto
  moreover have "in_order int_descending xs"
    unfolding in_order_def int_descending_def by (rule sorted_wrt_mono_rel [OF _ assms]) auto
  ultimately show ?thesis
    by (simp add: normalizeReminderOffsets_def keep_first_distinct_id descending_order.SliceStable_in_order_id)
qed

lemma isCurrencyCode_ascii:
  assumes "isCurrencyCode s"
  shows "list_all (\<lambda>c. 65 \<le> (of_char c :: nat) \<and> (of_char c :: nat) \<le> 90) s"
proof -
  have r: "list_all (\<lambda>ch. 65 \<le> ch \<and> ch \<le> 90) (runes s)"
    using assms by (auto simp: isCurrencyCode_def list_all_iff not_less split: if_splits)
  hence "list_all (\<lambda>r. r < 128) (runes s)" by (auto simp: list_all_iff)
  hence "runes s = map of_char s" using runes_ascii_iff runes_ascii by blast
  thus ?thesis using r by (simp add: list_all_iff)
qed

lemma TrimSpace_nonspace:
  assumes "list_all (\<lambda>c. (of_char c :: nat) < 128 \<and> \<not> IsSpace (of_char c)) s"
  shows "TrimSpace s = s"
proof -
  have "list_all (\<lambda>c. (of_char c :: nat) < 128) s" using assms by (auto simp: list_all_iff)
  moreover have "s = [] \<or> \<not> IsSpace (of_char (hd s)) \<and> \<not> IsSpace (of_char (last s))"
    using assms by (cases s) (auto simp: list_all_iff)
  ultimately show ?thesis by (simp add: TrimSpace_ascii trim_list_id)
qed

lemma currency_fixed:
  assumes "isCurrencyCode s"
  shows "ToUpper (TrimSpace s) = s"
proof -
  note a = isCurrencyCode_ascii [OF assms]
  have "TrimSpace s = s" using a by (intro TrimSpace_nonspace) (auto simp: list_all_iff IsSpace_def)
  moreover have "map upperRune (runes s) = map of_char s"
    using a by (subst runes_ascii) (auto simp: list_all_iff upperRune_def)
  moreover have "utf8 (map of_char s) = s"
    using a by (subst utf8_ascii) (auto simp: list_all_iff comp_def)
  ultimately show ?thesis by (simp add: ToUpper_def)
qed

lemma provider_fixed:
  "ToLower (TrimSpace SubscriptionExchangeRateProviderFrankfurter) = SubscriptionExchangeRateProviderFrankfurter"
  "ToLower (TrimSpace SubscriptionExchangeRateProviderFixer) = SubscriptionExchangeRateProviderFixer"
  by code_simp+

lemma validateSubscriptionCostSettings_iff:
  "validateSubscriptionCostSettings x = Inr y \<longleftrightarrow>
     (let c = ToUpper (TrimSpace (sc_BaseCurrency x)); p = ToLower (TrimSpace (sc_ExchangeRateProvider x));
          os = normalizeReminderOffsets (sc_DefaultReminderOffsetsDays x) in
      isCurrencyCode (sc_BaseCurrency y) \<and> sc_BaseCurrency y = (if c = [] then ''CNY'' else c) \<and>
      sc_ExchangeRateProvider y \<in> {SubscriptionExchangeRateProviderFrankfurter, SubscriptionExchangeRateProviderFixer} \<and>
      sc_ExchangeRateProvider y = (if p = [] then SubscriptionExchangeRateProviderFrankfurter else p) \<and>
      sc_FixerAPIKey y = TrimSpace (sc_FixerAPIKey x) \<and>
      sc_MaxReminderLeadDays y = applyIntDefault (sc_MaxReminderLeadDays x) 30 \<and>
      1 \<le> sc_MaxReminderLeadDays y \<and> sc_MaxReminderLeadDays y \<le> 365 \<and>
      sc_DefaultReminderOffsetsDays y = (if os = [] then [14, 7, 1] else os) \<and>
      (\<forall>v \<in> set (sc_DefaultReminderOffsetsDays y). 0 \<le> v \<and> v \<le> sc_MaxReminderLeadDays y) \<and>
      sc_ExchangeRateStaleAfterHours y = applyIntDefault (sc_ExchangeRateStaleAfterHours x) 36 \<and>
      1 \<le> sc_ExchangeRateStaleAfterHours y \<and> sc_ExchangeRateStaleAfterHours y \<le> 336)"
proof -
  have none: "find (\<lambda>v. v < 0 \<or> v > lead) xs = None \<longleftrightarrow> (\<forall>v \<in> set xs. 0 \<le> v \<and> v \<le> lead)" for lead :: int and xs
    by (auto simp: find_None_iff not_less)
  have opt: "(case z of None \<Rightarrow> v | Some u \<Rightarrow> if g u then Inl e1 else Inl e2) = Inr y \<longleftrightarrow> z = None \<and> v = Inr y"
    for z :: "int option" and v g e1 e2
    by (cases z) auto
  have def: "sc_BaseCurrency (cst_SubscriptionCost Default) = ''CNY''"
    "sc_ExchangeRateProvider (cst_SubscriptionCost Default) = SubscriptionExchangeRateProviderFrankfurter"
    "sc_MaxReminderLeadDays (cst_SubscriptionCost Default) = 30"
    "sc_DefaultReminderOffsetsDays (cst_SubscriptionCost Default) = [14, 7, 1]"
    "sc_ExchangeRateStaleAfterHours (cst_SubscriptionCost Default) = 36"
    by (simp_all add: Default_def)
  define C where "C = (if ToUpper (TrimSpace (sc_BaseCurrency x)) = [] then ''CNY''
    else ToUpper (TrimSpace (sc_BaseCurrency x)))"
  define P where "P = (if ToLower (TrimSpace (sc_ExchangeRateProvider x)) = []
    then SubscriptionExchangeRateProviderFrankfurter else ToLower (TrimSpace (sc_ExchangeRateProvider x)))"
  define R where "R = (if normalizeReminderOffsets (sc_DefaultReminderOffsetsDays x) = [] then [14, 7, 1]
    else normalizeReminderOffsets (sc_DefaultReminderOffsetsDays x))"
  define L H where "L = applyIntDefault (sc_MaxReminderLeadDays x) 30"
    and "H = applyIntDefault (sc_ExchangeRateStaleAfterHours x) 36"
  show ?thesis
    unfolding validateSubscriptionCostSettings_def Let_def def if_Inl_Inr_iff opt none
      applyIntDefault_def [symmetric] C_def [symmetric] P_def [symmetric] R_def [symmetric]
      L_def [symmetric] H_def [symmetric]
    by (cases y) (auto simp: not_less)
qed

interpretation subscription: normaliser validateSubscriptionCostSettings
proof unfold_locales
  fix x y assume "validateSubscriptionCostSettings x = Inr y"
  note y = this [unfolded validateSubscriptionCostSettings_iff Let_def]
  have ne: "sc_BaseCurrency y \<noteq> []" "sc_ExchangeRateProvider y \<noteq> []" "sc_MaxReminderLeadDays y \<noteq> 0"
    "sc_ExchangeRateStaleAfterHours y \<noteq> 0"
    using y by (auto simp: isCurrencyCode_def SubscriptionExchangeRateProviderFrankfurter_def
        SubscriptionExchangeRateProviderFixer_def split: if_splits)
  have "sorted_wrt (>) (sc_DefaultReminderOffsetsDays y)" "sc_DefaultReminderOffsetsDays y \<noteq> []"
    using y normalizeReminderOffsets_strict [of "sc_DefaultReminderOffsetsDays x"] by (auto split: if_splits)
  hence "normalizeReminderOffsets (sc_DefaultReminderOffsetsDays y) = sc_DefaultReminderOffsetsDays y"
    "sc_DefaultReminderOffsetsDays y \<noteq> []"
    using normalizeReminderOffsets_id by blast+
  moreover have "ToUpper (TrimSpace (sc_BaseCurrency y)) = sc_BaseCurrency y" using y currency_fixed by blast
  moreover have "ToLower (TrimSpace (sc_ExchangeRateProvider y)) = sc_ExchangeRateProvider y"
    using y provider_fixed by auto
  moreover have "TrimSpace (sc_FixerAPIKey y) = sc_FixerAPIKey y" using y by simp
  moreover have "isCurrencyCode (sc_BaseCurrency y)"
    "sc_ExchangeRateProvider y \<in> {SubscriptionExchangeRateProviderFrankfurter, SubscriptionExchangeRateProviderFixer}"
    "1 \<le> sc_MaxReminderLeadDays y \<and> sc_MaxReminderLeadDays y \<le> 365"
    "\<forall>v \<in> set (sc_DefaultReminderOffsetsDays y). 0 \<le> v \<and> v \<le> sc_MaxReminderLeadDays y"
    "1 \<le> sc_ExchangeRateStaleAfterHours y \<and> sc_ExchangeRateStaleAfterHours y \<le> 336"
    using y by blast+
  ultimately show "validateSubscriptionCostSettings y = Inr y"
    unfolding validateSubscriptionCostSettings_iff Let_def
    using ne by (simp add: applyIntDefault_def)
qed

lemma services_fixed: "s \<in> set defaultIPQualityServices \<Longrightarrow> ToLower (TrimSpace s) = s \<and> s \<noteq> []"
proof -
  have "list_all (\<lambda>s. ToLower (TrimSpace s) = s \<and> s \<noteq> []) defaultIPQualityServices" by code_simp
  thus "s \<in> set defaultIPQualityServices \<Longrightarrow> ToLower (TrimSpace s) = s \<and> s \<noteq> []" by (simp add: list_all_iff)
qed

lemma normalizeServicesLoop_result:
  "normalizeServicesLoop seen xs = Inr ys \<Longrightarrow>
   set ys \<subseteq> set defaultIPQualityServices \<and> distinct ys \<and> set ys \<inter> set seen = {}"
proof (induction xs arbitrary: seen ys)
  case (Cons x xs)
  thus ?case by (fastforce simp: Let_def map_sum_Inr_iff split: if_splits)
qed simp

lemma normalizeServicesLoop_id:
  "set ys \<subseteq> set defaultIPQualityServices \<Longrightarrow> distinct ys \<Longrightarrow> set ys \<inter> set seen = {} \<Longrightarrow>
   normalizeServicesLoop seen ys = Inr ys"
  using services_fixed by (induction ys arbitrary: seen) (auto simp: Let_def)

lemma normalizeIPQualityServices_fixed:
  "normalizeIPQualityServices xs = Inr ys \<Longrightarrow> normalizeIPQualityServices ys = Inr ys"
  unfolding normalizeIPQualityServices_def
  using normalizeServicesLoop_result normalizeServicesLoop_id by blast

lemma default_services_fixed: "normalizeIPQualityServices defaultIPQualityServices = Inr defaultIPQualityServices"
  unfolding normalizeIPQualityServices_def
  by (rule normalizeServicesLoop_id) (simp_all add: defaultIPQualityServices_def)

lemma length_TrimSpace: "length (TrimSpace s) \<le> length s"
proof -
  let ?t = "trim_list (\<lambda>x. IsSpace (fst x)) (segments (bytes_of s))"
  obtain us vs where "segments (bytes_of s) = us @ ?t @ vs" using trim_list_sublist by blast
  hence "concat (map snd (segments (bytes_of s))) = concat (map snd us) @ concat (map snd ?t) @ concat (map snd vs)"
    by (metis concat_append map_append)
  from arg_cong [OF this, of length]
  have "length (concat (map snd ?t)) \<le> length (bytes_of s)" unfolding segments_concat length_append by linarith
  thus ?thesis unfolding TrimSpace_def length_map by (simp add: bytes_of_def)
qed

definition trimmed_sources :: "IPQualitySources \<Rightarrow> IPQualitySources" where
  "trimmed_sources s = \<lparr> iqs_IPAPIISKey = TrimSpace (iqs_IPAPIISKey s), iqs_AbuseIPDBKey = TrimSpace (iqs_AbuseIPDBKey s),
     iqs_MaxMindAccountID = TrimSpace (iqs_MaxMindAccountID s), iqs_MaxMindLicenseKey = TrimSpace (iqs_MaxMindLicenseKey s) \<rparr>"

lemma trimmed_sources_idem [simp]: "trimmed_sources (trimmed_sources s) = trimmed_sources s"
  by (simp add: trimmed_sources_def)

definition disabled_ip_quality :: IPQualitySettings where
  "disabled_ip_quality = (cst_IPQuality Default)\<lparr> iqt_Enabled := False \<rparr>"

lemma disabled_ip_quality_valid: "validateIPQualitySettings disabled_ip_quality = Inr disabled_ip_quality"
  unfolding disabled_ip_quality_def by code_simp

lemma validateIPQualitySettings_iff:
  "validateIPQualitySettings x = Inr y \<longleftrightarrow>
     (let s = trimmed_sources (iqt_Sources x); x' = x\<lparr> iqt_Sources := s \<rparr> in
      length (iqs_IPAPIISKey (iqt_Sources x)) \<le> 256 \<and> length (iqs_AbuseIPDBKey (iqt_Sources x)) \<le> 256 \<and>
      validateMaxMindCredentials s = None \<and>
      (if isZeroIPQualitySettings x' then y = disabled_ip_quality
       else 60 \<le> iqt_FrequencySeconds y \<and> iqt_FrequencySeconds y \<le> iqt_StaleAfterSeconds y \<and>
         1 \<le> iqt_TimeoutSeconds y \<and> iqt_TimeoutSeconds y \<le> 300 \<and>
         (\<exists>services. services \<noteq> [] \<and>
            (case iqt_Services x of None \<Rightarrow> services = defaultIPQualityServices
             | Some vs \<Rightarrow> normalizeIPQualityServices vs = Inr services) \<and>
            y = x'\<lparr> iqt_StaleAfterSeconds := applyIntDefault (iqt_StaleAfterSeconds x) 604800,
              iqt_Services := Some services \<rparr>)))"
proof -
  define s x' where "s = trimmed_sources (iqt_Sources x)" and "x' = x\<lparr> iqt_Sources := s \<rparr>"
  have opt: "(case z of None \<Rightarrow> v | Some e \<Rightarrow> Inl e) = Inr y \<longleftrightarrow> z = None \<and> v = Inr y"
    for z :: "string option" and v
    by (cases z) auto
  have iff: "(if c then Inr a else v) = Inr y \<longleftrightarrow> (if c then y = a else v = Inr y)" for c and a v
    by auto
  have svc: "(case z of None \<Rightarrow> Inr defaultIPQualityServices | Some vs \<Rightarrow> normalizeIPQualityServices vs) = Inr services \<longleftrightarrow>
      (case z of None \<Rightarrow> services = defaultIPQualityServices | Some vs \<Rightarrow> normalizeIPQualityServices vs = Inr services)"
    for z services
    by (cases z) auto
  have stale: "(if iqt_StaleAfterSeconds x' = 0 then x'\<lparr> iqt_StaleAfterSeconds := 604800 \<rparr> else x') =
      x'\<lparr> iqt_StaleAfterSeconds := applyIntDefault (iqt_StaleAfterSeconds x) 604800 \<rparr>"
    by (simp add: applyIntDefault_def x'_def)
  have d: "iqt_StaleAfterSeconds (cst_IPQuality Default) = 604800" by (simp add: Default_def)
  have f: "iqt_Services x' = iqt_Services x" by (simp add: x'_def)
  show ?thesis
    unfolding validateIPQualitySettings_def Let_def trimmed_sources_def [symmetric] s_def [symmetric]
      x'_def [symmetric] opt disabled_ip_quality_def [symmetric] if_Inl_Inr_iff iff d stale sum_case_Inr_iff
      IPQualitySettings.simps svc
    by (auto simp: not_less not_le f)
qed

interpretation ip_quality: normaliser validateIPQualitySettings
proof unfold_locales
  fix x y assume a: "validateIPQualitySettings x = Inr y"
  define s x' where "s = trimmed_sources (iqt_Sources x)" and "x' = x\<lparr> iqt_Sources := s \<rparr>"
  note y = a [unfolded validateIPQualitySettings_iff Let_def, folded s_def, folded x'_def]
  show "validateIPQualitySettings y = Inr y"
  proof (cases "isZeroIPQualitySettings x'")
    case True
    hence "y = disabled_ip_quality" using y by simp
    thus ?thesis by (simp add: disabled_ip_quality_valid)
  next
    case False
    then obtain services where b: "60 \<le> iqt_FrequencySeconds y" "iqt_FrequencySeconds y \<le> iqt_StaleAfterSeconds y"
      "1 \<le> iqt_TimeoutSeconds y" "iqt_TimeoutSeconds y \<le> 300" "services \<noteq> []"
      and sv: "case iqt_Services x of None \<Rightarrow> services = defaultIPQualityServices
             | Some vs \<Rightarrow> normalizeIPQualityServices vs = Inr services"
      and yy: "y = x'\<lparr> iqt_StaleAfterSeconds := applyIntDefault (iqt_StaleAfterSeconds x) 604800,
              iqt_Services := Some services \<rparr>"
      using y by auto
    have src: "iqt_Sources y = s" "trimmed_sources s = s" "iqt_Services y = Some services"
      by (simp_all add: yy x'_def s_def)
    have upd: "y\<lparr> iqt_Sources := s \<rparr> = y" using src(1) by (cases y) simp
    have "normalizeIPQualityServices services = Inr services"
      using sv default_services_fixed normalizeIPQualityServices_fixed by (cases "iqt_Services x") auto
    moreover have "length (iqs_IPAPIISKey s) \<le> 256" "length (iqs_AbuseIPDBKey s) \<le> 256"
      using y length_TrimSpace order_trans by (simp_all add: s_def trimmed_sources_def) blast+
    moreover have "\<not> isZeroIPQualitySettings y" using b(1) by (simp add: isZeroIPQualitySettings_def)
    moreover have "y\<lparr> iqt_StaleAfterSeconds := applyIntDefault (iqt_StaleAfterSeconds y) 604800,
        iqt_Services := Some services \<rparr> = y"
      using b(1,2) src(3) by (cases y) (simp add: applyIntDefault_def)
    ultimately show ?thesis
      unfolding validateIPQualitySettings_iff Let_def src upd using y b by simp
  qed
qed

section \<open>Settings as a whole\<close>

definition trimmed_settings :: "CenterSettings \<Rightarrow> CenterSettings" where
  "trimmed_settings s = s\<lparr>
     cst_Telegram := (cst_Telegram s)\<lparr> tg_BotToken := TrimSpace (tg_BotToken (cst_Telegram s)),
       tg_ChatID := TrimSpace (tg_ChatID (cst_Telegram s)) \<rparr>,
     cst_FeishuWebhookURL := TrimSpace (cst_FeishuWebhookURL s),
     cst_HostSampleFrequencyTier := TrimSpace (cst_HostSampleFrequencyTier s) \<rparr>"

lemma Validate_iff:
  "Validate s = Inr s' \<longleftrightarrow>
     (\<exists>p i r q c ip.
        (tg_BotToken (cst_Telegram (trimmed_settings s)) = []) = (tg_ChatID (cst_Telegram (trimmed_settings s)) = []) \<and>
        IsValidFrequencyTier (cst_HostSampleFrequencyTier (trimmed_settings s)) \<and>
        validateProbeFrequencyDefaults (cst_ProbeFrequencyDefaults s) = Inr p \<and>
        validateIncidentDefaults (cst_IncidentDefaults s) = Inr i \<and>
        validateOverrideRules (cst_OverrideRules s) i = Inr r \<and>
        validateRetentionPolicy (cst_RetentionPolicy s) = Inr q \<and>
        validateSubscriptionCostSettings (cst_SubscriptionCost s) = Inr c \<and>
        validateIPQualitySettings (cst_IPQuality s) = Inr ip \<and>
        s' = (trimmed_settings s)\<lparr> cst_ProbeFrequencyDefaults := p, cst_IncidentDefaults := i,
          cst_OverrideRules := r, cst_RetentionPolicy := q, cst_SubscriptionCost := c, cst_IPQuality := ip \<rparr>)"
proof -
  define t where "t = trimmed_settings s"
  have f: "cst_ProbeFrequencyDefaults t = cst_ProbeFrequencyDefaults s"
    "cst_IncidentDefaults t = cst_IncidentDefaults s" "cst_OverrideRules t = cst_OverrideRules s"
    "cst_RetentionPolicy t = cst_RetentionPolicy s" "cst_SubscriptionCost t = cst_SubscriptionCost s"
    "cst_IPQuality t = cst_IPQuality s"
    by (simp_all add: t_def trimmed_settings_def)
  show ?thesis
    unfolding Validate_def Let_def trimmed_settings_def [symmetric] t_def [symmetric] f
      if_Inl_Inr_iff sum_case_Inr_iff sum.inject
    by blast
qed

lemma trimmed_settings_idem [simp]: "trimmed_settings (trimmed_settings s) = trimmed_settings s"
  by (simp add: trimmed_settings_def)

text \<open>
  (C20) Validation is idempotent: settings that it has accepted and completed are accepted again and
  returned unchanged, so that reading back stored settings and validating them is the identity.
\<close>

theorem Validate_idempotent:
  assumes "Validate s = Inr s'"
  shows "Validate s' = Inr s'"
proof -
  obtain p i r q c ip where v:
    "(tg_BotToken (cst_Telegram (trimmed_settings s)) = []) = (tg_ChatID (cst_Telegram (trimmed_settings s)) = [])"
    "IsValidFrequencyTier (cst_HostSampleFrequencyTier (trimmed_settings s))"
    "validateProbeFrequencyDefaults (cst_ProbeFrequencyDefaults s) = Inr p"
    "validateIncidentDefaults (cst_IncidentDefaults s) = Inr i"
    "validateOverrideRules (cst_OverrideRules s) i = Inr r"
    "validateRetentionPolicy (cst_RetentionPolicy s) = Inr q"
    "validateSubscriptionCostSettings (cst_SubscriptionCost s) = Inr c"
    "validateIPQualitySettings (cst_IPQuality s) = Inr ip"
    and s': "s' = (trimmed_settings s)\<lparr> cst_ProbeFrequencyDefaults := p, cst_IncidentDefaults := i,
      cst_OverrideRules := r, cst_RetentionPolicy := q, cst_SubscriptionCost := c, cst_IPQuality := ip \<rparr>"
    using assms unfolding Validate_iff by blast
  have t: "trimmed_settings s' = s'" by (simp add: s' trimmed_settings_def)
  have parts: "cst_ProbeFrequencyDefaults s' = p" "cst_IncidentDefaults s' = i" "cst_OverrideRules s' = r"
    "cst_RetentionPolicy s' = q" "cst_SubscriptionCost s' = c" "cst_IPQuality s' = ip"
    "cst_Telegram s' = cst_Telegram (trimmed_settings s)"
    "cst_HostSampleFrequencyTier s' = cst_HostSampleFrequencyTier (trimmed_settings s)"
    by (simp_all add: s')
  have u: "s' = s'\<lparr> cst_ProbeFrequencyDefaults := p, cst_IncidentDefaults := i,
      cst_OverrideRules := r, cst_RetentionPolicy := q, cst_SubscriptionCost := c, cst_IPQuality := ip \<rparr>"
    by (simp add: s')
  show ?thesis
    unfolding Validate_iff t parts
    using v(1,2) probe_defaults.stable [OF v(3)] incident_defaults.stable [OF v(4)] override_rules.stable [OF v(5)]
      retention.stable [OF v(6)] subscription.stable [OF v(7)] ip_quality.stable [OF v(8)] u
    by blast
qed

lemma FreshInstallDefaults_valid: "Validate FreshInstallDefaults = Inr FreshInstallDefaults"
  by code_simp

theorem Validate_idempotent_witness:
  "Validate FreshInstallDefaults = Inr FreshInstallDefaults \<and>
   cst_HostSampleFrequencyTier FreshInstallDefaults = FrequencyTier5s"
  using Validate_idempotent [OF FreshInstallDefaults_valid]
  by (simp add: FreshInstallDefaults_def Default_def)

section \<open>Resolution\<close>

lemma hostSampleTierOf_valid:
  "IsValidFrequencyTier base \<Longrightarrow>
   (\<forall>r \<in> set rules. \<forall>t. sof_HostSampleFrequencyTier (mlr_Overrides r) = Some t \<longrightarrow> IsValidFrequencyTier t) \<Longrightarrow>
   IsValidFrequencyTier (hostSampleTierOf base labels rules)"
  by (induction rules) (auto simp: Let_def split: option.splits)

lemma validateRuleLoop_fields:
  assumes "\<And>s fs. ov (mk s fs) = fs" and "validateRuleLoop selector ov mk dup d seen rs = Inr rs'" and "r \<in> set rs'"
  shows "\<exists>x. validateSettingsOverrideFields x d = Inr (ov r)"
  using assms(2,3)
  by (induction rs arbitrary: seen rs') (auto simp: sum_case_Inr_iff assms(1) split: if_splits, blast)

lemma Validate_tier:
  assumes "Validate s = Inr s'"
  shows "IsValidFrequencyTier (ResolveHostSampleFrequencyTier (cst_HostSampleFrequencyTier s') labels (cst_OverrideRules s'))"
proof -
  obtain i r where v: "IsValidFrequencyTier (cst_HostSampleFrequencyTier s')"
    "validateOverrideRules (cst_OverrideRules s) i = Inr r" "cst_OverrideRules s' = r"
    using assms unfolding Validate_iff by (auto simp: trimmed_settings_def)
  have "IsValidFrequencyTier t"
    if rule: "rule \<in> set (ovr_MonitoringInstanceLabels r)" and t: "sof_HostSampleFrequencyTier (mlr_Overrides rule) = Some t"
    for rule t
  proof -
    have "validateRuleLoop monitoringInstanceLabelSelector mlr_Overrides
        (\<lambda>l o'. \<lparr> mlr_Label = l, mlr_Overrides = o' \<rparr>)
        ''duplicate monitoringInstance label override selector'' i [] (ovr_MonitoringInstanceLabels (cst_OverrideRules s)) =
        Inr (ovr_MonitoringInstanceLabels r)"
      using v(2) unfolding validateOverrideRules_def sum_case_Inr_iff by auto
    from validateRuleLoop_fields [OF _ this rule]
    obtain x where "validateSettingsOverrideFields x i = Inr (mlr_Overrides rule)" by auto
    hence "Some t = map_option TrimSpace (sof_HostSampleFrequencyTier x)"
      "\<forall>t. sof_HostSampleFrequencyTier x = Some t \<longrightarrow> IsValidFrequencyTier (TrimSpace t)"
      unfolding validateSettingsOverrideFields_iff t by (blast+)
    thus ?thesis by (cases "sof_HostSampleFrequencyTier x") auto
  qed
  thus ?thesis
    unfolding ResolveHostSampleFrequencyTier_def v(3) by (intro hostSampleTierOf_valid v(1)) blast
qed

end
