(* ===== verification/Point_Evaluators.thy ===== *)
theory Point_Evaluators
  imports Incident_Transitions
begin

text \<open>
  What the point evaluators decide: the threshold evaluators for disk and inodes with their
  suppression rule, the normalisation order of observations, the probe failure evaluator and the
  TLS expiry evaluator, each characterised on every branch.
\<close>

section \<open>Thresholds\<close>

lemma fastThresholdSeverity_rank_mono:
  assumes "f_le v w"
  shows "severityRank (fst (fastThresholdSeverity v n a c)) \<le> severityRank (fst (fastThresholdSeverity w n a c))"
  using f_le_trans [OF _ assms] by (auto simp: fastThresholdSeverity_def)

lemma evaluateTransition_severity:
  "map_option inc_Severity (er_Current (evaluateTransition prev ot oid cls sev when summary prov)) = Some sev"
  by (simp add: evaluateTransition_def Let_def split: option.split)

lemma fastThreshold_Fin:
  assumes "w \<le> a" and "a \<le> c"
  shows "fastThresholdSeverity (Fin v) (Fin w) (Fin a) (Fin c) =
    (if v < w then (SeverityNormal, False)
     else (if c \<le> v then SeverityCritical else if a \<le> v then SeverityAlert else SeverityNotice, True))"
  using assms by (simp add: fastThresholdSeverity_def not_less)

lemma suppressed_wrapper:
  assumes "er_Transition q = TransitionRecovered \<Longrightarrow> er_Current q = None"
    and "r = (if er_Transition q = TransitionRecovered then suppressNotification q else skip prev)"
  shows "er_Transition r \<in> {TransitionRecovered, TransitionSkipped} \<and> er_Current r = None \<and>
    (case er_Notification r of None \<Rightarrow> True | Some n \<Rightarrow> \<not> nd_ShouldSend n)"
  using assms suppressNotification_silent [of q]
  by (cases "er_Transition q = TransitionRecovered") (auto simp: skip_def split: option.split)

lemma fastThresholdSeverity_inactive:
  "snd (fastThresholdSeverity v n a c) \<longleftrightarrow> f_le c v \<or> f_le a v \<or> f_le n v"
  by (simp add: fastThresholdSeverity_def)

text \<open>
  (C11) Suppression: a disk or inode sample that was taken under maintenance or replayed from the
  agent's buffer never opens or escalates an incident and never sends a notification; it can only
  close an incident, silently, or leave it alone.
\<close>

theorem suppressed_sample_is_silent:
  assumes "hs_MaintenanceContext s \<or> hs_IsBackfilled s"
    and "r \<in> {EvaluateMonitoringInstanceDiskPressure prev mid (Some s) th,
              EvaluateMonitoringInstanceInodePressure prev mid (Some s) th}"
  shows "er_Transition r \<in> {TransitionRecovered, TransitionSkipped} \<and> er_Current r = None \<and>
    (case er_Notification r of None \<Rightarrow> True | Some n \<Rightarrow> \<not> nd_ShouldSend n)"
proof -
  let ?d = "evaluateMonitoringInstanceDiskPressure prev mid s th"
  let ?i = "evaluateMonitoringInstanceInodePressure prev mid s th"
  have rec: "er_Transition ?d = TransitionRecovered \<Longrightarrow> er_Current ?d = None"
    "er_Transition ?i = TransitionRecovered \<Longrightarrow> er_Current ?i = None"
    by (simp_all add: evaluateMonitoringInstanceDiskPressure_def evaluateMonitoringInstanceInodePressure_def
        evaluateTransition_transition recoverIfNeeded_def Let_def split: prod.splits if_splits option.splits)
  from assms consider
      "r = (if er_Transition ?d = TransitionRecovered then suppressNotification ?d else skip prev)"
    | "r = (if er_Transition ?i = TransitionRecovered then suppressNotification ?i else skip prev)"
    by (auto simp: EvaluateMonitoringInstanceDiskPressure_def EvaluateMonitoringInstanceInodePressure_def Let_def)
  thus ?thesis
  proof cases
    case 1
    thus ?thesis by (rule suppressed_wrapper [where q = ?d, rotated]) (rule rec(1))
  next
    case 2
    thus ?thesis by (rule suppressed_wrapper [where q = ?i, rotated]) (rule rec(2))
  qed
qed

text \<open>
  (C12) For a live sample the disk evaluator is exact: with integer percentages as thresholds it
  recovers or stays quiet below all of them, and otherwise the severity is the highest threshold
  reached; a fuller disk never gets a lower severity.
\<close>

theorem disk_pressure_exact:
  assumes "\<not> hs_MaintenanceContext s" and "\<not> hs_IsBackfilled s"
    and "hs_DiskUsedPct s = Fin v"
    and "\<bar>mt_DiskWarningPct th\<bar> < 2 ^ 53" and "\<bar>mt_DiskAlertPct th\<bar> < 2 ^ 53"
    and "\<bar>mt_DiskCriticalPct th\<bar> < 2 ^ 53"
    and "mt_DiskWarningPct th \<le> mt_DiskAlertPct th" and "mt_DiskAlertPct th \<le> mt_DiskCriticalPct th"
  shows "let r = EvaluateMonitoringInstanceDiskPressure prev mid (Some s) th in
    if v < of_int (mt_DiskWarningPct th) then
      er_Current r = None \<and>
      er_Transition r = (if prev = None then TransitionNoop else TransitionRecovered)
    else
      map_option inc_Severity (er_Current r) =
        Some (if of_int (mt_DiskCriticalPct th) \<le> v then SeverityCritical
              else if of_int (mt_DiskAlertPct th) \<le> v then SeverityAlert else SeverityNotice)"
proof -
  let ?r = "EvaluateMonitoringInstanceDiskPressure prev mid (Some s) th"
  have r: "?r = evaluateMonitoringInstanceDiskPressure prev mid s th"
    using assms(1,2) by (simp add: EvaluateMonitoringInstanceDiskPressure_def Let_def)
  have le: "(of_int (mt_DiskWarningPct th) :: rat) \<le> of_int (mt_DiskAlertPct th)"
    "(of_int (mt_DiskAlertPct th) :: rat) \<le> of_int (mt_DiskCriticalPct th)"
    using assms(7,8) by simp_all
  have sev: "fastThresholdSeverity (hs_DiskUsedPct s) (f64_of_int (mt_DiskWarningPct th))
      (f64_of_int (mt_DiskAlertPct th)) (f64_of_int (mt_DiskCriticalPct th)) =
      (if v < of_int (mt_DiskWarningPct th) then (SeverityNormal, False)
       else (if of_int (mt_DiskCriticalPct th) \<le> v then SeverityCritical
             else if of_int (mt_DiskAlertPct th) \<le> v then SeverityAlert else SeverityNotice, True))"
    unfolding assms(3) f64_of_int_exact [OF assms(4)] f64_of_int_exact [OF assms(5)]
      f64_of_int_exact [OF assms(6)] by (rule fastThreshold_Fin [OF le])
  show ?thesis
  proof (cases "v < of_int (mt_DiskWarningPct th)")
    case True
    have "er_Current (recoverIfNeeded prev w x y z) = None" for w x y z
      by (simp add: recoverIfNeeded_def Let_def split: option.split)
    thus ?thesis
      using True unfolding r evaluateMonitoringInstanceDiskPressure_def sev Let_def
      by (simp add: recoverIfNeeded_transition)
  next
    case False
    thus ?thesis
      unfolding r evaluateMonitoringInstanceDiskPressure_def sev Let_def
      by (simp add: evaluateTransition_severity)
  qed
qed
definition sample_host :: "rat \<Rightarrow> bool \<Rightarrow> HostSample" where
  "sample_host used backfilled =
     \<lparr> hs_MonitoringInstanceID = ''mi'', hs_ObservedAt = 100 * second, hs_ReceivedAt = 101 * second,
       hs_AgentVersion = [], hs_Fingerprint = [], hs_CPUUsagePct = Fin 0, hs_CPURatesValid = None,
       hs_Load1 = Fin 0, hs_Load5 = Fin 0, hs_Load15 = Fin 0, hs_MemUsedPct = Fin 0,
       hs_MemAvailableBytes = 0, hs_MemTotalBytes = 0, hs_SwapUsedPct = Fin 0,
       hs_DiskUsedPct = Fin used, hs_DiskTotalBytes = 0, hs_InodeUsedPct = Fin used,
       hs_NetInBytesPerSec = 0, hs_NetOutBytesPerSec = 0, hs_NetworkRatesValid = None,
       hs_CPUIOWaitPct = Fin 0, hs_CPUStealPct = Fin 0, hs_DiskReadBytesPerSec = 0,
       hs_DiskWriteBytesPerSec = 0, hs_DiskBusyPct = Fin 0, hs_UptimeSeconds = 0,
       hs_MaintenanceContext = False, hs_IsBackfilled = backfilled, hs_SyncBatchID = [],
       hs_Containers = [] \<rparr>"

theorem suppressed_sample_is_silent_witness:
  "er_Transition (EvaluateMonitoringInstanceDiskPressure None ''mi'' (Some (sample_host 99 True))
     DefaultMetricThresholds) \<in> {TransitionRecovered, TransitionSkipped}"
  using suppressed_sample_is_silent [of "sample_host 99 True"
      "EvaluateMonitoringInstanceDiskPressure None ''mi'' (Some (sample_host 99 True)) DefaultMetricThresholds"
      None "''mi''" DefaultMetricThresholds]
  by (simp add: sample_host_def)

theorem disk_pressure_exact_witness:
  "map_option inc_Severity (er_Current (EvaluateMonitoringInstanceDiskPressure None ''mi''
     (Some (sample_host 93 False)) DefaultMetricThresholds)) = Some SeverityAlert"
  using disk_pressure_exact [of "sample_host 93 False" 93 DefaultMetricThresholds None "''mi''"]
  by (simp add: sample_host_def DefaultMetricThresholds_def)

section \<open>Normalisation\<close>

lemma newer_go_less: "go_less (newer obs bf recv)"
proof unfold_locales
  fix x y z :: 'a
  show "\<not> newer obs bf recv x x" by (simp add: newer_def)
  show "newer obs bf recv x z" if "newer obs bf recv x y" "newer obs bf recv y z"
    using that unfolding newer_def time_After_def
    by (cases "obs x = obs y"; cases "obs y = obs z"; cases "bf x"; cases "bf y"; cases "bf z")
      (auto split: if_splits)
  show "\<not> newer obs bf recv x z" if "\<not> newer obs bf recv x y" "\<not> newer obs bf recv y z"
    using that unfolding newer_def time_After_def
    by (cases "obs x = obs y"; cases "obs y = obs z"; cases "bf x"; cases "bf y"; cases "bf z")
      (auto split: if_splits)
qed

interpretation probe_order: go_less "newer po_ObservedAt po_IsBackfilled po_ReceivedAt"
  by (rule newer_go_less)

interpretation resource_order: go_less "newer rs_ObservedAt rs_IsBackfilled rs_ReceivedAt"
  by (rule newer_go_less)

interpretation host_order: go_less "newer hs_ObservedAt hs_IsBackfilled hs_ReceivedAt"
  by (rule newer_go_less)

lemma newer_observedAt: "\<not> newer obs bf recv b a \<Longrightarrow> obs b \<le> obs a"
  by (auto simp: newer_def time_After_def split: if_splits)

lemma not_newer:
  assumes "\<not> newer obs bf recv b a"
  shows "obs b < obs a \<or> obs b = obs a \<and> (bf b \<and> \<not> bf a \<or> bf a = bf b \<and> recv b \<le> recv a)"
  using assms by (auto simp: newer_def time_After_def split: if_splits)

text \<open>
  (C14) Normalising probe observations only reorders them: the result has the same observations,
  the most recent observation first, live before replayed and later received first among equals,
  and observations that agree on these three keep the order in which they were read.
\<close>

theorem normalizeProbeObservations_spec:
  "mset (normalizeProbeObservations xs) = mset xs \<and>
   sorted_wrt (\<lambda>a b. po_ObservedAt b < po_ObservedAt a \<or>
     po_ObservedAt b = po_ObservedAt a \<and>
       (po_IsBackfilled b \<and> \<not> po_IsBackfilled a \<or>
        po_IsBackfilled a = po_IsBackfilled b \<and> po_ReceivedAt b \<le> po_ReceivedAt a))
     (normalizeProbeObservations xs) \<and>
   filter (\<lambda>x. (po_ObservedAt x, po_IsBackfilled x, po_ReceivedAt x) = k) (normalizeProbeObservations xs) =
   filter (\<lambda>x. (po_ObservedAt x, po_IsBackfilled x, po_ReceivedAt x) = k) xs"
proof (intro conjI)
  have "in_order (newer po_ObservedAt po_IsBackfilled po_ReceivedAt) (normalizeProbeObservations xs)"
    unfolding normalizeProbeObservations_def by (rule probe_order.in_order_SliceStable)
  thus "sorted_wrt (\<lambda>a b. po_ObservedAt b < po_ObservedAt a \<or>
     po_ObservedAt b = po_ObservedAt a \<and>
       (po_IsBackfilled b \<and> \<not> po_IsBackfilled a \<or>
        po_IsBackfilled a = po_IsBackfilled b \<and> po_ReceivedAt b \<le> po_ReceivedAt a))
     (normalizeProbeObservations xs)"
    unfolding in_order_def by (rule sorted_wrt_mono_rel [rotated]) (rule not_newer)
  show "filter (\<lambda>x. (po_ObservedAt x, po_IsBackfilled x, po_ReceivedAt x) = k) (normalizeProbeObservations xs) =
      filter (\<lambda>x. (po_ObservedAt x, po_IsBackfilled x, po_ReceivedAt x) = k) xs"
    unfolding normalizeProbeObservations_def
  proof (rule probe_order.SliceStable_stable)
    fix a b :: ProbeObservation assume "(po_ObservedAt a, po_IsBackfilled a, po_ReceivedAt a) = k"
      and "(po_ObservedAt b, po_IsBackfilled b, po_ReceivedAt b) = k"
    hence "po_ObservedAt a = po_ObservedAt b" "po_IsBackfilled a = po_IsBackfilled b"
      "po_ReceivedAt a = po_ReceivedAt b" by (metis prod.inject)+
    thus "\<not> newer po_ObservedAt po_IsBackfilled po_ReceivedAt a b" by (simp add: newer_def)
  qed
qed (simp add: normalizeProbeObservations_def)

section \<open>Probe failure\<close>

lemma length_remdups_le: "length (remdups (filter P (map f xs))) \<le> length xs"
  by (metis length_filter_le length_map length_remdups_leq le_trans)

lemma probeFailureSeverity_active_iff:
  "snd (probeFailureSeverity fs) \<longleftrightarrow> 2 \<le> length fs"
proof (cases fs)
  case (Cons f fs')
  have "uniqueNonEmptyMonitoringInstanceCount fs \<le> int (length fs)"
    "uniqueNonEmptyProbeItemCount fs \<le> int (length fs)"
    using length_remdups_le
    by (auto simp: uniqueNonEmptyMonitoringInstanceCount_def uniqueNonEmptyProbeItemCount_def)
  thus ?thesis unfolding Cons probeFailureSeverity_def by (auto simp: Let_def)
qed (simp add: probeFailureSeverity_def)

lemma leading_failures_suppressed:
  "po_suppressed r0 \<Longrightarrow> leadingUnsuppressedFailureObservations (r0 # rest) = []"
  by (simp add: leadingUnsuppressedFailureObservations_def)

lemma length_remdups_nonempty:
  "length (remdups (filter (\<lambda>x. x \<noteq> []) (map f xs))) = card (f ` set xs - {[]})"
proof -
  have "set (filter (\<lambda>x. x \<noteq> []) (map f xs)) = f ` set xs - {[]}" by auto
  thus ?thesis by (metis length_remdups_card_conv)
qed

lemma probeFailureSeverity_ladder:
  assumes "2 \<le> length fs"
  shows "fst (probeFailureSeverity fs) =
    (if po_ProbeKind (hd fs) = ''tcp'' \<and> 2 \<le> card (po_MonitoringInstanceID ` set fs - {[]}) \<or>
        po_ProbeKind (hd fs) = ''http'' \<and> 2 \<le> card (po_ProbeItemID ` set fs - {[]}) \<or>
        length fs \<ge> (if po_ProbeKind (hd fs) = ''tcp'' then 6 else 5) then SeverityCritical
     else if length fs \<ge> 3 then SeverityAlert else SeverityNotice)"
proof -
  obtain f rest where fs: "fs = f # rest" using assms by (cases fs) auto
  have int: "(2 \<le> int n) = (2 \<le> n)" "(3 \<le> int n) = (3 \<le> n)" "(5 \<le> int n) = (5 \<le> n)" "(6 \<le> int n) = (6 \<le> n)" for n :: nat
    by linarith+
  have "2 \<le> length (f # rest)" using assms fs by simp
  thus ?thesis
    unfolding fs probeFailureSeverity_def list.case Let_def list.sel uniqueNonEmptyMonitoringInstanceCount_def
      uniqueNonEmptyProbeItemCount_def length_remdups_nonempty ProbeKindTCP_def ProbeKindHTTP_def
    by (cases "po_ProbeKind f = ''tcp''"; cases "po_ProbeKind f = ''http''") (simp_all only: int if_True if_False fst_conv simp_thms split: if_splits, simp_all)
qed

lemma recovered_announced:
  "map_option nd_ShouldSend (er_Notification (recoverIfNeeded (Some p) when summary prov bf)) = Some True"
  "map_option nd_ShouldSend (er_Notification (suppressNotification (recoverIfNeeded (Some p) when summary prov bf))) = Some False"
  "er_Current (recoverIfNeeded (Some p) when summary prov bf) = None"
  "er_Current (suppressNotification R) = er_Current R" "er_Transition (suppressNotification R) = er_Transition R"
  by (simp_all add: recoverIfNeeded_def suppressNotification_def Let_def split: option.split)

text \<open>
  (C9) The probe failure evaluator, on every branch.  An open incident recovers when the two newest
  observations are successes, and the recovery is announced unless the newest one is replayed or under
  maintenance.  Otherwise nothing happens while the newest observations hold fewer than two live
  failures in a row.  From two on the incident has a severity: critical for TCP failures seen by two
  instances or six times in a row, for HTTP failures of two probe items, and for any other kind than TCP
  five times in a row; alert from three failures; notice below.  It starts, escalates or stays.
\<close>

theorem probe_failure_behaviour:
  "let ns = normalizeProbeObservations recent;
       silent = (\<lambda>x. po_MaintenanceContext x \<or> po_IsBackfilled x);
       failures = takeWhile (\<lambda>x. \<not> silent x \<and> po_ResultKind x = ''failure'') ns;
       kind = po_ProbeKind (hd failures);
       severity =
         (if kind = ''tcp'' \<and> 2 \<le> card (po_MonitoringInstanceID ` set failures - {[]}) \<or>
             kind = ''http'' \<and> 2 \<le> card (po_ProbeItemID ` set failures - {[]}) \<or>
             length failures \<ge> (if kind = ''tcp'' then 6 else 5) then SeverityCritical
          else if length failures \<ge> 3 then SeverityAlert else SeverityNotice);
       r = EvaluateTargetProbeFailure prev tid recent in
   if prev \<noteq> None \<and> 2 \<le> length (takeWhile (\<lambda>x. po_ResultKind x = ''success'') ns) then
     er_Transition r = TransitionRecovered \<and> er_Current r = None \<and>
     map_option nd_ShouldSend (er_Notification r) = Some (\<not> silent (hd ns))
   else if length failures < 2 then r = noop prev
   else map_option inc_Severity (er_Current r) = Some severity \<and>
     er_Transition r =
       (case prev of
          None \<Rightarrow> TransitionStarted
        | Some p \<Rightarrow> if severityRank (inc_Severity p) < severityRank severity then TransitionEscalated else TransitionNoop)"
proof (cases "normalizeProbeObservations recent")
  case Nil
  thus ?thesis by (simp add: EvaluateTargetProbeFailure_def)
next
  case (Cons r0 rest)
  let ?fs = "leadingUnsuppressedFailureObservations (r0 # rest)"
  have fs: "takeWhile (\<lambda>x. \<not> (po_MaintenanceContext x \<or> po_IsBackfilled x) \<and> po_ResultKind x = ''failure'') (r0 # rest) = ?fs"
    by (simp add: leadingUnsuppressedFailureObservations_def po_suppressed_def ProbeResultFailure_def)
  obtain s active where sev: "probeFailureSeverity ?fs = (s, active)" by (cases "probeFailureSeverity ?fs")
  have active: "active \<longleftrightarrow> 2 \<le> length ?fs" using probeFailureSeverity_active_iff [of ?fs] sev by simp
  have sup: "\<not> po_suppressed r0" if "active"
    using that active leading_failures_suppressed [of r0 rest] by auto
  have ladder: "s =
      (if po_ProbeKind (hd ?fs) = ''tcp'' \<and> 2 \<le> card (po_MonitoringInstanceID ` set ?fs - {[]}) \<or>
          po_ProbeKind (hd ?fs) = ''http'' \<and> 2 \<le> card (po_ProbeItemID ` set ?fs - {[]}) \<or>
          length ?fs \<ge> (if po_ProbeKind (hd ?fs) = ''tcp'' then 6 else 5) then SeverityCritical
       else if length ?fs \<ge> 3 then SeverityAlert else SeverityNotice)" if "active"
    using probeFailureSeverity_ladder [of ?fs] that active sev by simp
  have silent: "po_MaintenanceContext r0 \<or> po_IsBackfilled r0 \<longleftrightarrow> po_suppressed r0" by (simp add: po_suppressed_def)
  have count: "2 \<le> consecutiveResults (r0 # rest) ProbeResultSuccess \<longleftrightarrow>
      2 \<le> length (takeWhile (\<lambda>x. po_ResultKind x = ''success'') (r0 # rest))"
    unfolding consecutiveResults_def ProbeResultSuccess_def by linarith
  note unf = EvaluateTargetProbeFailure_def [of prev tid recent, unfolded Cons list.case Let_def sev prod.case count]
  show ?thesis
  proof (cases "prev \<noteq> None \<and> 2 \<le> length (takeWhile (\<lambda>x. po_ResultKind x = ''success'') (r0 # rest))")
    case True
    then obtain p where p: "prev = Some p" by blast
    let ?R = "recoverIfNeeded (Some p) (po_ObservedAt r0)
      (utf8 [0x63A2, 0x9488, 0x5DF2, 0x8FDE, 0x7EED, 0x6210, 0x529F, 0x6062, 0x590D])
      MonitoringEventProvenanceAgentSync (po_IsBackfilled r0)"
    have "EvaluateTargetProbeFailure prev tid recent = (if po_suppressed r0 then suppressNotification ?R else ?R)"
      unfolding unf if_P [OF True] unfolding p ..
    hence "er_Transition (EvaluateTargetProbeFailure prev tid recent) = TransitionRecovered \<and>
        er_Current (EvaluateTargetProbeFailure prev tid recent) = None \<and>
        map_option nd_ShouldSend (er_Notification (EvaluateTargetProbeFailure prev tid recent)) = Some (\<not> po_suppressed r0)"
      by (cases "po_suppressed r0") (simp_all add: recovered_announced recoverIfNeeded_transition del: map_option_eq_Some)
    thus ?thesis unfolding Cons Let_def fs list.sel silent if_P [OF True] .
  next
    case False
    show ?thesis
      unfolding Cons Let_def fs list.sel silent unf if_not_P [OF False]
      using active sup ladder by (cases active) (simp_all add: evaluateTransition_transition evaluateTransition_severity split: option.split)
  qed
qed

section \<open>TLS expiry\<close>

lemma tlsExpirySeverity_rank_antimono:
  "d \<le> e \<Longrightarrow> severityRank (fst (tlsExpirySeverity e)) \<le> severityRank (fst (tlsExpirySeverity d))"
  by (auto simp: tlsExpirySeverity_def)


definition sample_probe :: "string \<Rightarrow> int option \<Rightarrow> time \<Rightarrow> ProbeObservation" where
  "sample_probe result days t0 =
     \<lparr> po_MonitoringInstanceID = ''mi'', po_TargetID = ''t'', po_ProbeItemID = ''p'',
       po_ProbeKind = ProbeKindTLS, po_ObservedAt = t0, po_ReceivedAt = t0, po_AgentVersion = [],
       po_Fingerprint = [], po_ResultKind = result, po_LatencyMS = None, po_HTTPStatus = None,
       po_TLSExpiryDays = days, po_ErrorCode = [], po_ErrorSummary = [],
       po_MaintenanceContext = False, po_IsBackfilled = False, po_SyncBatchID = [] \<rparr>"


end
