(* ===== verification/Resource_Pressure.thy ===== *)
theory Resource_Pressure
  imports Point_Evaluators
begin

text \<open>
  The resource pressure evaluator of \<open>internal/center/incidents/evaluator.go\<close>: windows of host
  samples, their coverage, their statistics, the sixteen pressure predicates and the decision.
  A loop over a slice with a start index is a recursion on the suffix that starts there; a group is
  a maximal run of samples with the same observation time.
\<close>

section \<open>Windows\<close>

record resourcePressureWindow =
  w_samples         :: "MonitoringInstanceResourceSample list"
  w_boundarySamples :: "MonitoringInstanceResourceSample list"
  w_covered         :: bool
  w_cpuUsable       :: bool
  w_singleton       :: bool
  w_allowSuppressed :: bool

definition emptyWindow :: resourcePressureWindow where
  "emptyWindow = \<lparr> w_samples = [], w_boundarySamples = [], w_covered = False, w_cpuUsable = False,
     w_singleton = False, w_allowSuppressed = False \<rparr>"

definition rs_suppressed :: "MonitoringInstanceResourceSample \<Rightarrow> bool" where
  "rs_suppressed s = (rs_MaintenanceContext s \<or> rs_IsBackfilled s)"

definition rs_cpuUsable :: "MonitoringInstanceResourceSample \<Rightarrow> bool" where
  "rs_cpuUsable s = CPURatesUsable (rs_CPURatesValid s) (rs_CPUUsagePct s) (rs_CPUIOWaitPct s) (rs_CPUStealPct s)"

definition validResourcePressurePolicy :: "ResourcePressurePolicy \<Rightarrow> bool" where
  "validResourcePressurePolicy policy =
     (if IsZero (rpp_EvaluatedAt policy) then False
      else rpp_SampleInterval policy \<in> {5 * second, minute, 5 * minute, 15 * minute, 6 * hour})"

definition resourcePressureLatestSuppressed :: "MonitoringInstanceResourceSample list \<Rightarrow> bool" where
  "resourcePressureLatestSuppressed samples =
     (case samples of
        [] \<Rightarrow> False
      | s # _ \<Rightarrow> list_all rs_suppressed (takeWhile (\<lambda>x. rs_ObservedAt x = rs_ObservedAt s) samples))"

record window_scan =
  ws_windowStart   :: int
  ws_windowEnd     :: int
  ws_boundaryStart :: int
  ws_boundaryEnd   :: int
  ws_exactBoundary :: bool

fun scanWindow ::
    "time \<Rightarrow> time \<Rightarrow> int \<Rightarrow> MonitoringInstanceResourceSample list \<Rightarrow> window_scan \<Rightarrow> window_scan" where
  "scanWindow reference leftBoundary index [] st = st"
| "scanWindow reference leftBoundary index (sample # rest) st =
     (if time_After (rs_ObservedAt sample) reference then
        scanWindow reference leftBoundary (index + 1) rest st
      else if time_Before (rs_ObservedAt sample) leftBoundary then
        (if ws_windowStart st \<ge> 0 then
           st\<lparr> ws_boundaryStart := index,
               ws_boundaryEnd := index + 1 +
                 int (length (takeWhile (\<lambda>x. rs_ObservedAt x = rs_ObservedAt sample) rest)) \<rparr>
         else st)
      else
        let st = (if ws_windowStart st < 0 then st\<lparr> ws_windowStart := index \<rparr> else st);
            st = st\<lparr> ws_windowEnd := index + 1 \<rparr>;
            st = (if rs_ObservedAt sample = leftBoundary then st\<lparr> ws_exactBoundary := True \<rparr> else st)
        in scanWindow reference leftBoundary (index + 1) rest st)"

definition slice :: "'a list \<Rightarrow> int \<Rightarrow> int \<Rightarrow> 'a list" where
  "slice xs lo hi = take (nat (hi - lo)) (drop (nat lo) xs)"

definition resourcePressureEffectiveGroup ::
    "MonitoringInstanceResourceSample list \<Rightarrow> bool \<Rightarrow> nat \<times> bool" where
  "resourcePressureEffectiveGroup samples allowSuppressed =
     (let grp = takeWhile (\<lambda>x. rs_ObservedAt x = rs_ObservedAt (hd samples)) (tl samples);
          end = Suc (length grp)
      in if allowSuppressed then (end, True)
         else (end, list_ex (\<lambda>s. \<not> rs_suppressed s) (take end samples)))"

function resourcePressureDistinctEffectiveTimes ::
    "MonitoringInstanceResourceSample list \<Rightarrow> bool \<Rightarrow> int" where
  "resourcePressureDistinctEffectiveTimes samples allowSuppressed =
     (if samples = [] then 0
      else
        let (end, included) = resourcePressureEffectiveGroup samples allowSuppressed in
        (if included then 1 else 0) +
        resourcePressureDistinctEffectiveTimes (drop end samples) allowSuppressed)"
  by pat_completeness auto
termination
  by (relation "measure (\<lambda>(samples, _). length samples)")
    (auto simp: resourcePressureEffectiveGroup_def Let_def split: if_splits)

declare resourcePressureDistinctEffectiveTimes.simps [simp del]

text \<open>
  The coverage loop: the state of the loop, and \<open>Inl\<close> of the four results where the code returns
  early.
\<close>

record coverage_state =
  cs_cpuOK    :: bool
  cs_distinct :: int
  cs_previous :: "time option"
  cs_oldest   :: time

definition coverageCpuOK :: "bool \<Rightarrow> MonitoringInstanceResourceSample list \<Rightarrow> bool" where
  "coverageCpuOK allowSuppressed grp =
     list_all (\<lambda>s. (\<not> allowSuppressed \<and> rs_suppressed s) \<or> rs_cpuUsable s) grp"

function coverageGroups ::
    "bool \<Rightarrow> duration \<Rightarrow> MonitoringInstanceResourceSample list \<Rightarrow> coverage_state \<Rightarrow>
     (bool \<times> bool \<times> int \<times> time) + coverage_state" where
  "coverageGroups allowSuppressed gapLimit grp st =
     (if grp = [] then Inr st
      else
        let (end, included) = resourcePressureEffectiveGroup grp allowSuppressed in
        if \<not> included then Inl (False, False, cs_distinct st, cs_oldest st)
        else
          let observedAt = rs_ObservedAt (hd grp) in
          if (case cs_previous st of None \<Rightarrow> False | Some p \<Rightarrow> time_Sub p observedAt > gapLimit)
          then Inl (False, False, cs_distinct st, cs_oldest st)
          else coverageGroups allowSuppressed gapLimit (drop end grp)
            \<lparr> cs_cpuOK = (cs_cpuOK st \<and> coverageCpuOK allowSuppressed (take end grp)),
              cs_distinct = cs_distinct st + 1,
              cs_previous = Some observedAt,
              cs_oldest = observedAt \<rparr>)"
  by pat_completeness auto
termination
  by (relation "measure (\<lambda>(_, _, grp, _). length grp)")
    (auto simp: resourcePressureEffectiveGroup_def Let_def split: if_splits)

declare coverageGroups.simps [simp del]

definition resourcePressureCoverage ::
    "MonitoringInstanceResourceSample list \<Rightarrow> MonitoringInstanceResourceSample list \<Rightarrow> bool \<Rightarrow> duration \<Rightarrow>
     bool \<times> bool \<times> int \<times> time" where
  "resourcePressureCoverage samples boundarySamples allowSuppressed gapLimit =
     (if samples = [] then (False, False, 0, zeroTime)
      else
        case coverageGroups allowSuppressed gapLimit samples
               \<lparr> cs_cpuOK = True, cs_distinct = 0, cs_previous = None, cs_oldest = zeroTime \<rparr> of
          Inl result \<Rightarrow> result
        | Inr st \<Rightarrow>
            (case coverageGroups allowSuppressed gapLimit boundarySamples st of
               Inl result \<Rightarrow> result
             | Inr st \<Rightarrow> (True, cs_cpuOK st, cs_distinct st, cs_oldest st)))"

definition buildResourcePressureWindowSorted ::
    "MonitoringInstanceResourceSample list \<Rightarrow> time \<Rightarrow> duration \<Rightarrow> ResourcePressurePolicy \<Rightarrow> bool \<Rightarrow>
     resourcePressureWindow" where
  "buildResourcePressureWindowSorted samples reference width policy allowSuppressed =
     (let window = emptyWindow\<lparr> w_allowSuppressed := allowSuppressed \<rparr> in
      if width \<le> 0 \<or> \<not> validResourcePressurePolicy policy then window
      else
        let leftBoundary = reference - width;
            sc = scanWindow reference leftBoundary 0 samples
              \<lparr> ws_windowStart = - 1, ws_windowEnd = - 1, ws_boundaryStart = - 1, ws_boundaryEnd = - 1,
                ws_exactBoundary = False \<rparr>
        in if ws_windowStart sc < 0 then window
        else
          let window = window\<lparr> w_samples := slice samples (ws_windowStart sc) (ws_windowEnd sc) \<rparr>;
              window = (if \<not> ws_exactBoundary sc \<and> ws_boundaryStart sc \<ge> 0
                then window\<lparr> w_boundarySamples := slice samples (ws_boundaryStart sc) (ws_boundaryEnd sc) \<rparr>
                else window)
          in if rpp_SampleInterval policy \<le> 0 \<or> rpp_SampleInterval policy > width then window
          else
            let gapLimit = 2 * rpp_SampleInterval policy + 10 * millisecond;
                age = time_Sub (rpp_EvaluatedAt policy) reference
            in if age < 0 \<or> age > gapLimit then window
            else
              let distinctWindowTimes = resourcePressureDistinctEffectiveTimes (w_samples window) allowSuppressed;
                  window = window\<lparr> w_singleton := distinctWindowTimes = 1 \<rparr>
              in if distinctWindowTimes = 0 then window
              else
                let (coverageOK, cpuOK, distinctTimes, oldest) =
                      resourcePressureCoverage (w_samples window) (w_boundarySamples window) allowSuppressed gapLimit
                in if \<not> coverageOK \<or> distinctTimes < 2 \<or> time_After oldest leftBoundary then window
                   else window\<lparr> w_covered := True, w_cpuUsable := cpuOK \<rparr>)"

definition buildResourcePressureWindow ::
    "MonitoringInstanceResourceSample list \<Rightarrow> time \<Rightarrow> duration \<Rightarrow> ResourcePressurePolicy \<Rightarrow> bool \<Rightarrow>
     resourcePressureWindow" where
  "buildResourcePressureWindow samples reference width policy allowSuppressed =
     buildResourcePressureWindowSorted (normalizeMonitoringInstanceResourceSamples samples)
       reference width policy allowSuppressed"

section \<open>Statistics\<close>

record resourcePressureWindowStats =
  st_count           :: int
  st_cpuUsable       :: bool
  st_cpuUsageTotal   :: f64
  st_loadTotal       :: f64
  st_memTotal        :: f64
  st_swapTotal       :: f64
  st_iowaitTotal     :: f64
  st_stealTotal      :: f64
  st_memAvailableMin :: f64

definition zeroStats :: resourcePressureWindowStats where
  "zeroStats = \<lparr> st_count = 0, st_cpuUsable = False, st_cpuUsageTotal = Fin 0, st_loadTotal = Fin 0,
     st_memTotal = Fin 0, st_swapTotal = Fin 0, st_iowaitTotal = Fin 0, st_stealTotal = Fin 0,
     st_memAvailableMin = Fin 0 \<rparr>"

definition addSample ::
    "bool \<Rightarrow> MonitoringInstanceResourceSample \<Rightarrow> resourcePressureWindowStats \<Rightarrow> resourcePressureWindowStats" where
  "addSample allowSuppressed sample stats =
     (if \<not> allowSuppressed \<and> rs_suppressed sample then stats
      else
        let available = f64_of_int (rs_MemAvailableBytes sample) in
        \<lparr> st_count = st_count stats + 1,
          st_cpuUsable = (if \<not> rs_cpuUsable sample then False else st_cpuUsable stats),
          st_cpuUsageTotal = f_add (st_cpuUsageTotal stats) (rs_CPUUsagePct sample),
          st_loadTotal = f_add (st_loadTotal stats) (rs_NormalizedLoad5 sample),
          st_memTotal = f_add (st_memTotal stats) (rs_MemUsedPct sample),
          st_swapTotal = f_add (st_swapTotal stats) (rs_SwapUsedPct sample),
          st_iowaitTotal = f_add (st_iowaitTotal stats) (rs_CPUIOWaitPct sample),
          st_stealTotal = f_add (st_stealTotal stats) (rs_CPUStealPct sample),
          st_memAvailableMin =
            (if f_lt available (st_memAvailableMin stats) then available else st_memAvailableMin stats) \<rparr>)"

function addGroups ::
    "bool \<Rightarrow> MonitoringInstanceResourceSample list \<Rightarrow> resourcePressureWindowStats \<Rightarrow> resourcePressureWindowStats" where
  "addGroups allowSuppressed samples stats =
     (if samples = [] then stats
      else
        let (end, included) = resourcePressureEffectiveGroup samples allowSuppressed in
        addGroups allowSuppressed (drop end samples)
          (if included then fold (addSample allowSuppressed) (take end samples) stats else stats))"
  by pat_completeness auto
termination
  by (relation "measure (\<lambda>(_, samples, _). length samples)")
    (auto simp: resourcePressureEffectiveGroup_def Let_def split: if_splits)

declare addGroups.simps [simp del]

definition resourcePressureSamplesStatistics ::
    "MonitoringInstanceResourceSample list \<Rightarrow> bool \<Rightarrow> resourcePressureWindowStats" where
  "resourcePressureSamplesStatistics samples allowSuppressed =
     (let stats = addGroups allowSuppressed samples
            (zeroStats\<lparr> st_cpuUsable := True, st_memAvailableMin := PInf \<rparr>)
      in if st_count stats = 0 then stats\<lparr> st_cpuUsable := False, st_memAvailableMin := Fin 0 \<rparr> else stats)"

definition resourcePressureWindowStatistics :: "resourcePressureWindow \<Rightarrow> resourcePressureWindowStats" where
  "resourcePressureWindowStatistics window =
     resourcePressureSamplesStatistics (w_samples window) (w_allowSuppressed window)"

definition resourcePressureWindowBoundaryStatistics :: "resourcePressureWindow \<Rightarrow> resourcePressureWindowStats" where
  "resourcePressureWindowBoundaryStatistics window =
     resourcePressureSamplesStatistics (w_boundarySamples window) (w_allowSuppressed window)"

section \<open>Pressure predicates\<close>

datatype resourcePressurePredicate =
  resourcePressureCriticalCPU30
| resourcePressureCriticalLoad30
| resourcePressureCriticalMemory30
| resourcePressureCriticalIOWait30
| resourcePressureAlertCPU15
| resourcePressureAlertLoad15
| resourcePressureAlertMemory15
| resourcePressureAlertIOWait15
| resourcePressureAlertSteal30
| resourcePressureNoticeCPU15
| resourcePressureNoticeLoad15
| resourcePressureNoticeMemory15
| resourcePressureNoticeIOWait15
| resourcePressureNoticeSwap15
| resourcePressureNoticeIOWaitFloor15
| resourcePressureNoticeSteal15

definition mean :: "f64 \<Rightarrow> resourcePressureWindowStats \<Rightarrow> f64" where
  "mean tot stats = f_div tot (f64_of_int (st_count stats))"

fun resourcePressurePredicateMatches ::
    "resourcePressurePredicate \<Rightarrow> resourcePressureWindowStats \<Rightarrow> MetricThresholds \<Rightarrow> bool" where
  "resourcePressurePredicateMatches resourcePressureCriticalCPU30 stats thresholds =
     f_ge (mean (st_cpuUsageTotal stats) stats) (f64_of_int (mt_CPUCriticalPct thresholds))"
| "resourcePressurePredicateMatches resourcePressureCriticalLoad30 stats thresholds =
     f_ge (mean (st_loadTotal stats) stats) (mt_Load5Critical thresholds)"
| "resourcePressurePredicateMatches resourcePressureCriticalMemory30 stats thresholds =
     (f_ge (mean (st_memTotal stats) stats) (f64_of_int (mt_MemCriticalPct thresholds)) \<and>
      f_le (st_memAvailableMin stats) (Fin (512 * 1024 * 1024)))"
| "resourcePressurePredicateMatches resourcePressureCriticalIOWait30 stats thresholds =
     f_ge (mean (st_iowaitTotal stats) stats) (f64_of_int (mt_IOWaitCriticalPct thresholds))"
| "resourcePressurePredicateMatches resourcePressureAlertCPU15 stats thresholds =
     f_ge (mean (st_cpuUsageTotal stats) stats) (f64_of_int (mt_CPUAlertPct thresholds))"
| "resourcePressurePredicateMatches resourcePressureAlertLoad15 stats thresholds =
     f_ge (mean (st_loadTotal stats) stats) (mt_Load5Alert thresholds)"
| "resourcePressurePredicateMatches resourcePressureAlertMemory15 stats thresholds =
     f_ge (mean (st_memTotal stats) stats) (f64_of_int (mt_MemAlertPct thresholds))"
| "resourcePressurePredicateMatches resourcePressureAlertIOWait15 stats thresholds =
     f_ge (mean (st_iowaitTotal stats) stats) (f64_of_int (mt_IOWaitAlertPct thresholds))"
| "resourcePressurePredicateMatches resourcePressureAlertSteal30 stats thresholds =
     f_ge (mean (st_stealTotal stats) stats) (Fin 10)"
| "resourcePressurePredicateMatches resourcePressureNoticeCPU15 stats thresholds =
     f_ge (mean (st_cpuUsageTotal stats) stats) (f64_of_int (mt_CPUWarningPct thresholds))"
| "resourcePressurePredicateMatches resourcePressureNoticeLoad15 stats thresholds =
     f_ge (mean (st_loadTotal stats) stats) (mt_Load5Warning thresholds)"
| "resourcePressurePredicateMatches resourcePressureNoticeMemory15 stats thresholds =
     f_ge (mean (st_memTotal stats) stats) (f64_of_int (mt_MemWarningPct thresholds))"
| "resourcePressurePredicateMatches resourcePressureNoticeIOWait15 stats thresholds =
     f_ge (mean (st_iowaitTotal stats) stats) (f64_of_int (mt_IOWaitWarningPct thresholds))"
| "resourcePressurePredicateMatches resourcePressureNoticeSwap15 stats thresholds =
     f_gt (mean (st_swapTotal stats) stats) (Fin 10)"
| "resourcePressurePredicateMatches resourcePressureNoticeIOWaitFloor15 stats thresholds =
     f_ge (mean (st_iowaitTotal stats) stats) (Fin 10)"
| "resourcePressurePredicateMatches resourcePressureNoticeSteal15 stats thresholds =
     f_ge (mean (st_stealTotal stats) stats) (Fin 5)"

definition resourcePressureCandidateSupported ::
    "resourcePressureWindow \<Rightarrow> resourcePressureWindowStats \<Rightarrow> resourcePressureWindowStats \<Rightarrow> bool \<Rightarrow> bool \<Rightarrow>
     resourcePressurePredicate \<Rightarrow> MetricThresholds \<Rightarrow> bool" where
  "resourcePressureCandidateSupported window stats boundaryStats cpuRequired requireSingletonBoundary
      predicate thresholds =
     (if \<not> w_covered window \<or> st_count stats = 0 \<or> (cpuRequired \<and> \<not> w_cpuUsable window) \<or>
         \<not> resourcePressurePredicateMatches predicate stats thresholds then False
      else if \<not> requireSingletonBoundary \<or> \<not> w_singleton window then True
      else if w_boundarySamples window = [] \<or> st_count boundaryStats = 0 \<or>
         (cpuRequired \<and> \<not> st_cpuUsable boundaryStats) then False
      else resourcePressurePredicateMatches predicate boundaryStats thresholds)"

record resourcePressureSeverityResult =
  sr_severity :: Severity
  sr_summary  :: string
  sr_active   :: bool
  sr_cpu      :: bool

text \<open>
  The switch of \<open>resourcePressureSeverityFromStats\<close> as a table, one row per case and in its order:
  whether the 30 minute window is read, whether the case needs CPU evidence, its predicate, and the
  severity, label, statistic and unit of its result (label and unit by their code points).
\<close>

record pressure_case =
  pc_thirty    :: bool
  pc_cpu       :: bool
  pc_predicate :: resourcePressurePredicate
  pc_severity  :: Severity
  pc_label     :: "nat list"
  pc_total     :: "resourcePressureWindowStats \<Rightarrow> f64"
  pc_unit      :: "nat list"

definition pressure_cases :: "pressure_case list" where
  "pressure_cases =
   [\<lparr> pc_thirty = True, pc_cpu = True, pc_predicate = resourcePressureCriticalCPU30, pc_severity = SeverityCritical,
       pc_label = [0x43, 0x50, 0x55, 0x20, 0x8FDE, 0x7EED, 0x20, 0x33, 0x30, 0x6D, 0x20, 0x5E73, 0x5747, 0x20],
       pc_total = st_cpuUsageTotal, pc_unit = [0x25] \<rparr>,
    \<lparr> pc_thirty = True, pc_cpu = False, pc_predicate = resourcePressureCriticalLoad30, pc_severity = SeverityCritical,
       pc_label = [0x5F52, 0x4E00, 0x5316, 0x20, 0x4C, 0x6F, 0x61, 0x64, 0x35, 0x20, 0x8FDE, 0x7EED, 0x20, 0x33, 0x30, 0x6D, 0x20, 0x5E73, 0x5747, 0x20],
       pc_total = st_loadTotal, pc_unit = [] \<rparr>,
    \<lparr> pc_thirty = True, pc_cpu = False, pc_predicate = resourcePressureCriticalMemory30, pc_severity = SeverityCritical,
       pc_label = [0x5185, 0x5B58, 0x8FDE, 0x7EED, 0x20, 0x33, 0x30, 0x6D, 0x20, 0x5E73, 0x5747, 0x20],
       pc_total = st_memTotal, pc_unit = [0x25, 0xFF0C, 0x53EF, 0x7528, 0x5185, 0x5B58, 0x6301, 0x7EED, 0x504F, 0x4F4E] \<rparr>,
    \<lparr> pc_thirty = True, pc_cpu = True, pc_predicate = resourcePressureCriticalIOWait30, pc_severity = SeverityCritical,
       pc_label = [0x69, 0x6F, 0x77, 0x61, 0x69, 0x74, 0x20, 0x8FDE, 0x7EED, 0x20, 0x33, 0x30, 0x6D, 0x20, 0x5E73, 0x5747, 0x20],
       pc_total = st_iowaitTotal, pc_unit = [0x25] \<rparr>,
    \<lparr> pc_thirty = False, pc_cpu = True, pc_predicate = resourcePressureAlertCPU15, pc_severity = SeverityAlert,
       pc_label = [0x43, 0x50, 0x55, 0x20, 0x8FDE, 0x7EED, 0x20, 0x31, 0x35, 0x6D, 0x20, 0x5E73, 0x5747, 0x20],
       pc_total = st_cpuUsageTotal, pc_unit = [0x25] \<rparr>,
    \<lparr> pc_thirty = False, pc_cpu = False, pc_predicate = resourcePressureAlertLoad15, pc_severity = SeverityAlert,
       pc_label = [0x5F52, 0x4E00, 0x5316, 0x20, 0x4C, 0x6F, 0x61, 0x64, 0x35, 0x20, 0x8FDE, 0x7EED, 0x20, 0x31, 0x35, 0x6D, 0x20, 0x5E73, 0x5747, 0x20],
       pc_total = st_loadTotal, pc_unit = [] \<rparr>,
    \<lparr> pc_thirty = False, pc_cpu = False, pc_predicate = resourcePressureAlertMemory15, pc_severity = SeverityAlert,
       pc_label = [0x5185, 0x5B58, 0x8FDE, 0x7EED, 0x20, 0x31, 0x35, 0x6D, 0x20, 0x5E73, 0x5747, 0x20],
       pc_total = st_memTotal, pc_unit = [0x25] \<rparr>,
    \<lparr> pc_thirty = False, pc_cpu = True, pc_predicate = resourcePressureAlertIOWait15, pc_severity = SeverityAlert,
       pc_label = [0x69, 0x6F, 0x77, 0x61, 0x69, 0x74, 0x20, 0x8FDE, 0x7EED, 0x20, 0x31, 0x35, 0x6D, 0x20, 0x5E73, 0x5747, 0x20],
       pc_total = st_iowaitTotal, pc_unit = [0x25] \<rparr>,
    \<lparr> pc_thirty = True, pc_cpu = True, pc_predicate = resourcePressureAlertSteal30, pc_severity = SeverityAlert,
       pc_label = [0x73, 0x74, 0x65, 0x61, 0x6C, 0x20, 0x8FDE, 0x7EED, 0x20, 0x33, 0x30, 0x6D, 0x20, 0x5E73, 0x5747, 0x20],
       pc_total = st_stealTotal, pc_unit = [0x25] \<rparr>,
    \<lparr> pc_thirty = False, pc_cpu = True, pc_predicate = resourcePressureNoticeCPU15, pc_severity = SeverityNotice,
       pc_label = [0x43, 0x50, 0x55, 0x20, 0x8FDE, 0x7EED, 0x20, 0x31, 0x35, 0x6D, 0x20, 0x5E73, 0x5747, 0x20],
       pc_total = st_cpuUsageTotal, pc_unit = [0x25] \<rparr>,
    \<lparr> pc_thirty = False, pc_cpu = False, pc_predicate = resourcePressureNoticeLoad15, pc_severity = SeverityNotice,
       pc_label = [0x5F52, 0x4E00, 0x5316, 0x20, 0x4C, 0x6F, 0x61, 0x64, 0x35, 0x20, 0x8FDE, 0x7EED, 0x20, 0x31, 0x35, 0x6D, 0x20, 0x5E73, 0x5747, 0x20],
       pc_total = st_loadTotal, pc_unit = [] \<rparr>,
    \<lparr> pc_thirty = False, pc_cpu = False, pc_predicate = resourcePressureNoticeMemory15, pc_severity = SeverityNotice,
       pc_label = [0x5185, 0x5B58, 0x8FDE, 0x7EED, 0x20, 0x31, 0x35, 0x6D, 0x20, 0x5E73, 0x5747, 0x20],
       pc_total = st_memTotal, pc_unit = [0x25] \<rparr>,
    \<lparr> pc_thirty = False, pc_cpu = True, pc_predicate = resourcePressureNoticeIOWait15, pc_severity = SeverityNotice,
       pc_label = [0x69, 0x6F, 0x77, 0x61, 0x69, 0x74, 0x20, 0x8FDE, 0x7EED, 0x20, 0x31, 0x35, 0x6D, 0x20, 0x5E73, 0x5747, 0x20],
       pc_total = st_iowaitTotal, pc_unit = [0x25] \<rparr>,
    \<lparr> pc_thirty = False, pc_cpu = False, pc_predicate = resourcePressureNoticeSwap15, pc_severity = SeverityNotice,
       pc_label = [0x73, 0x77, 0x61, 0x70, 0x20, 0x8FDE, 0x7EED, 0x20, 0x31, 0x35, 0x6D, 0x20, 0x5E73, 0x5747, 0x20],
       pc_total = st_swapTotal, pc_unit = [0x25] \<rparr>,
    \<lparr> pc_thirty = False, pc_cpu = True, pc_predicate = resourcePressureNoticeIOWaitFloor15, pc_severity = SeverityNotice,
       pc_label = [0x69, 0x6F, 0x77, 0x61, 0x69, 0x74, 0x20, 0x8FDE, 0x7EED, 0x20, 0x31, 0x35, 0x6D, 0x20, 0x5E73, 0x5747, 0x20],
       pc_total = st_iowaitTotal, pc_unit = [0x25] \<rparr>,
    \<lparr> pc_thirty = False, pc_cpu = True, pc_predicate = resourcePressureNoticeSteal15, pc_severity = SeverityNotice,
       pc_label = [0x73, 0x74, 0x65, 0x61, 0x6C, 0x20, 0x8FDE, 0x7EED, 0x20, 0x31, 0x35, 0x6D, 0x20, 0x5E73, 0x5747, 0x20],
       pc_total = st_stealTotal, pc_unit = [0x25] \<rparr>]"

definition resourcePressureSeverityFromStats ::
    "resourcePressureWindow \<Rightarrow> resourcePressureWindowStats \<Rightarrow> resourcePressureWindowStats \<Rightarrow>
     resourcePressureWindow \<Rightarrow> resourcePressureWindowStats \<Rightarrow> resourcePressureWindowStats \<Rightarrow>
     MetricThresholds \<Rightarrow> bool \<Rightarrow> bool \<Rightarrow> resourcePressureSeverityResult" where
  "resourcePressureSeverityFromStats window15 stats15 boundaryStats15 window30 stats30 boundaryStats30
      thresholds requireSingletonBoundary cpuCandidatesEnabled =
     (case find (\<lambda>c. (pc_cpu c \<longrightarrow> cpuCandidatesEnabled) \<and>
            (if pc_thirty c
             then resourcePressureCandidateSupported window30 stats30 boundaryStats30 (pc_cpu c)
                    requireSingletonBoundary (pc_predicate c) thresholds
             else resourcePressureCandidateSupported window15 stats15 boundaryStats15 (pc_cpu c)
                    requireSingletonBoundary (pc_predicate c) thresholds)) pressure_cases of
        None \<Rightarrow> \<lparr> sr_severity = SeverityNormal, sr_summary = [], sr_active = False, sr_cpu = False \<rparr>
      | Some c \<Rightarrow>
          let stats = (if pc_thirty c then stats30 else stats15) in
          \<lparr> sr_severity = pc_severity c,
            sr_summary = utf8 (pc_label c) @ fmt_f1 (mean (pc_total c stats) stats) @ utf8 (pc_unit c),
            sr_active = True, sr_cpu = pc_cpu c \<rparr>)"

definition resourcePressureSeverity ::
    "resourcePressureWindow \<Rightarrow> resourcePressureWindow \<Rightarrow> MetricThresholds \<Rightarrow> bool \<Rightarrow> resourcePressureSeverityResult" where
  "resourcePressureSeverity window15 window30 thresholds cpuCandidatesEnabled =
     resourcePressureSeverityFromStats
       window15 (resourcePressureWindowStatistics window15) (resourcePressureWindowBoundaryStatistics window15)
       window30 (resourcePressureWindowStatistics window30) (resourcePressureWindowBoundaryStatistics window30)
       thresholds True cpuCandidatesEnabled"

text \<open>The boundary of a covered one-sample window, as a window of its own.\<close>

definition boundaryWindowOf ::
    "resourcePressureWindow \<Rightarrow> resourcePressureWindow \<times> resourcePressureWindowStats" where
  "boundaryWindowOf window =
     (if w_covered window \<and> w_singleton window \<and> w_boundarySamples window \<noteq> [] then
        let boundaryStats = resourcePressureWindowBoundaryStatistics window in
        (if st_count boundaryStats > 0
           then emptyWindow\<lparr> w_covered := True, w_cpuUsable := st_cpuUsable boundaryStats \<rparr>
           else emptyWindow, boundaryStats)
      else (emptyWindow, zeroStats))"

definition resourcePressureBoundarySeverity ::
    "resourcePressureWindow \<Rightarrow> resourcePressureWindow \<Rightarrow> MetricThresholds \<Rightarrow> bool \<Rightarrow> resourcePressureSeverityResult" where
  "resourcePressureBoundarySeverity window15 window30 thresholds include30 =
     (let (boundaryWindow15, boundaryStats15) = boundaryWindowOf window15;
          (boundaryWindow30, boundaryStats30) =
            (if include30 then boundaryWindowOf window30 else (emptyWindow, zeroStats))
      in resourcePressureSeverityFromStats boundaryWindow15 boundaryStats15 zeroStats
           boundaryWindow30 boundaryStats30 zeroStats thresholds False True)"

definition resourcePressureRecoveryHasPressure ::
    "resourcePressureWindow \<Rightarrow> resourcePressureWindow \<Rightarrow> MetricThresholds \<Rightarrow> bool \<Rightarrow> bool" where
  "resourcePressureRecoveryHasPressure window15 window30 thresholds include30 =
     (let stats15 = resourcePressureWindowStatistics window15;
          boundaryStats15 = resourcePressureWindowBoundaryStatistics window15
      in if include30 then
           let stats30 = resourcePressureWindowStatistics window30;
               current = resourcePressureSeverityFromStats window15 stats15 zeroStats
                 window30 stats30 zeroStats thresholds False True
           in if sr_active current then True
              else sr_active (resourcePressureBoundarySeverity window15 window30 thresholds True)
         else
           let current = resourcePressureSeverityFromStats window15 stats15 zeroStats
                 emptyWindow zeroStats zeroStats thresholds False True
           in if sr_active current then True
              else if \<not> w_covered window15 \<or> \<not> w_singleton window15 \<or> w_boundarySamples window15 = [] \<or>
                   st_count boundaryStats15 = 0 then False
              else
                let boundaryWindow = emptyWindow\<lparr> w_covered := True, w_cpuUsable := st_cpuUsable boundaryStats15 \<rparr>
                in sr_active (resourcePressureSeverityFromStats boundaryWindow boundaryStats15 zeroStats
                     emptyWindow zeroStats zeroStats thresholds False True))"

definition resourcePressureBoundarySeverityHigher ::
    "resourcePressureWindow \<Rightarrow> resourcePressureWindow \<Rightarrow> MetricThresholds \<Rightarrow> Severity \<Rightarrow> bool \<Rightarrow> bool" where
  "resourcePressureBoundarySeverityHigher window15 window30 thresholds current include30 =
     (let boundary = resourcePressureBoundarySeverity window15 window30 thresholds include30
      in sr_active boundary \<and> severityRank (sr_severity boundary) > severityRank current)"

section \<open>The evaluator\<close>

definition EvaluateMonitoringInstanceResourcePressure ::
    "IncidentRecord option \<Rightarrow> string \<Rightarrow> MonitoringInstanceResourceSample list \<Rightarrow> MetricThresholds \<Rightarrow>
     ResourcePressurePolicy \<Rightarrow> EvaluationResult" where
  "EvaluateMonitoringInstanceResourcePressure previous monitoringInstanceID samples thresholds policy =
     (let samples = normalizeMonitoringInstanceResourceSamples samples in
      if samples = [] \<or> \<not> validResourcePressurePolicy policy then noop previous
      else
        let referenceTime = rs_ObservedAt (hd samples);
            activeWindow15 = buildResourcePressureWindowSorted samples referenceTime (15 * minute) policy False;
            activeWindow30 = buildResourcePressureWindowSorted samples referenceTime (30 * minute) policy False;
            suppressed = resourcePressureLatestSuppressed samples;
            recoveryWindow15 = (if previous \<noteq> None
              then buildResourcePressureWindowSorted samples referenceTime (15 * minute) policy True
              else emptyWindow);
            recoveryWindow30 = (if previous \<noteq> None
              then buildResourcePressureWindowSorted samples referenceTime (30 * minute) policy True
              else emptyWindow);
            wasCritical = (case previous of None \<Rightarrow> False | Some p \<Rightarrow> inc_Severity p = SeverityCritical);
            recoveryWindow = (if wasCritical then recoveryWindow30 else recoveryWindow15);
            recoveryEvidenceUsable = (previous = None \<or> (w_covered recoveryWindow \<and> w_cpuUsable recoveryWindow));
            severity = resourcePressureSeverity activeWindow15 activeWindow30 thresholds recoveryEvidenceUsable
        in if \<not> sr_active severity then
             if previous = None then noop previous
             else if \<not> w_covered recoveryWindow \<or> \<not> w_cpuUsable recoveryWindow \<or>
                  resourcePressureRecoveryHasPressure recoveryWindow15 recoveryWindow30 thresholds wasCritical
             then noop previous
             else
               let result = recoverIfNeeded previous referenceTime (utf8 [0x8D44, 0x6E90, 0x538B, 0x529B, 0x6062, 0x590D, 0x5230, 0x5B89, 0x5168, 0x533A, 0x95F4])
                     MonitoringEventProvenanceAgentSync (rs_IsBackfilled (hd samples))
               in if suppressed then suppressNotification result else result
           else if (case previous of
                None \<Rightarrow> False
              | Some p \<Rightarrow>
                  (\<not> w_covered recoveryWindow \<or> \<not> w_cpuUsable recoveryWindow) \<and>
                  (sr_cpu severity \<or> severityRank (sr_severity severity) \<le> severityRank (inc_Severity p)) \<or>
                  severityRank (sr_severity severity) < severityRank (inc_Severity p) \<and>
                  resourcePressureBoundarySeverityHigher recoveryWindow15 recoveryWindow30 thresholds
                    (sr_severity severity) True)
           then noop previous
           else if suppressed then skip previous
           else evaluateTransition previous ObjectTypeMonitoringInstance monitoringInstanceID
             IncidentMonitoringInstanceResourcePressure (sr_severity severity) referenceTime
             (sr_summary severity) MonitoringEventProvenanceAgentSync)"

section \<open>Groups\<close>

lemma effectiveGroup_split:
  assumes "zs \<noteq> []" and "resourcePressureEffectiveGroup zs allow = (e, inc)"
  shows "take e zs = hd zs # takeWhile (\<lambda>x. rs_ObservedAt x = rs_ObservedAt (hd zs)) (tl zs)"
    and "drop e zs = dropWhile (\<lambda>x. rs_ObservedAt x = rs_ObservedAt (hd zs)) (tl zs)"
    and "\<forall>s\<in>set (take e zs). rs_ObservedAt s = rs_ObservedAt (hd zs)"
    and "inc \<longleftrightarrow> allow \<or> (\<exists>s\<in>set (take e zs). \<not> rs_suppressed s)"
proof -
  let ?P = "\<lambda>x. rs_ObservedAt x = rs_ObservedAt (hd zs)"
  have zs: "zs = hd zs # tl zs" using assms(1) by simp
  have e: "e = Suc (length (takeWhile ?P (tl zs)))"
    using assms(2) by (auto simp: resourcePressureEffectiveGroup_def Let_def split: if_splits)
  show t: "take e zs = hd zs # takeWhile ?P (tl zs)"
    by (subst zs) (simp add: e takeWhile_eq_take [symmetric])
  show "drop e zs = dropWhile ?P (tl zs)"
    by (subst zs) (simp add: e dropWhile_eq_drop [symmetric])
  show "\<forall>s\<in>set (take e zs). ?P s"
    by (auto simp: t dest: set_takeWhileD)
  show "inc \<longleftrightarrow> allow \<or> (\<exists>s\<in>set (take e zs). \<not> rs_suppressed s)"
    using assms(2) by (auto simp: resourcePressureEffectiveGroup_def Let_def list_ex_iff split: if_splits)
qed

lemma fold_addSample_skip:
  "\<forall>s\<in>set xs. rs_suppressed s \<Longrightarrow> fold (addSample False) xs stats = stats"
  by (induction xs arbitrary: stats) (simp_all add: addSample_def)

lemma addGroups_fold: "addGroups allow samples stats = fold (addSample allow) samples stats"
proof (induction allow samples stats rule: addGroups.induct)
  case (1 allow samples stats)
  show ?case
  proof (cases "samples = []")
    case False
    obtain e inc where g: "resourcePressureEffectiveGroup samples allow = (e, inc)" by fastforce
    let ?st = "fold (addSample allow) (take e samples) stats"
    have eq: "(if inc then ?st else stats) = ?st"
    proof (cases inc)
      case False
      hence "allow = False" "\<forall>s\<in>set (take e samples). rs_suppressed s"
        using effectiveGroup_split(4) [OF \<open>samples \<noteq> []\<close> g] by blast+
      thus ?thesis using False by (simp add: fold_addSample_skip)
    qed simp
    have "addGroups allow samples stats = addGroups allow (drop e samples) ?st"
      using False by (simp add: addGroups.simps [of allow samples stats] g eq)
    also have "\<dots> = fold (addSample allow) (drop e samples) ?st"
      using 1 [OF False g [symmetric] refl] unfolding eq .
    also have "\<dots> = fold (addSample allow) (take e samples @ drop e samples) stats"
      by (simp only: fold_append comp_apply)
    finally show ?thesis by simp
  qed (simp add: addGroups.simps)
qed

lemma fold_addSample_filter:
  "fold (addSample False) samples stats =
   fold (addSample True) (filter (\<lambda>s. \<not> rs_suppressed s) samples) stats"
  by (induction samples arbitrary: stats) (simp_all add: addSample_def)

lemma fold_addSample_count:
  "st_count (fold (addSample True) samples stats) = st_count stats + int (length samples)"
  by (induction samples arbitrary: stats) (simp_all add: addSample_def Let_def)

lemma statistics_count:
  "st_count (resourcePressureSamplesStatistics samples allow) =
     int (length (if allow then samples else filter (\<lambda>s. \<not> rs_suppressed s) samples))"
  by (cases allow)
    (simp_all add: resourcePressureSamplesStatistics_def addGroups_fold fold_addSample_filter Let_def
      fold_addSample_count zeroStats_def)

text \<open>
  (C8) The statistics of a window are those of its effective samples: grouping by time does not
  change the sums, counts and minima, which are a left fold over the samples that are not
  suppressed (over all of them when suppressed samples are allowed).
\<close>

theorem statistics_of_effective_samples:
  "resourcePressureSamplesStatistics samples allow =
     (let effective = (if allow then samples else filter (\<lambda>s. \<not> rs_suppressed s) samples);
          stats = fold (addSample True) effective (zeroStats\<lparr> st_cpuUsable := True, st_memAvailableMin := PInf \<rparr>)
      in if effective = [] then zeroStats else stats) \<and>
   st_count (resourcePressureSamplesStatistics samples allow) =
     int (length (if allow then samples else filter (\<lambda>s. \<not> rs_suppressed s) samples))"
  by (cases allow)
    (auto simp: resourcePressureSamplesStatistics_def addGroups_fold fold_addSample_filter Let_def
      fold_addSample_count zeroStats_def)

section \<open>Coverage\<close>

fun gaps_ok :: "duration \<Rightarrow> time option \<Rightarrow> MonitoringInstanceResourceSample list \<Rightarrow> bool" where
  "gaps_ok limit p [] = True"
| "gaps_ok limit p (s # rest) =
     ((case p of None \<Rightarrow> True | Some t \<Rightarrow> time_Sub t (rs_ObservedAt s) \<le> limit) \<and>
      gaps_ok limit (Some (rs_ObservedAt s)) rest)"

lemma gaps_ok_group:
  assumes "0 \<le> limit" and "\<forall>s\<in>set g. rs_ObservedAt s = t"
  shows "gaps_ok limit (Some t) (g @ rest) = gaps_ok limit (Some t) rest"
  using assms(2) assms(1) by (induction g) (auto simp: time_Sub_def minInt64_def maxInt64_def)

lemma gaps_ok_append:
  "gaps_ok limit p (xs @ ys) = (gaps_ok limit p xs \<and>
     gaps_ok limit (if xs = [] then p else Some (rs_ObservedAt (last xs))) ys)"
  by (induction xs arbitrary: p) auto

lemma coverageGroups_sound:
  assumes "coverageGroups allow limit zs st = Inr st'" and "0 \<le> limit"
  shows "gaps_ok limit (cs_previous st) zs \<and>
    (if zs = [] then st' = st
     else cs_previous st' = Some (rs_ObservedAt (last zs)) \<and> cs_oldest st' = rs_ObservedAt (last zs)) \<and>
    cs_cpuOK st' = (cs_cpuOK st \<and> coverageCpuOK allow zs) \<and>
    (\<forall>s\<in>set zs. \<exists>s'\<in>set zs. rs_ObservedAt s' = rs_ObservedAt s \<and> (allow \<or> \<not> rs_suppressed s'))"
  using assms
proof (induction allow limit zs st rule: coverageGroups.induct)
  case (1 allow limit zs st)
  show ?case
  proof (cases "zs = []")
    case True
    thus ?thesis using 1 by (simp add: coverageCpuOK_def coverageGroups.simps)
  next
    case False
    obtain e inc where g: "resourcePressureEffectiveGroup zs allow = (e, inc)" by fastforce
    note G = effectiveGroup_split [OF False g]
    let ?t = "rs_ObservedAt (hd zs)"
    let ?st = "\<lparr> cs_cpuOK = (cs_cpuOK st \<and> coverageCpuOK allow (take e zs)), cs_distinct = cs_distinct st + 1,
      cs_previous = Some ?t, cs_oldest = ?t \<rparr>"
    have inc: inc and head: "case cs_previous st of None \<Rightarrow> True | Some p \<Rightarrow> time_Sub p ?t \<le> limit"
      and rec: "coverageGroups allow limit (drop e zs) ?st = Inr st'"
      using 1(2) False g
      by (auto simp: coverageGroups.simps [of allow limit zs st] Let_def split: if_splits option.splits)
    have IH: "gaps_ok limit (Some ?t) (drop e zs) \<and>
      (if drop e zs = [] then st' = ?st
       else cs_previous st' = Some (rs_ObservedAt (last (drop e zs))) \<and>
         cs_oldest st' = rs_ObservedAt (last (drop e zs))) \<and>
      cs_cpuOK st' = (cs_cpuOK ?st \<and> coverageCpuOK allow (drop e zs)) \<and>
      (\<forall>s\<in>set (drop e zs). \<exists>s'\<in>set (drop e zs). rs_ObservedAt s' = rs_ObservedAt s \<and> (allow \<or> \<not> rs_suppressed s'))"
      using 1(1) [OF False g [symmetric] refl _ refl _ rec 1(3)] inc head
      by (auto split: option.splits)
    have split: "zs = take e zs @ drop e zs" by simp
    have tne: "take e zs \<noteq> []" using G(1) by simp
    have lastt: "rs_ObservedAt (last (take e zs)) = ?t" using G(3) last_in_set [OF tne] by blast
    have gaps: "gaps_ok limit (cs_previous st) zs"
    proof -
      have "gaps_ok limit (Some ?t) (tl (take e zs) @ [])"
      proof -
        have "\<forall>s\<in>set (tl (take e zs)). rs_ObservedAt s = ?t"
          using G(3) list.set_sel(2) [OF tne] by blast
        thus ?thesis by (simp only: gaps_ok_group [OF 1(3)] gaps_ok.simps)
      qed
      hence "gaps_ok limit (cs_previous st) (take e zs)"
        using head unfolding G(1) by simp
      hence "gaps_ok limit (cs_previous st) (take e zs @ drop e zs)"
        using IH tne lastt by (simp only: gaps_ok_append if_False)
      thus ?thesis by simp
    qed
    have grp: "\<forall>s\<in>set (take e zs). \<exists>s'\<in>set (take e zs). rs_ObservedAt s' = rs_ObservedAt s \<and> (allow \<or> \<not> rs_suppressed s')"
      using G(3,4) inc by fastforce
    have cpu: "coverageCpuOK allow zs = (coverageCpuOK allow (take e zs) \<and> coverageCpuOK allow (drop e zs))"
      unfolding coverageCpuOK_def by (metis append_take_drop_id list_all_append)
    have last: "last zs = (if drop e zs = [] then last (take e zs) else last (drop e zs))"
      by (metis split last_append append_Nil2)
    have sets: "set zs = set (take e zs) \<union> set (drop e zs)" by (metis split set_append)
    have "cs_previous st' = Some (rs_ObservedAt (last zs)) \<and> cs_oldest st' = rs_ObservedAt (last zs)"
      using IH lastt unfolding last by (cases "drop e zs = []") simp_all
    moreover have "cs_cpuOK st' = (cs_cpuOK st \<and> coverageCpuOK allow zs)"
      using IH cpu by simp
    moreover have "\<forall>s\<in>set zs. \<exists>s'\<in>set zs. rs_ObservedAt s' = rs_ObservedAt s \<and> (allow \<or> \<not> rs_suppressed s')"
      using grp IH unfolding sets by blast
    ultimately show ?thesis using gaps False by simp
  qed
qed

lemma gaps_ok_cover:
  assumes "gaps_ok limit None zs" and "zs \<noteq> []" and "is_int64 limit" and "limit < maxInt64"
    and "t \<le> rs_ObservedAt (hd zs)" and "rs_ObservedAt (last zs) \<le> t"
  shows "\<exists>s\<in>set zs. rs_ObservedAt s \<le> t \<and> t - rs_ObservedAt s \<le> max 0 limit"
  using assms(1,2,5,6)
proof (induction zs)
  case (Cons s zs)
  show ?case
  proof (cases zs)
    case Nil
    thus ?thesis using Cons.prems by simp
  next
    case (Cons s2 rest)
    have gap: "rs_ObservedAt s - rs_ObservedAt s2 \<le> limit"
      using Cons.prems(1) Cons time_Sub_le_iff [OF assms(3,4)] by simp
    have tail: "gaps_ok limit None zs" using Cons.prems(1) Cons by simp
    show ?thesis
    proof (cases "t \<le> rs_ObservedAt s2")
      case True
      thus ?thesis using Cons.IH [OF tail] Cons Cons.prems(4) by auto
    next
      case False
      thus ?thesis using gap Cons.prems(3) Cons by (intro bexI [of _ s2]) auto
    qed
  qed
qed simp

text \<open>A normalised list is descending in time; so is every part of it.\<close>

abbreviation descending :: "MonitoringInstanceResourceSample list \<Rightarrow> bool" where
  "descending zs \<equiv> sorted_wrt (\<lambda>a b. rs_ObservedAt b \<le> rs_ObservedAt a) zs"

lemma normalize_descending: "descending (normalizeMonitoringInstanceResourceSamples xs)"
proof -
  have "in_order (newer rs_ObservedAt rs_IsBackfilled rs_ReceivedAt)
      (normalizeMonitoringInstanceResourceSamples xs)"
    unfolding normalizeMonitoringInstanceResourceSamples_def by (rule resource_order.in_order_SliceStable)
  thus ?thesis unfolding in_order_def by (rule sorted_wrt_mono_rel [rotated]) (rule newer_observedAt)
qed

lemma set_normalize [simp]: "set (normalizeMonitoringInstanceResourceSamples xs) = set xs"
  by (simp add: normalizeMonitoringInstanceResourceSamples_def)

lemma normalize_Nil_iff [simp]: "normalizeMonitoringInstanceResourceSamples xs = [] \<longleftrightarrow> xs = []"
  by (simp add: normalizeMonitoringInstanceResourceSamples_def)

section \<open>The window scan\<close>

definition scan_result :: "time \<Rightarrow> int \<Rightarrow> MonitoringInstanceResourceSample list \<Rightarrow> window_scan \<Rightarrow> window_scan" where
  "scan_result left i zs st =
     (let xs = takeWhile (\<lambda>s. left \<le> rs_ObservedAt s) zs;
          ys = dropWhile (\<lambda>s. left \<le> rs_ObservedAt s) zs;
          st = (if xs = [] then st
            else st\<lparr> ws_windowStart := (if ws_windowStart st < 0 then i else ws_windowStart st),
                     ws_windowEnd := i + int (length xs),
                     ws_exactBoundary := (ws_exactBoundary st \<or> (\<exists>s\<in>set xs. rs_ObservedAt s = left)) \<rparr>)
      in case ys of
           [] \<Rightarrow> st
         | y # rest \<Rightarrow>
             if ws_windowStart st \<ge> 0 then
               st\<lparr> ws_boundaryStart := i + int (length xs),
                   ws_boundaryEnd := i + int (length xs) + 1 +
                     int (length (takeWhile (\<lambda>x. rs_ObservedAt x = rs_ObservedAt y) rest)) \<rparr>
             else st)"

lemma scanWindow_result:
  assumes "\<forall>s\<in>set zs. rs_ObservedAt s \<le> reference" and "0 \<le> i"
  shows "scanWindow reference left i zs st = scan_result left i zs st"
  using assms
proof (induction zs arbitrary: i st)
  case Nil
  thus ?case by (simp add: scan_result_def)
next
  case (Cons s zs)
  let ?st = "st\<lparr> ws_windowStart := (if ws_windowStart st < 0 then i else ws_windowStart st),
    ws_windowEnd := i + 1, ws_exactBoundary := (ws_exactBoundary st \<or> rs_ObservedAt s = left) \<rparr>"
  have na: "\<not> time_After (rs_ObservedAt s) reference" using Cons.prems by (simp add: time_After_def)
  show ?case
  proof (cases "left \<le> rs_ObservedAt s")
    case False
    thus ?thesis using na by (simp add: scan_result_def time_Before_def)
  next
    case True
    have "scanWindow reference left i (s # zs) st = scanWindow reference left (i + 1) zs ?st"
      using na True by (simp add: time_Before_def Let_def)
    also have "\<dots> = scan_result left (i + 1) zs ?st" using Cons by simp
    also have "\<dots> = scan_result left i (s # zs) st"
    proof -
      define xs ys where "xs = takeWhile (\<lambda>s. left \<le> rs_ObservedAt s) zs"
        and "ys = dropWhile (\<lambda>s. left \<le> rs_ObservedAt s) zs"
      have eqs: "takeWhile (\<lambda>s. left \<le> rs_ObservedAt s) (s # zs) = s # xs"
        "dropWhile (\<lambda>s. left \<le> rs_ObservedAt s) (s # zs) = ys"
        using True by (simp_all add: xs_def ys_def)
      show ?thesis
        unfolding scan_result_def eqs xs_def [symmetric] ys_def [symmetric] Let_def
        by (cases ys; cases "xs = []"; cases "ws_windowStart st < 0"; rule window_scan.equality)
          (use Cons.prems(2) in auto)
    qed
    finally show ?thesis .
  qed
qed

lemma slice_prefix: "slice (xs @ ys) 0 (int (length xs)) = xs"
  by (simp add: slice_def)

lemma slice_middle: "hi = int (length xs) + int (length g) \<Longrightarrow> slice (xs @ g @ r) (int (length xs)) hi = g"
  by (simp add: slice_def)

text \<open>The samples a window holds, for a normalised list whose newest sample is the reference.\<close>

definition window_part :: "time \<Rightarrow> MonitoringInstanceResourceSample list \<Rightarrow> MonitoringInstanceResourceSample list" where
  "window_part left zs = takeWhile (\<lambda>s. left \<le> rs_ObservedAt s) zs"

definition boundary_part :: "time \<Rightarrow> MonitoringInstanceResourceSample list \<Rightarrow> MonitoringInstanceResourceSample list" where
  "boundary_part left zs =
     (if \<exists>s\<in>set (window_part left zs). rs_ObservedAt s = left then []
      else case dropWhile (\<lambda>s. left \<le> rs_ObservedAt s) zs of
             [] \<Rightarrow> []
           | y # rest \<Rightarrow> y # takeWhile (\<lambda>x. rs_ObservedAt x = rs_ObservedAt y) rest)"

lemma scan_slices:
  assumes "descending zs" and "zs \<noteq> []" and "left < rs_ObservedAt (hd zs)"
  defines "sc \<equiv> scanWindow (rs_ObservedAt (hd zs)) left 0 zs
    \<lparr> ws_windowStart = - 1, ws_windowEnd = - 1, ws_boundaryStart = - 1, ws_boundaryEnd = - 1,
      ws_exactBoundary = False \<rparr>"
  shows "\<not> ws_windowStart sc < 0"
    and "slice zs (ws_windowStart sc) (ws_windowEnd sc) = window_part left zs"
    and "(if \<not> ws_exactBoundary sc \<and> ws_boundaryStart sc \<ge> 0
          then slice zs (ws_boundaryStart sc) (ws_boundaryEnd sc) else []) = boundary_part left zs"
proof -
  let ?P = "\<lambda>s. left \<le> rs_ObservedAt s"
  define xs ys where "xs = takeWhile ?P zs" and "ys = dropWhile ?P zs"
  have zs: "zs = xs @ ys" by (simp add: xs_def ys_def)
  have xs: "xs \<noteq> []" using assms(2,3) by (cases zs) (simp_all add: xs_def)
  have "\<forall>s\<in>set zs. rs_ObservedAt s \<le> rs_ObservedAt (hd zs)"
    using assms(1,2) by (cases zs) auto
  from scanWindow_result [OF this, of 0 left]
  have sc: "sc = scan_result left 0 zs
    \<lparr> ws_windowStart = - 1, ws_windowEnd = - 1, ws_boundaryStart = - 1, ws_boundaryEnd = - 1,
      ws_exactBoundary = False \<rparr>" by (simp add: sc_def)
  have start: "ws_windowStart sc = 0" "ws_windowEnd sc = int (length xs)"
    "ws_exactBoundary sc = (\<exists>s\<in>set xs. rs_ObservedAt s = left)"
    unfolding sc scan_result_def xs_def [symmetric] ys_def [symmetric] Let_def
    using xs by (cases ys; simp)+
  show "\<not> ws_windowStart sc < 0" by (simp add: start)
  show "slice zs (ws_windowStart sc) (ws_windowEnd sc) = window_part left zs"
    unfolding start window_part_def xs_def [symmetric] by (subst zs) (rule slice_prefix)
  show "(if \<not> ws_exactBoundary sc \<and> ws_boundaryStart sc \<ge> 0
          then slice zs (ws_boundaryStart sc) (ws_boundaryEnd sc) else []) = boundary_part left zs"
  proof (cases ys)
    case Nil
    hence "ws_boundaryStart sc = - 1"
      unfolding sc scan_result_def xs_def [symmetric] ys_def [symmetric] Let_def using xs by simp
    thus ?thesis using Nil by (simp add: boundary_part_def ys_def [symmetric])
  next
    case (Cons y rest)
    let ?g = "y # takeWhile (\<lambda>x. rs_ObservedAt x = rs_ObservedAt y) rest"
    have b: "ws_boundaryStart sc = int (length xs)" "ws_boundaryEnd sc = int (length xs) + int (length ?g)"
      unfolding sc scan_result_def xs_def [symmetric] ys_def [symmetric] Let_def
      using xs Cons by simp_all
    have "zs = xs @ ?g @ dropWhile (\<lambda>x. rs_ObservedAt x = rs_ObservedAt y) rest"
      using zs Cons by simp
    hence "slice zs (ws_boundaryStart sc) (ws_boundaryEnd sc) = ?g"
      unfolding b by (metis slice_middle)
    thus ?thesis
      using b by (simp add: boundary_part_def window_part_def start xs_def [symmetric] ys_def [symmetric] Cons)
  qed
qed

definition resourceGapLimit :: "ResourcePressurePolicy \<Rightarrow> duration" where
  "resourceGapLimit policy = 2 * rpp_SampleInterval policy + 10 * millisecond"

lemma window_samples:
  fixes allow :: bool
  assumes "descending zs" and "zs \<noteq> []" and "0 < width" and "validResourcePressurePolicy policy"
  defines "W \<equiv> buildResourcePressureWindowSorted zs (rs_ObservedAt (hd zs)) width policy allow"
  shows "w_samples W = window_part (rs_ObservedAt (hd zs) - width) zs"
    and "w_boundarySamples W = boundary_part (rs_ObservedAt (hd zs) - width) zs"
    and "w_allowSuppressed W = allow"
    and "w_covered W \<Longrightarrow>
      rpp_SampleInterval policy \<le> width \<and>
      0 \<le> time_Sub (rpp_EvaluatedAt policy) (rs_ObservedAt (hd zs)) \<and>
      time_Sub (rpp_EvaluatedAt policy) (rs_ObservedAt (hd zs)) \<le> resourceGapLimit policy \<and>
      (\<exists>d oldest. resourcePressureCoverage (w_samples W) (w_boundarySamples W) allow (resourceGapLimit policy) =
         (True, w_cpuUsable W, d, oldest) \<and> 2 \<le> d \<and> oldest \<le> rs_ObservedAt (hd zs) - width)"
proof -
  let ?left = "rs_ObservedAt (hd zs) - width"
  have lt: "?left < rs_ObservedAt (hd zs)" using assms(3) by simp
  note S = scan_slices [OF assms(1,2) lt]
  let ?sc = "scanWindow (rs_ObservedAt (hd zs)) ?left 0 zs
    \<lparr> ws_windowStart = - 1, ws_windowEnd = - 1, ws_boundaryStart = - 1, ws_boundaryEnd = - 1,
      ws_exactBoundary = False \<rparr>"
  define w0 where "w0 = (emptyWindow\<lparr> w_allowSuppressed := allow \<rparr>)
    \<lparr> w_samples := window_part ?left zs, w_boundarySamples := boundary_part ?left zs \<rparr>"
  have w0: "(if \<not> ws_exactBoundary ?sc \<and> ws_boundaryStart ?sc \<ge> 0
      then emptyWindow\<lparr> w_allowSuppressed := allow, w_samples := window_part ?left zs,
        w_boundarySamples := slice zs (ws_boundaryStart ?sc) (ws_boundaryEnd ?sc) \<rparr>
      else emptyWindow\<lparr> w_allowSuppressed := allow, w_samples := window_part ?left zs \<rparr>) = w0"
    using S(3) by (auto simp: w0_def emptyWindow_def split: if_splits)
  have W: "W = (if rpp_SampleInterval policy \<le> 0 \<or> rpp_SampleInterval policy > width then w0
      else if time_Sub (rpp_EvaluatedAt policy) (rs_ObservedAt (hd zs)) < 0 \<or>
        time_Sub (rpp_EvaluatedAt policy) (rs_ObservedAt (hd zs)) > resourceGapLimit policy then w0
      else let d = resourcePressureDistinctEffectiveTimes (w_samples w0) allow;
               w1 = w0\<lparr> w_singleton := d = 1 \<rparr>
           in if d = 0 then w1
              else let (coverageOK, cpuOK, distinctTimes, oldest) = resourcePressureCoverage
                     (w_samples w1) (w_boundarySamples w1) allow (resourceGapLimit policy)
                   in if \<not> coverageOK \<or> distinctTimes < 2 \<or> time_After oldest ?left then w1
                      else w1\<lparr> w_covered := True, w_cpuUsable := cpuOK \<rparr>)"
    using assms(3,4) S(1)
    unfolding W_def buildResourcePressureWindowSorted_def Let_def S(2) w0 resourceGapLimit_def
    by simp
  have f: "w_samples w0 = window_part ?left zs" "w_boundarySamples w0 = boundary_part ?left zs"
    "w_allowSuppressed w0 = allow" "\<not> w_covered w0"
    by (simp_all add: w0_def emptyWindow_def)
  show "w_samples W = window_part ?left zs" "w_boundarySamples W = boundary_part ?left zs"
    "w_allowSuppressed W = allow"
    unfolding W by (auto simp: f Let_def split: prod.splits)
  show "rpp_SampleInterval policy \<le> width \<and>
      0 \<le> time_Sub (rpp_EvaluatedAt policy) (rs_ObservedAt (hd zs)) \<and>
      time_Sub (rpp_EvaluatedAt policy) (rs_ObservedAt (hd zs)) \<le> resourceGapLimit policy \<and>
      (\<exists>d oldest. resourcePressureCoverage (w_samples W) (w_boundarySamples W) allow (resourceGapLimit policy) =
         (True, w_cpuUsable W, d, oldest) \<and> 2 \<le> d \<and> oldest \<le> ?left)"
    if "w_covered W"
    using that unfolding W
    by (auto simp: f Let_def time_After_def split: prod.splits if_splits)
qed

lemma coverage_sound:
  assumes "resourcePressureCoverage xs bs allow limit = (True, cpu, d, oldest)" and "0 \<le> limit"
  shows "xs \<noteq> []" and "gaps_ok limit None (xs @ bs)" and "oldest = rs_ObservedAt (last (xs @ bs))"
    and "cpu = coverageCpuOK allow (xs @ bs)"
    and "\<forall>s\<in>set (xs @ bs). \<exists>s'\<in>set (xs @ bs). rs_ObservedAt s' = rs_ObservedAt s \<and> (allow \<or> \<not> rs_suppressed s')"
proof -
  let ?st = "\<lparr> cs_cpuOK = True, cs_distinct = 0, cs_previous = None, cs_oldest = zeroTime \<rparr>"
  show xs: "xs \<noteq> []" using assms(1) by (auto simp: resourcePressureCoverage_def)
  have no: "coverageGroups allow limit ws st \<noteq> Inl (True, c, e, f)" for ws st c e f
    by (induction allow limit ws st rule: coverageGroups.induct)
      (subst coverageGroups.simps, auto simp: Let_def split: prod.splits)
  obtain st1 where g1: "coverageGroups allow limit xs ?st = Inr st1"
    using assms(1) xs no by (auto simp: resourcePressureCoverage_def split: sum.splits)
  obtain st2 where g2: "coverageGroups allow limit bs st1 = Inr st2"
    and r: "cpu = cs_cpuOK st2" "oldest = cs_oldest st2"
    using assms(1) xs no g1 by (auto simp: resourcePressureCoverage_def split: sum.splits)
  note A = coverageGroups_sound [OF g1 assms(2)] and B = coverageGroups_sound [OF g2 assms(2)]
  show "gaps_ok limit None (xs @ bs)" using A B xs by (simp add: gaps_ok_append)
  show "oldest = rs_ObservedAt (last (xs @ bs))"
    using A B xs r(2) by (cases "bs = []") simp_all
  have "coverageCpuOK allow (xs @ bs) = (coverageCpuOK allow xs \<and> coverageCpuOK allow bs)"
    by (simp add: coverageCpuOK_def)
  thus "cpu = coverageCpuOK allow (xs @ bs)" using A B r(1) by simp
  show "\<forall>s\<in>set (xs @ bs). \<exists>s'\<in>set (xs @ bs). rs_ObservedAt s' = rs_ObservedAt s \<and> (allow \<or> \<not> rs_suppressed s')"
    unfolding set_append using A B by blast
qed

lemma valid_gapLimit:
  assumes "validResourcePressurePolicy policy"
  shows "0 \<le> resourceGapLimit policy" and "is_int64 (resourceGapLimit policy)" and "resourceGapLimit policy < maxInt64"
  using assms
  by (auto simp: validResourcePressurePolicy_def resourceGapLimit_def duration_defs is_int64_def
      minInt64_def maxInt64_def split: if_splits)

lemma window_parts_subset: "set (window_part left zs) \<union> set (boundary_part left zs) \<subseteq> set zs"
proof -
  have "set (case ys of [] \<Rightarrow> [] | y # rest \<Rightarrow> y # takeWhile (\<lambda>x. rs_ObservedAt x = rs_ObservedAt y) rest)
      \<subseteq> set ys" for ys
    by (cases ys) (auto dest: set_takeWhileD)
  note sub = this
  have "set (boundary_part left zs) \<subseteq> set (dropWhile (\<lambda>s. left \<le> rs_ObservedAt s) zs)"
    unfolding boundary_part_def
    by (split if_split, intro conjI impI) (simp only: list.set empty_subsetI, rule sub)
  moreover have "set (dropWhile (\<lambda>s. left \<le> rs_ObservedAt s) zs) \<subseteq> set zs"
    by (auto dest: set_dropWhileD)
  moreover have "set (window_part left zs) \<subseteq> set zs"
    unfolding window_part_def by (auto dest: set_takeWhileD)
  ultimately show ?thesis by blast
qed

lemma hd_window_part: "zs \<noteq> [] \<Longrightarrow> left \<le> rs_ObservedAt (hd zs) \<Longrightarrow> hd (window_part left zs) = hd zs"
  by (cases zs) (simp_all add: window_part_def)

lemma covered_window_cover:
  assumes "samples \<noteq> []" and "0 < width"
    and "reference = rs_ObservedAt (hd (normalizeMonitoringInstanceResourceSamples samples))"
    and "w_covered (buildResourcePressureWindow samples reference width policy allow)"
  shows "0 \<le> rpp_EvaluatedAt policy - reference \<and> rpp_EvaluatedAt policy - reference \<le> resourceGapLimit policy \<and>
    (\<forall>t. reference - width \<le> t \<and> t \<le> reference \<longrightarrow>
      (\<exists>s\<in>set samples. rs_ObservedAt s \<le> t \<and> t - rs_ObservedAt s \<le> resourceGapLimit policy \<and>
        (allow \<or> \<not> rs_suppressed s))) \<and>
    (w_cpuUsable (buildResourcePressureWindow samples reference width policy allow) \<longrightarrow>
      (\<forall>s\<in>set (w_samples (buildResourcePressureWindow samples reference width policy allow)).
        (\<not> allow \<and> rs_suppressed s) \<or> rs_cpuUsable s))"
proof -
  let ?zs = "normalizeMonitoringInstanceResourceSamples samples"
  let ?W = "buildResourcePressureWindow samples reference width policy allow"
  let ?L = "resourceGapLimit policy"
  have pol: "validResourcePressurePolicy policy"
    using assms(4)
    by (auto simp: buildResourcePressureWindow_def buildResourcePressureWindowSorted_def emptyWindow_def Let_def
        split: if_splits)
  note V = valid_gapLimit [OF pol]
  have ne: "?zs \<noteq> []" using assms(1) by simp
  note S = window_samples [OF normalize_descending ne assms(2) pol, of allow,
      folded buildResourcePressureWindow_def assms(3)]
  let ?xs = "w_samples ?W" and ?bs = "w_boundarySamples ?W"
  obtain d oldest where age: "0 \<le> time_Sub (rpp_EvaluatedAt policy) reference"
      "time_Sub (rpp_EvaluatedAt policy) reference \<le> ?L"
    and cov: "resourcePressureCoverage ?xs ?bs allow ?L = (True, w_cpuUsable ?W, d, oldest)"
    and old: "oldest \<le> reference - width"
    using S(4) [OF assms(4)] by blast
  note C = coverage_sound [OF cov V(1)]
  have sub: "set (?xs @ ?bs) \<subseteq> set samples"
    using window_parts_subset [of "reference - width" ?zs] S(1,2) by simp
  have hd: "rs_ObservedAt (hd (?xs @ ?bs)) = reference"
    using hd_window_part [OF ne, of "reference - width"] S(1) C(1) assms(2,3) by simp
  have "\<exists>s\<in>set samples. rs_ObservedAt s \<le> t \<and> t - rs_ObservedAt s \<le> ?L \<and> (allow \<or> \<not> rs_suppressed s)"
    if t: "reference - width \<le> t" "t \<le> reference" for t
  proof -
    obtain s where s: "s \<in> set (?xs @ ?bs)" "rs_ObservedAt s \<le> t" "t - rs_ObservedAt s \<le> max 0 ?L"
      using gaps_ok_cover [OF C(2) _ V(2,3), of t] C(1,3) hd old t by auto
    obtain s' where "s' \<in> set (?xs @ ?bs)" "rs_ObservedAt s' = rs_ObservedAt s" "allow \<or> \<not> rs_suppressed s'"
      using C(5) s(1) by blast
    thus ?thesis using sub s(2,3) V(1) by (intro bexI [of _ s']) auto
  qed
  moreover have "0 \<le> rpp_EvaluatedAt policy - reference" "rpp_EvaluatedAt policy - reference \<le> ?L"
    using age time_Sub_le_iff [OF V(2,3)] by (auto simp: time_Sub_def minInt64_def)
  moreover have "\<forall>s\<in>set ?xs. (\<not> allow \<and> rs_suppressed s) \<or> rs_cpuUsable s" if "w_cpuUsable ?W"
    using C(4) that by (auto simp: coverageCpuOK_def list_all_iff)
  ultimately show ?thesis by blast
qed

text \<open>
  (C4) What a covered window proves: the evaluation is at most one gap limit (twice the sampling
  interval and ten milliseconds) younger than the newest sample, and for every instant of the
  window some sample that counts was taken at most one gap limit before it.  When the window is
  also usable for CPU figures, every sample that counts has CPU rates in range.
\<close>

theorem covered_window_sound:
  assumes "samples \<noteq> []" and "0 < width"
    and "reference = rs_ObservedAt (hd (normalizeMonitoringInstanceResourceSamples samples))"
    and "w_covered (buildResourcePressureWindow samples reference width policy allow)"
  shows "0 \<le> rpp_EvaluatedAt policy - reference \<and> rpp_EvaluatedAt policy - reference \<le> resourceGapLimit policy \<and>
    (\<forall>t. reference - width \<le> t \<and> t \<le> reference \<longrightarrow>
      (\<exists>s\<in>set samples. rs_ObservedAt s \<le> t \<and> t - rs_ObservedAt s \<le> resourceGapLimit policy \<and>
        (allow \<or> \<not> rs_suppressed s))) \<and>
    (w_cpuUsable (buildResourcePressureWindow samples reference width policy allow) \<longrightarrow>
      (\<forall>s\<in>set (w_samples (buildResourcePressureWindow samples reference width policy allow)).
        (\<not> allow \<and> rs_suppressed s) \<or> rs_cpuUsable s))"
  using assms by (rule covered_window_cover)

section \<open>Decisions\<close>

text \<open>The three columns of the case table the proofs below read.\<close>

lemma pressure_cases_columns:
  "map (\<lambda>c. (pc_thirty c, pc_cpu c, pc_predicate c, pc_severity c)) pressure_cases =
   [(True, True, resourcePressureCriticalCPU30, SeverityCritical),
    (True, False, resourcePressureCriticalLoad30, SeverityCritical),
    (True, False, resourcePressureCriticalMemory30, SeverityCritical),
    (True, True, resourcePressureCriticalIOWait30, SeverityCritical),
    (False, True, resourcePressureAlertCPU15, SeverityAlert),
    (False, False, resourcePressureAlertLoad15, SeverityAlert),
    (False, False, resourcePressureAlertMemory15, SeverityAlert),
    (False, True, resourcePressureAlertIOWait15, SeverityAlert),
    (True, True, resourcePressureAlertSteal30, SeverityAlert),
    (False, True, resourcePressureNoticeCPU15, SeverityNotice),
    (False, False, resourcePressureNoticeLoad15, SeverityNotice),
    (False, False, resourcePressureNoticeMemory15, SeverityNotice),
    (False, True, resourcePressureNoticeIOWait15, SeverityNotice),
    (False, False, resourcePressureNoticeSwap15, SeverityNotice),
    (False, True, resourcePressureNoticeIOWaitFloor15, SeverityNotice),
    (False, True, resourcePressureNoticeSteal15, SeverityNotice)]"
  by (simp add: pressure_cases_def)

lemma pressure_case_in:
  assumes "c \<in> set pressure_cases"
  shows "(pc_thirty c, pc_cpu c, pc_predicate c, pc_severity c) \<in>
    set (map (\<lambda>c. (pc_thirty c, pc_cpu c, pc_predicate c, pc_severity c)) pressure_cases)"
  using assms by simp

lemma pressure_case_severity: "c \<in> set pressure_cases \<Longrightarrow> active_severity (pc_severity c)"
  using pressure_case_in unfolding pressure_cases_columns by fastforce

lemma pressure_case_critical:
  "c \<in> set pressure_cases \<Longrightarrow> pc_severity c = SeverityCritical \<Longrightarrow>
   pc_thirty c \<and> pc_predicate c \<in> {resourcePressureCriticalCPU30, resourcePressureCriticalLoad30,
     resourcePressureCriticalMemory30, resourcePressureCriticalIOWait30}"
  using pressure_case_in unfolding pressure_cases_columns by fastforce

lemma find_SomeD: "find Q xs = Some c \<Longrightarrow> c \<in> set xs \<and> Q c"
  by (induction xs) (auto split: if_splits)

lemma severityFromStats_some:
  assumes "sr_active (resourcePressureSeverityFromStats w15 s15 b15 w30 s30 b30 th req cpu)"
  shows "\<exists>c\<in>set pressure_cases.
    sr_severity (resourcePressureSeverityFromStats w15 s15 b15 w30 s30 b30 th req cpu) = pc_severity c \<and>
    (if pc_thirty c then resourcePressureCandidateSupported w30 s30 b30 (pc_cpu c) req (pc_predicate c) th
     else resourcePressureCandidateSupported w15 s15 b15 (pc_cpu c) req (pc_predicate c) th)"
proof -
  let ?Q = "\<lambda>c. (pc_cpu c \<longrightarrow> cpu) \<and>
    (if pc_thirty c then resourcePressureCandidateSupported w30 s30 b30 (pc_cpu c) req (pc_predicate c) th
     else resourcePressureCandidateSupported w15 s15 b15 (pc_cpu c) req (pc_predicate c) th)"
  obtain c where c: "find ?Q pressure_cases = Some c"
    using assms by (cases "find ?Q pressure_cases") (simp_all add: resourcePressureSeverityFromStats_def)
  have "sr_severity (resourcePressureSeverityFromStats w15 s15 b15 w30 s30 b30 th req cpu) = pc_severity c"
    unfolding resourcePressureSeverityFromStats_def c by (simp add: Let_def)
  thus ?thesis using find_SomeD [OF c] by blast
qed

lemma severityFromStats_active:
  "sr_active (resourcePressureSeverityFromStats w15 s15 b15 w30 s30 b30 th req cpu) \<Longrightarrow>
   active_severity (sr_severity (resourcePressureSeverityFromStats w15 s15 b15 w30 s30 b30 th req cpu))"
  using severityFromStats_some [of w15 s15 b15 w30 s30 b30 th req cpu] pressure_case_severity by metis

lemma severityFromStats_none:
  assumes "\<not> sr_active (resourcePressureSeverityFromStats w15 s15 b15 w30 s30 b30 th False True)"
    and "c \<in> set pressure_cases"
  shows "\<not> (if pc_thirty c then resourcePressureCandidateSupported w30 s30 b30 (pc_cpu c) False (pc_predicate c) th
     else resourcePressureCandidateSupported w15 s15 b15 (pc_cpu c) False (pc_predicate c) th)"
proof -
  let ?Q = "\<lambda>c. (pc_cpu c \<longrightarrow> True) \<and>
    (if pc_thirty c then resourcePressureCandidateSupported w30 s30 b30 (pc_cpu c) False (pc_predicate c) th
     else resourcePressureCandidateSupported w15 s15 b15 (pc_cpu c) False (pc_predicate c) th)"
  have "find ?Q pressure_cases = None"
    using assms(1) by (cases "find ?Q pressure_cases") (simp_all add: resourcePressureSeverityFromStats_def Let_def)
  thus ?thesis using assms(2) by (auto simp only: find_None_iff)
qed

end
