(* ===== verification/Resource_Decisions.thy ===== *)
theory Resource_Decisions
  imports Resource_Pressure
begin

text \<open>
  What the resource pressure evaluator decides, read off its windows: the contract of an evaluator,
  what a recovery and a critical severity rest on, and that suppressed evidence stays silent.
\<close>

section \<open>The branches of the evaluator\<close>

definition active_window :: "MonitoringInstanceResourceSample list \<Rightarrow> duration \<Rightarrow> ResourcePressurePolicy \<Rightarrow> resourcePressureWindow" where
  "active_window samples width policy =
     (let ns = normalizeMonitoringInstanceResourceSamples samples
      in buildResourcePressureWindowSorted ns (rs_ObservedAt (hd ns)) width policy False)"

definition recovery_window :: "MonitoringInstanceResourceSample list \<Rightarrow> duration \<Rightarrow> ResourcePressurePolicy \<Rightarrow> resourcePressureWindow" where
  "recovery_window samples width policy =
     (let ns = normalizeMonitoringInstanceResourceSamples samples
      in buildResourcePressureWindowSorted ns (rs_ObservedAt (hd ns)) width policy True)"

definition recovery_width :: "IncidentRecord \<Rightarrow> duration" where
  "recovery_width p = (if inc_Severity p = SeverityCritical then 30 * minute else 15 * minute)"

lemma resource_pressure_cases:
  assumes "r = EvaluateMonitoringInstanceResourcePressure prev mid samples th policy"
  obtains
    (noop) "r = noop prev"
  | (skip) "r = skip prev"
  | (recover) p result summary where "prev = Some p" and "samples \<noteq> []"
      and "w_covered (recovery_window samples (recovery_width p) policy)"
      and "w_cpuUsable (recovery_window samples (recovery_width p) policy)"
      and "\<not> resourcePressureRecoveryHasPressure (recovery_window samples (15 * minute) policy)
             (recovery_window samples (30 * minute) policy) th (inc_Severity p = SeverityCritical)"
      and "result = recoverIfNeeded prev
             (rs_ObservedAt (hd (normalizeMonitoringInstanceResourceSamples samples))) summary
             MonitoringEventProvenanceAgentSync
             (rs_IsBackfilled (hd (normalizeMonitoringInstanceResourceSamples samples)))"
      and "r = (if resourcePressureLatestSuppressed (normalizeMonitoringInstanceResourceSamples samples)
                then suppressNotification result else result)"
  | (transition) sev usable where "samples \<noteq> []"
      and "sev = resourcePressureSeverity (active_window samples (15 * minute) policy)
             (active_window samples (30 * minute) policy) th usable"
      and "sr_active sev"
      and "\<not> resourcePressureLatestSuppressed (normalizeMonitoringInstanceResourceSamples samples)"
      and "r = evaluateTransition prev ObjectTypeMonitoringInstance mid
             IncidentMonitoringInstanceResourcePressure (sr_severity sev)
             (rs_ObservedAt (hd (normalizeMonitoringInstanceResourceSamples samples)))
             (sr_summary sev) MonitoringEventProvenanceAgentSync"
proof -
  define ns where "ns = normalizeMonitoringInstanceResourceSamples samples"
  define R15 R30 where "R15 = (if prev \<noteq> None
      then buildResourcePressureWindowSorted ns (rs_ObservedAt (hd ns)) (15 * minute) policy True else emptyWindow)"
    and "R30 = (if prev \<noteq> None
      then buildResourcePressureWindowSorted ns (rs_ObservedAt (hd ns)) (30 * minute) policy True else emptyWindow)"
  define crit where "crit = (case prev of None \<Rightarrow> False | Some p \<Rightarrow> inc_Severity p = SeverityCritical)"
  define RW where "RW = (if crit then R30 else R15)"
  define usable where "usable = (prev = None \<or> (w_covered RW \<and> w_cpuUsable RW))"
  define sev where "sev = resourcePressureSeverity
      (buildResourcePressureWindowSorted ns (rs_ObservedAt (hd ns)) (15 * minute) policy False)
      (buildResourcePressureWindowSorted ns (rs_ObservedAt (hd ns)) (30 * minute) policy False) th usable"
  define result where "result = recoverIfNeeded prev (rs_ObservedAt (hd ns))
    (utf8 [0x8D44, 0x6E90, 0x538B, 0x529B, 0x6062, 0x590D, 0x5230, 0x5B89, 0x5168, 0x533A, 0x95F4])
    MonitoringEventProvenanceAgentSync (rs_IsBackfilled (hd ns))"
  define hold where "hold = (case prev of
      None \<Rightarrow> False
    | Some p \<Rightarrow>
        (\<not> w_covered RW \<or> \<not> w_cpuUsable RW) \<and>
        (sr_cpu sev \<or> severityRank (sr_severity sev) \<le> severityRank (inc_Severity p)) \<or>
        severityRank (sr_severity sev) < severityRank (inc_Severity p) \<and>
        resourcePressureBoundarySeverityHigher R15 R30 th (sr_severity sev) True)"
  have r: "r = (if ns = [] \<or> \<not> validResourcePressurePolicy policy then noop prev
      else if \<not> sr_active sev then
        if prev = None then noop prev
        else if \<not> w_covered RW \<or> \<not> w_cpuUsable RW \<or> resourcePressureRecoveryHasPressure R15 R30 th crit
        then noop prev
        else if resourcePressureLatestSuppressed ns then suppressNotification result else result
      else if hold then noop prev
      else if resourcePressureLatestSuppressed ns then skip prev
      else evaluateTransition prev ObjectTypeMonitoringInstance mid
        IncidentMonitoringInstanceResourcePressure (sr_severity sev) (rs_ObservedAt (hd ns))
        (sr_summary sev) MonitoringEventProvenanceAgentSync)"
    unfolding assms EvaluateMonitoringInstanceResourcePressure_def Let_def hold_def result_def sev_def
      usable_def RW_def crit_def R15_def R30_def ns_def by (rule refl)
  consider (a) "r = noop prev" | (b) "r = skip prev"
    | (c) "ns \<noteq> []" "prev \<noteq> None" "w_covered RW" "w_cpuUsable RW"
        "\<not> resourcePressureRecoveryHasPressure R15 R30 th crit"
        "r = (if resourcePressureLatestSuppressed ns then suppressNotification result else result)"
    | (d) "ns \<noteq> []" "sr_active sev" "\<not> resourcePressureLatestSuppressed ns"
        "r = evaluateTransition prev ObjectTypeMonitoringInstance mid
          IncidentMonitoringInstanceResourcePressure (sr_severity sev) (rs_ObservedAt (hd ns))
          (sr_summary sev) MonitoringEventProvenanceAgentSync"
    using r by (auto split: if_splits)
  thus thesis
  proof cases
    case c
    then obtain p where p: "prev = Some p" by blast
    have "RW = recovery_window samples (recovery_width p) policy"
      "R15 = recovery_window samples (15 * minute) policy" "R30 = recovery_window samples (30 * minute) policy"
      "crit = (inc_Severity p = SeverityCritical)"
      by (simp_all add: RW_def R15_def R30_def crit_def p recovery_window_def recovery_width_def ns_def Let_def)
    with c p show thesis
      by (intro recover [of p result]) (simp_all add: ns_def result_def)
  next
    case d
    thus thesis by (intro transition [of sev usable]) (simp_all add: sev_def ns_def active_window_def Let_def)
  qed (rule that(1) that(2); assumption)+
qed
interpretation resource: incident_evaluator
  ObjectTypeMonitoringInstance oid IncidentMonitoringInstanceResourcePressure
  "\<lambda>(samples, thresholds, policy) prev.
     EvaluateMonitoringInstanceResourcePressure prev oid samples thresholds policy"
  for oid
proof unfold_locales
  fix prev and i :: "MonitoringInstanceResourceSample list \<times> MetricThresholds \<times> ResourcePressurePolicy"
  assume p: "previous_ok ObjectTypeMonitoringInstance oid IncidentMonitoringInstanceResourcePressure prev"
  obtain samples th policy where i: "i = (samples, th, policy)" by (cases i)
  have "result_ok ObjectTypeMonitoringInstance oid IncidentMonitoringInstanceResourcePressure prev
      (EvaluateMonitoringInstanceResourcePressure prev oid samples th policy)"
  using refl [of "EvaluateMonitoringInstanceResourcePressure prev oid samples th policy"]
proof (cases rule: resource_pressure_cases)
    case noop
    thus ?thesis using noop_ok [OF p] by simp
  next
    case skip
    thus ?thesis using skip_ok by simp
  next
    case (recover q result summary)
    have "result_ok ObjectTypeMonitoringInstance oid IncidentMonitoringInstanceResourcePressure prev result"
      unfolding recover(6) by (rule recoverIfNeeded_ok) (simp_all add: p)
    thus ?thesis using suppressNotification_ok unfolding recover(7) by simp
  next
    case (transition sev usable)
    have "active_severity (sr_severity sev)"
      using transition(3) severityFromStats_active unfolding transition(2) resourcePressureSeverity_def by blast
    thus ?thesis unfolding transition(5) by (intro evaluateTransition_ok) (simp_all add: p)
  qed
  thus "result_ok ObjectTypeMonitoringInstance oid IncidentMonitoringInstanceResourcePressure prev
    ((case i of (samples, thresholds, policy) \<Rightarrow> \<lambda>prev.
      EvaluateMonitoringInstanceResourcePressure prev oid samples thresholds policy) prev)"
    by (simp add: i)
qed simp

section \<open>What the decisions rest on\<close>

lemma covered_count:
  assumes "samples \<noteq> []" and "w_covered (recovery_window samples width policy)" and "0 < width"
  shows "st_count (resourcePressureWindowStatistics (recovery_window samples width policy)) \<noteq> 0"
proof -
  let ?zs = "normalizeMonitoringInstanceResourceSamples samples"
  have pol: "validResourcePressurePolicy policy"
    using assms(2)
    by (auto simp: recovery_window_def buildResourcePressureWindowSorted_def emptyWindow_def Let_def
        split: if_splits)
  have "w_samples (recovery_window samples width policy) = window_part (rs_ObservedAt (hd ?zs) - width) ?zs"
    "w_allowSuppressed (recovery_window samples width policy)"
    using window_samples(1,3) [OF normalize_descending _ assms(3) pol, of samples True] assms(1)
    by (simp_all add: recovery_window_def Let_def)
  moreover have "window_part (rs_ObservedAt (hd ?zs) - width) ?zs \<noteq> []"
    using assms(1,3) by (cases ?zs) (auto simp: window_part_def)
  ultimately show ?thesis
    by (simp add: resourcePressureWindowStatistics_def statistics_count)
qed

lemma unsupported_no_match:
  assumes "\<not> resourcePressureCandidateSupported w stats b cpu False p th"
    and "w_covered w" and "w_cpuUsable w" and "st_count stats \<noteq> 0"
  shows "\<not> resourcePressurePredicateMatches p stats th"
  using assms by (auto simp: resourcePressureCandidateSupported_def split: if_splits)

text \<open>
  (C5) A resource pressure incident recovers only on complete and quiet evidence.  For an incident
  that was critical the last thirty minutes count, otherwise the last fifteen: the window is
  covered (so every instant of it has a sample at most one gap limit earlier), its CPU figures are
  usable, and no pressure predicate that is defined on a window of that width holds of its averages.
\<close>

theorem resource_recovery_sound:
  assumes "er_Transition (EvaluateMonitoringInstanceResourcePressure prev mid samples th policy) = TransitionRecovered"
  shows "\<exists>p. prev = Some p \<and>
    (let reference = rs_ObservedAt (hd (normalizeMonitoringInstanceResourceSamples samples));
         width = (if inc_Severity p = SeverityCritical then 30 * minute else 15 * minute);
         W = buildResourcePressureWindow samples reference width policy True
     in w_covered W \<and> w_cpuUsable W \<and>
       (\<forall>t. reference - width \<le> t \<and> t \<le> reference \<longrightarrow>
         (\<exists>s\<in>set samples. rs_ObservedAt s \<le> t \<and> t - rs_ObservedAt s \<le> resourceGapLimit policy)) \<and>
       (\<forall>c\<in>set pressure_cases. pc_thirty c = (inc_Severity p = SeverityCritical) \<longrightarrow>
         \<not> resourcePressurePredicateMatches (pc_predicate c) (resourcePressureWindowStatistics W) th))"
using refl [of "EvaluateMonitoringInstanceResourcePressure prev mid samples th policy"]
proof (cases rule: resource_pressure_cases)
  case noop
  thus ?thesis using assms by (simp add: noop_def)
next
  case skip
  thus ?thesis using assms by (simp add: skip_def)
next
  case (transition sev usable)
  thus ?thesis using assms by (auto simp: evaluateTransition_transition split: option.splits if_splits)
next
  case (recover p result summary)
  let ?ref = "rs_ObservedAt (hd (normalizeMonitoringInstanceResourceSamples samples))"
  let ?width = "if inc_Severity p = SeverityCritical then 30 * minute else 15 * minute"
  let ?W = "buildResourcePressureWindow samples ?ref ?width policy True"
  have W: "?W = recovery_window samples (recovery_width p) policy"
    by (simp add: buildResourcePressureWindow_def recovery_window_def recovery_width_def Let_def)
  have width: "0 < recovery_width p" by (simp add: recovery_width_def duration_defs)
  have cov: "w_covered ?W" "w_cpuUsable ?W" using recover(3,4) unfolding W by simp_all
  note count = covered_count [OF recover(2,3) width]
  have none: "\<not> resourcePressurePredicateMatches (pc_predicate c) (resourcePressureWindowStatistics ?W) th"
    if c: "c \<in> set pressure_cases" "pc_thirty c = (inc_Severity p = SeverityCritical)" for c
  proof (cases "inc_Severity p = SeverityCritical")
    case True
    have "\<not> sr_active (resourcePressureSeverityFromStats (recovery_window samples (15 * minute) policy)
        (resourcePressureWindowStatistics (recovery_window samples (15 * minute) policy)) zeroStats
        (recovery_window samples (30 * minute) policy)
        (resourcePressureWindowStatistics (recovery_window samples (30 * minute) policy)) zeroStats th False True)"
      using recover(5) True by (auto simp: resourcePressureRecoveryHasPressure_def Let_def)
    from severityFromStats_none [OF this c(1)] c(2) True show ?thesis
      using unsupported_no_match recover(3,4) count unfolding W by (simp add: recovery_width_def)
  next
    case False
    have "\<not> sr_active (resourcePressureSeverityFromStats (recovery_window samples (15 * minute) policy)
        (resourcePressureWindowStatistics (recovery_window samples (15 * minute) policy)) zeroStats
        emptyWindow zeroStats zeroStats th False True)"
      using recover(5) False by (auto simp: resourcePressureRecoveryHasPressure_def Let_def split: if_splits)
    from severityFromStats_none [OF this c(1)] c(2) False show ?thesis
      using unsupported_no_match recover(3,4) count unfolding W by (simp add: recovery_width_def)
  qed
  have "\<forall>t. ?ref - ?width \<le> t \<and> t \<le> ?ref \<longrightarrow>
      (\<exists>s\<in>set samples. rs_ObservedAt s \<le> t \<and> t - rs_ObservedAt s \<le> resourceGapLimit policy)"
    using covered_window_cover [OF recover(2) _ refl cov(1)] width by (auto simp: recovery_width_def)
  with cov none recover(1) show ?thesis by (auto simp: Let_def)
qed

text \<open>
  (C6) A resource pressure incident is critical only on thirty minutes of evidence: if an
  evaluation makes the severity critical, the window of live samples of the last thirty minutes is
  covered and one of the four critical predicates holds of its averages.
\<close>

theorem resource_critical_needs_thirty_minutes:
  assumes "er_Current (EvaluateMonitoringInstanceResourcePressure prev mid samples th policy) = Some c"
    and "inc_Severity c = SeverityCritical" and "prev \<noteq> Some c"
  shows "w_covered (active_window samples (30 * minute) policy) \<and>
    (\<exists>q \<in> {resourcePressureCriticalCPU30, resourcePressureCriticalLoad30,
            resourcePressureCriticalMemory30, resourcePressureCriticalIOWait30}.
       resourcePressurePredicateMatches q
         (resourcePressureWindowStatistics (active_window samples (30 * minute) policy)) th)"
using refl [of "EvaluateMonitoringInstanceResourcePressure prev mid samples th policy"]
proof (cases rule: resource_pressure_cases)
  case noop
  thus ?thesis using assms by (simp add: noop_def)
next
  case skip
  thus ?thesis using assms by (simp add: skip_def)
next
  case (recover p result summary)
  hence "er_Current (EvaluateMonitoringInstanceResourcePressure prev mid samples th policy) = None"
    by (simp add: recoverIfNeeded_def Let_def)
  thus ?thesis using assms by simp
next
  case (transition sev usable)
  have "map_option inc_Severity (er_Current (EvaluateMonitoringInstanceResourcePressure prev mid samples th policy))
      = Some (sr_severity sev)"
    unfolding transition(5) by (rule evaluateTransition_severity)
  hence crit: "sr_severity sev = SeverityCritical" using assms(1,2) by simp
  from severityFromStats_some [OF transition(3) [unfolded transition(2) resourcePressureSeverity_def]]
  obtain k where k: "k \<in> set pressure_cases" "pc_severity k = SeverityCritical"
    and sup: "if pc_thirty k
      then resourcePressureCandidateSupported (active_window samples (30 * minute) policy)
        (resourcePressureWindowStatistics (active_window samples (30 * minute) policy))
        (resourcePressureWindowBoundaryStatistics (active_window samples (30 * minute) policy))
        (pc_cpu k) True (pc_predicate k) th
      else resourcePressureCandidateSupported (active_window samples (15 * minute) policy)
        (resourcePressureWindowStatistics (active_window samples (15 * minute) policy))
        (resourcePressureWindowBoundaryStatistics (active_window samples (15 * minute) policy))
        (pc_cpu k) True (pc_predicate k) th"
    using crit unfolding transition(2) resourcePressureSeverity_def by auto
  from pressure_case_critical [OF k] sup show ?thesis
    by (auto simp: resourcePressureCandidateSupported_def split: if_splits)
qed

text \<open>
  (C7) When all samples at the newest observation time are under maintenance or replayed, the
  evaluation never starts or escalates an incident and never asks for a notification to be sent.
\<close>

theorem resource_suppressed_is_silent:
  assumes "resourcePressureLatestSuppressed (normalizeMonitoringInstanceResourceSamples samples)"
  shows "er_Transition (EvaluateMonitoringInstanceResourcePressure prev mid samples th policy)
      \<in> {TransitionNoop, TransitionSkipped, TransitionRecovered} \<and>
    (case er_Notification (EvaluateMonitoringInstanceResourcePressure prev mid samples th policy) of
       None \<Rightarrow> True | Some n \<Rightarrow> \<not> nd_ShouldSend n)"
using refl [of "EvaluateMonitoringInstanceResourcePressure prev mid samples th policy"]
proof (cases rule: resource_pressure_cases)
  case noop
  thus ?thesis by (simp add: noop_def)
next
  case skip
  thus ?thesis by (simp add: skip_def)
next
  case (recover p result summary)
  thus ?thesis
    using assms suppressNotification_silent [of result]
    by (auto simp: recoverIfNeeded_transition split: option.splits)
next
  case (transition sev usable)
  thus ?thesis using assms by simp
qed

section \<open>Witnesses\<close>

definition sample_resource :: "time \<Rightarrow> rat \<Rightarrow> bool \<Rightarrow> MonitoringInstanceResourceSample" where
  "sample_resource t cpu backfilled =
     \<lparr> rs_ObservedAt = t, rs_ReceivedAt = t, rs_CPUUsagePct = Fin cpu, rs_CPURatesValid = None,
       rs_NormalizedLoad5 = Fin 0, rs_MemUsedPct = Fin 0, rs_MemAvailableBytes = 0, rs_SwapUsedPct = Fin 0,
       rs_CPUIOWaitPct = Fin 0, rs_CPUStealPct = Fin 0, rs_MaintenanceContext = False,
       rs_IsBackfilled = backfilled \<rparr>"

definition sample_resource_policy :: ResourcePressurePolicy where
  "sample_resource_policy = \<lparr> rpp_EvaluatedAt = 61 * minute, rpp_SampleInterval = 15 * minute \<rparr>"

definition quiet_samples :: "MonitoringInstanceResourceSample list" where
  "quiet_samples = [sample_resource (60 * minute) 50 False, sample_resource (45 * minute) 40 False]"

definition busy_samples :: "MonitoringInstanceResourceSample list" where
  "busy_samples = [sample_resource (60 * minute) 99 False, sample_resource (30 * minute) 97 False]"

theorem covered_window_sound_witness:
  "rpp_EvaluatedAt sample_resource_policy - 60 * minute \<le> resourceGapLimit sample_resource_policy"
proof -
  have "w_covered (buildResourcePressureWindow quiet_samples (60 * minute) (15 * minute)
      sample_resource_policy False)" by code_simp
  moreover have "60 * minute = rs_ObservedAt (hd (normalizeMonitoringInstanceResourceSamples quiet_samples))"
    "quiet_samples \<noteq> []" "0 < 15 * minute" by code_simp+
  ultimately show ?thesis using covered_window_sound by blast
qed

theorem resource_recovery_sound_witness:
  "\<exists>p. Some p = Some (sample_incident IncidentMonitoringInstanceResourcePressure SeverityNotice) \<and>
    w_covered (buildResourcePressureWindow quiet_samples
      (rs_ObservedAt (hd (normalizeMonitoringInstanceResourceSamples quiet_samples))) (15 * minute)
      sample_resource_policy True)"
proof -
  have "er_Transition (EvaluateMonitoringInstanceResourcePressure
      (Some (sample_incident IncidentMonitoringInstanceResourcePressure SeverityNotice)) ''mi''
      quiet_samples DefaultMetricThresholds sample_resource_policy) = TransitionRecovered" by code_simp
  from resource_recovery_sound [OF this] show ?thesis
    by (auto simp: Let_def sample_incident_def)
qed

theorem resource_critical_needs_thirty_minutes_witness:
  "w_covered (active_window busy_samples (30 * minute) sample_resource_policy)"
proof -
  let ?r = "EvaluateMonitoringInstanceResourcePressure None ''mi'' busy_samples DefaultMetricThresholds
    sample_resource_policy"
  have "map_option inc_Severity (er_Current ?r) = Some SeverityCritical" by code_simp
  then obtain c where "er_Current ?r = Some c" "inc_Severity c = SeverityCritical" by auto
  thus ?thesis using resource_critical_needs_thirty_minutes [of None "''mi''"] by blast
qed

theorem resource_suppressed_is_silent_witness:
  "er_Transition (EvaluateMonitoringInstanceResourcePressure None ''mi''
     [sample_resource (60 * minute) 99 True] DefaultMetricThresholds sample_resource_policy)
   \<in> {TransitionNoop, TransitionSkipped, TransitionRecovered}"
proof -
  have "resourcePressureLatestSuppressed (normalizeMonitoringInstanceResourceSamples
      [sample_resource (60 * minute) 99 True])" by code_simp
  thus ?thesis using resource_suppressed_is_silent by blast
qed

end
