(* ===== verification/Incident_Trends.thy ===== *)
theory Incident_Trends
  imports Resource_Decisions
begin

text \<open>
  The trend evaluators of \<open>internal/center/incidents/evaluator.go\<close>: the load and CPU trend of a
  monitoring instance against its daily aggregates, and the latency trend of a target against the
  daily aggregates of its probe items.  The order in which Go ranges over the map of latency series is
  not specified; the orders of its two loops are arguments of the latency evaluator.
\<close>

section \<open>Daily aggregates\<close>

text \<open>The literals of the comparisons that are not exact in binary.\<close>

definition lit_0_1 :: f64 where "lit_0_1 = round64 (1 / 10)"
definition lit_0_6 :: f64 where "lit_0_6 = round64 (3 / 5)"
definition lit_1_6 :: f64 where "lit_1_6 = round64 (8 / 5)"
definition lit_1_8 :: f64 where "lit_1_8 = round64 (9 / 5)"

lemma lit_0_1_code [code]: "lit_0_1 = Fin (3602879701896397 / 36028797018963968)"
  unfolding lit_0_1_def
  by (subst round64_nearest [where e = "- 4" and m = 7205759403792794]) (simp_all add: pow2_def)

lemma lit_0_6_code [code]: "lit_0_6 = Fin (5404319552844595 / 9007199254740992)"
  unfolding lit_0_6_def
  by (subst round64_nearest [where e = "- 1" and m = 5404319552844595]) (simp_all add: pow2_def)

lemma lit_1_6_code [code]: "lit_1_6 = Fin (3602879701896397 / 2251799813685248)"
  unfolding lit_1_6_def
  by (subst round64_nearest [where e = 0 and m = 7205759403792794]) (simp_all add: pow2_def)

lemma lit_1_8_code [code]: "lit_1_8 = Fin (8106479329266893 / 4503599627370496)"
  unfolding lit_1_8_def
  by (subst round64_nearest [where e = 0 and m = 8106479329266893]) (simp_all add: pow2_def)

definition nonNegativeDailyCount :: "int \<Rightarrow> int" where
  "nonNegativeDailyCount value = (if value \<le> 0 then 0 else value)"

definition dailyCountValue :: "int option \<Rightarrow> int \<Rightarrow> int" where
  "dailyCountValue value fallback =
     (case value of None \<Rightarrow> nonNegativeDailyCount fallback | Some v \<Rightarrow> nonNegativeDailyCount v)"

definition dailyEffectiveWeight :: "int \<Rightarrow> int \<Rightarrow> int \<Rightarrow> int" where
  "dailyEffectiveWeight totalCount backfilled maintenance =
     (if totalCount \<le> 0 \<or> backfilled \<ge> totalCount then 0
      else
        let remaining = wrap64 (totalCount - backfilled) in
        if maintenance \<ge> remaining then 0
        else wrap64 (remaining - maintenance))"

definition finiteFloat64 :: "f64 \<Rightarrow> bool" where
  "finiteFloat64 value \<longleftrightarrow> value \<noteq> NaN \<and> \<not> (value = PInf \<or> value = NInf)"

definition usableTrendCPUAverage :: "f64 \<Rightarrow> bool" where
  "usableTrendCPUAverage value \<longleftrightarrow> finiteFloat64 value \<and> f_ge value (Fin 0) \<and> f_le value (Fin 100)"

text \<open>A weighted sum: the weight and the total of the values seen so far.\<close>

type_synonym accumulator = "f64 \<times> f64"

definition accumulate :: "f64 \<Rightarrow> f64 \<Rightarrow> accumulator \<Rightarrow> accumulator" where
  "accumulate value weight acc = (f_add (fst acc) weight, f_add (snd acc) (f_mul value weight))"

definition weightedValue :: "accumulator \<Rightarrow> f64 option" where
  "weightedValue acc = (if f_gt (fst acc) (Fin 0) then Some (f_div (snd acc) (fst acc)) else None)"

definition trendBaselineStep ::
    "MonitoringInstanceHostDailyAggregate \<Rightarrow> accumulator \<times> accumulator \<times> accumulator \<Rightarrow>
     accumulator \<times> accumulator \<times> accumulator" where
  "trendBaselineStep baseline accs =
     (case accs of (loadAcc, iowaitAcc, stealAcc) \<Rightarrow>
        let hostWeight = dailyEffectiveWeight
              (nonNegativeDailyCount (ha_SampleCount baseline))
              (nonNegativeDailyCount (ha_BackfilledSampleCount baseline))
              (nonNegativeDailyCount (ha_MaintenanceSampleCount baseline));
            loadAcc = (if hostWeight > 0 \<and> finiteFloat64 (ha_AvgLoad5 baseline)
              then accumulate (ha_AvgLoad5 baseline) (f64_of_int hostWeight) loadAcc else loadAcc);
            cpuValidWeight = dailyEffectiveWeight
              (dailyCountValue (ha_CPUValidSampleCount baseline) (ha_SampleCount baseline))
              (dailyCountValue (ha_CPUValidBackfilledSampleCount baseline) (ha_BackfilledSampleCount baseline))
              (dailyCountValue (ha_CPUValidMaintenanceSampleCount baseline) (ha_MaintenanceSampleCount baseline))
        in if cpuValidWeight \<le> 0 then (loadAcc, iowaitAcc, stealAcc)
           else
             let weight = f64_of_int cpuValidWeight in
             (loadAcc,
              (case ha_AvgCPUIOWaitPct baseline of
                 None \<Rightarrow> iowaitAcc
               | Some v \<Rightarrow> if usableTrendCPUAverage v then accumulate v weight iowaitAcc else iowaitAcc),
              (case ha_AvgCPUStealPct baseline of
                 None \<Rightarrow> stealAcc
               | Some v \<Rightarrow> if usableTrendCPUAverage v then accumulate v weight stealAcc else stealAcc)))"

definition weightedMonitoringInstanceTrendBaselines ::
    "MonitoringInstanceHostDailyAggregate list \<Rightarrow> f64 option \<times> f64 option \<times> f64 option" where
  "weightedMonitoringInstanceTrendBaselines baselines =
     (let zeroAcc = (Fin 0, Fin 0);
          (loadAcc, iowaitAcc, stealAcc) =
            fold trendBaselineStep baselines (zeroAcc, zeroAcc, zeroAcc)
      in (weightedValue loadAcc, weightedValue iowaitAcc, weightedValue stealAcc))"

section \<open>The trend of a monitoring instance\<close>

definition unsuppressedMonitoringInstanceResourceSamples ::
    "MonitoringInstanceResourceSample list \<Rightarrow> MonitoringInstanceResourceSample list" where
  "unsuppressedMonitoringInstanceResourceSamples samples =
     filter (\<lambda>sample. \<not> (rs_MaintenanceContext sample \<or> rs_IsBackfilled sample)) samples"

definition averageMonitoringInstanceResourceMetric ::
    "MonitoringInstanceResourceSample list \<Rightarrow> (MonitoringInstanceResourceSample \<Rightarrow> f64) \<Rightarrow> f64" where
  "averageMonitoringInstanceResourceMetric samples selector =
     (if samples = [] then Fin 0
      else f_div (foldl (\<lambda>acc sample. f_add acc (selector sample)) (Fin 0) samples)
             (f64_of_int (int (length samples))))"

definition minimumMonitoringInstanceResourceMetric ::
    "MonitoringInstanceResourceSample list \<Rightarrow> (MonitoringInstanceResourceSample \<Rightarrow> f64) \<Rightarrow> f64" where
  "minimumMonitoringInstanceResourceMetric samples selector =
     (case samples of
        [] \<Rightarrow> Fin 0
      | s # rest \<Rightarrow>
          foldl (\<lambda>minimum sample. let value = selector sample in
            if f_lt value minimum then value else minimum) (selector s) rest)"

definition spansMonitoringInstanceResourceWindow ::
    "MonitoringInstanceResourceSample list \<Rightarrow> duration \<Rightarrow> bool" where
  "spansMonitoringInstanceResourceWindow samples window =
     (if samples = [] then False
      else time_Sub (rs_ObservedAt (hd samples)) (rs_ObservedAt (last samples)) \<ge> window)"

definition cpuWindowUsable :: "MonitoringInstanceResourceSample list \<Rightarrow> duration \<Rightarrow> bool" where
  "cpuWindowUsable samples window =
     (if \<not> spansMonitoringInstanceResourceWindow samples window then False
      else list_all (\<lambda>sample. CPURatesUsable (rs_CPURatesValid sample) (rs_CPUUsagePct sample)
             (rs_CPUIOWaitPct sample) (rs_CPUStealPct sample)) samples)"

definition nodeTrendMetricDegraded :: "f64 \<Rightarrow> f64 \<Rightarrow> f64 \<Rightarrow> f64 \<Rightarrow> bool" where
  "nodeTrendMetricDegraded current baseline absoluteFloor absoluteDelta =
     (if f_lt current absoluteFloor then False
      else
        let guardBaseline = (if f_lt baseline lit_0_1 then lit_0_1 else baseline) in
        if f_lt current (f_mul guardBaseline lit_1_8) then False
        else f_ge current (f_add baseline absoluteDelta))"

definition joinMetricLabels :: "string list \<Rightarrow> string" where
  "joinMetricLabels parts = join (utf8 [0x3001]) (sort_Strings parts)"

definition metricDegraded :: "f64 \<Rightarrow> f64 option \<Rightarrow> f64 \<Rightarrow> f64 \<Rightarrow> bool" where
  "metricDegraded current baseline absoluteFloor absoluteDelta =
     (case baseline of
        None \<Rightarrow> False
      | Some b \<Rightarrow> nodeTrendMetricDegraded current b absoluteFloor absoluteDelta)"

definition degradedMetrics ::
    "MonitoringInstanceResourceSample list \<Rightarrow> MonitoringInstanceHostDailyAggregate list \<Rightarrow> string list" where
  "degradedMetrics usableCurrent baselines =
     (let (loadBaseline, iowaitBaseline, stealBaseline) = weightedMonitoringInstanceTrendBaselines baselines;
          cpuCurrentUsable = cpuWindowUsable usableCurrent second
      in (if metricDegraded (averageMonitoringInstanceResourceMetric usableCurrent rs_NormalizedLoad5)
               loadBaseline lit_1_6 lit_0_6 then [''load5''] else [])
       @ (if cpuCurrentUsable \<and>
             metricDegraded (averageMonitoringInstanceResourceMetric usableCurrent rs_CPUIOWaitPct)
               iowaitBaseline (Fin 8) (Fin 4) then [''iowait''] else [])
       @ (if cpuCurrentUsable \<and>
             metricDegraded (averageMonitoringInstanceResourceMetric usableCurrent rs_CPUStealPct)
               stealBaseline (Fin 3) (Fin 2) then [''steal''] else []))"

definition baselinesComplete :: "MonitoringInstanceHostDailyAggregate list \<Rightarrow> bool" where
  "baselinesComplete baselines =
     (case weightedMonitoringInstanceTrendBaselines baselines of
        (loadBaseline, iowaitBaseline, stealBaseline) \<Rightarrow>
          \<not> (loadBaseline = None \<or> iowaitBaseline = None \<or> stealBaseline = None))"

definition EvaluateMonitoringInstanceTrendDegradation ::
    "IncidentRecord option \<Rightarrow> string \<Rightarrow> MonitoringInstanceResourceSample list \<Rightarrow>
     MonitoringInstanceHostDailyAggregate list \<Rightarrow> EvaluationResult" where
  "EvaluateMonitoringInstanceTrendDegradation previous monitoringInstanceID samples baselines =
     (case normalizeMonitoringInstanceResourceSamples samples of
        [] \<Rightarrow> noop previous
      | s0 # rest \<Rightarrow>
          if rs_MaintenanceContext s0 \<or> rs_IsBackfilled s0 then skip previous
          else
            let usableCurrent = unsuppressedMonitoringInstanceResourceSamples (s0 # rest) in
            if length usableCurrent < 3 \<or> \<not> spansMonitoringInstanceResourceWindow usableCurrent second
            then
              if previous \<noteq> None then noop previous
              else \<lparr> er_Current = None, er_Transition = TransitionNoop, er_Event = None, er_Notification = None \<rparr>
            else
              let referenceTime = rs_ObservedAt (hd usableCurrent);
                  cpuCurrentUsable = cpuWindowUsable usableCurrent second;
                  degraded = degradedMetrics usableCurrent baselines
              in if degraded = [] then
                   if previous = None then
                     \<lparr> er_Current = None, er_Transition = TransitionNoop, er_Event = None, er_Notification = None \<rparr>
                   else if \<not> spansMonitoringInstanceResourceWindow usableCurrent (30 * minute) \<or>
                     \<not> cpuCurrentUsable \<or> \<not> baselinesComplete baselines
                   then noop previous
                   else recoverIfNeeded previous referenceTime (utf8 [0x76D1, 0x63A7, 0x5B9E, 0x4F8B, 0x8D8B, 0x52BF, 0x5DF2, 0x6062, 0x590D, 0x5230, 0x5B89, 0x5168, 0x533A, 0x95F4])
                     MonitoringEventProvenanceAgentSync False
                 else
                   let severity = (if 2 \<le> length degraded then SeverityAlert else SeverityNotice) in
                   if (case previous of
                         None \<Rightarrow> False
                       | Some p \<Rightarrow> (\<not> cpuCurrentUsable \<or> \<not> baselinesComplete baselines) \<and>
                           severityRank severity \<le> severityRank (inc_Severity p))
                   then noop previous
                   else evaluateTransition previous ObjectTypeMonitoringInstance monitoringInstanceID
                     IncidentMonitoringInstanceTrendDegradation severity referenceTime
                     ((utf8 [0x76D1, 0x63A7, 0x5B9E, 0x4F8B, 0x8D8B, 0x52BF, 0x52A3, 0x5316, 0xFF1A]) @ joinMetricLabels degraded) MonitoringEventProvenanceAgentSync)"

section \<open>The latency trend of a target\<close>

definition weightedTargetLatencyBaselines :: "TargetProbeDailyAggregate list \<Rightarrow> (string, f64) gomap" where
  "weightedTargetLatencyBaselines baselines =
     (let accumulators = foldl (\<lambda>accs baseline.
            case pa_AvgLatencyMS baseline of
              None \<Rightarrow> accs
            | Some avg \<Rightarrow>
                if pa_ProbeItemID baseline = [] then accs
                else
                  let weight = f64_of_int (wrap64 (wrap64 (pa_SuccessCount baseline -
                        pa_BackfilledObservationCount baseline) - pa_MaintenanceObservationCount baseline)) in
                  if f_le weight (Fin 0) then accs
                  else AList.update (pa_ProbeItemID baseline)
                    (accumulate avg weight
                      (case map_of accs (pa_ProbeItemID baseline) of None \<Rightarrow> (Fin 0, Fin 0) | Some acc \<Rightarrow> acc))
                    accs) [] baselines
      in map (\<lambda>(probeItemID, acc). (probeItemID, f_div (snd acc) (fst acc)))
           (filter (\<lambda>(probeItemID, acc). \<not> f_eq (fst acc) (Fin 0)) accumulators))"

definition usableLatencyObservationSeries ::
    "ProbeObservation list \<Rightarrow> (string, ProbeObservation list) gomap" where
  "usableLatencyObservationSeries observations =
     group_by po_ProbeItemID
       (filter (\<lambda>x. \<not> po_suppressed x \<and>
          \<not> (po_ResultKind x \<noteq> ProbeResultSuccess \<or> po_LatencyMS x = None \<or> po_ProbeItemID x = []))
        observations)"

text \<open>The loops dereference the latency of observations that \<open>usableLatencyObservationSeries\<close> kept.\<close>

definition averageProbeLatencyMS :: "ProbeObservation list \<Rightarrow> f64" where
  "averageProbeLatencyMS observations =
     (if observations = [] then Fin 0
      else f_div (foldl (\<lambda>acc x. f_add acc (f64_of_int (the (po_LatencyMS x)))) (Fin 0) observations)
             (f64_of_int (int (length observations))))"

definition targetLatencySeriesDegraded :: "f64 \<Rightarrow> f64 \<Rightarrow> bool" where
  "targetLatencySeriesDegraded currentAvg baselineAvg =
     (if f_le baselineAvg (Fin 0) then False
      else if f_lt currentAvg (f_mul baselineAvg lit_1_8) then False
      else f_ge currentAvg (f_add baselineAvg (Fin 100)) \<or> f_ge currentAvg (Fin 250))"

definition degradedTargetLatencyMonitoringInstances :: "ProbeObservation list \<Rightarrow> f64 \<Rightarrow> string list" where
  "degradedTargetLatencyMonitoringInstances observations baselineAvg =
     (let byMonitoringInstance = group_by po_MonitoringInstanceID
            (filter (\<lambda>x. po_MonitoringInstanceID x \<noteq> []) observations)
      in map fst (filter (\<lambda>(monitoringInstanceID, series).
           \<not> length series < 3 \<and> targetLatencySeriesDegraded (averageProbeLatencyMS series) baselineAvg)
         byMonitoringInstance))"

definition spansProbeObservationWindow :: "ProbeObservation list \<Rightarrow> duration \<Rightarrow> bool" where
  "spansProbeObservationWindow observations window =
     (if observations = [] then False
      else time_Sub (po_ObservedAt (hd observations)) (po_ObservedAt (last observations)) \<ge> window)"

text \<open>The loop of \<open>hasSustainedTargetLatencyRecoveryEvidence\<close> with its early returns.\<close>

fun sustainedScan ::
    "(string, f64) gomap \<Rightarrow> duration \<Rightarrow> (string \<times> ProbeObservation list) list \<Rightarrow> nat \<Rightarrow> bool" where
  "sustainedScan baselines window [] comparableSeries = (comparableSeries > 0)"
| "sustainedScan baselines window ((probeItemID, observations) # rest) comparableSeries =
     (case map_of baselines probeItemID of
        None \<Rightarrow> sustainedScan baselines window rest comparableSeries
      | Some baseline \<Rightarrow>
          if length observations < 3 then False
          else if \<not> spansProbeObservationWindow observations window then False
          else if targetLatencySeriesDegraded (averageProbeLatencyMS observations) baseline then False
          else sustainedScan baselines window rest (Suc comparableSeries))"

definition hasSustainedTargetLatencyRecoveryEvidence ::
    "((string, ProbeObservation list) gomap \<Rightarrow> (string, ProbeObservation list) gomap) \<Rightarrow>
     (string, ProbeObservation list) gomap \<Rightarrow> (string, f64) gomap \<Rightarrow> duration \<Rightarrow> bool" where
  "hasSustainedTargetLatencyRecoveryEvidence rangeOrder series baselines window =
     sustainedScan baselines window (rangeOrder series) 0"

text \<open>
  The loop over the series: the degraded probe items, the set of degraded monitoring instances and
  the number of series that have a baseline.
\<close>

fun latencyScan ::
    "(string, f64) gomap \<Rightarrow> (string \<times> ProbeObservation list) list \<Rightarrow> string list \<Rightarrow> string list \<Rightarrow> nat \<Rightarrow>
     string list \<times> string list \<times> nat" where
  "latencyScan usableBaselines [] items instances comparableSeries = (items, instances, comparableSeries)"
| "latencyScan usableBaselines ((probeItemID, currentSeries) # rest) items instances comparableSeries =
     (case map_of usableBaselines probeItemID of
        None \<Rightarrow> latencyScan usableBaselines rest items instances comparableSeries
      | Some baseline \<Rightarrow>
          if length currentSeries < 3 then latencyScan usableBaselines rest items instances comparableSeries
          else
            let currentAvg = averageProbeLatencyMS currentSeries;
                forProbe = degradedTargetLatencyMonitoringInstances currentSeries baseline
            in if \<not> targetLatencySeriesDegraded currentAvg baseline \<and> forProbe = []
               then latencyScan usableBaselines rest items instances (Suc comparableSeries)
               else latencyScan usableBaselines rest (items @ [probeItemID])
                      (fold List.insert forProbe instances) (Suc comparableSeries))"

definition EvaluateTargetLatencyTrendDegradationAcrossSeries ::
    "((string, ProbeObservation list) gomap \<Rightarrow> (string, ProbeObservation list) gomap) \<Rightarrow>
     ((string, ProbeObservation list) gomap \<Rightarrow> (string, ProbeObservation list) gomap) \<Rightarrow>
     IncidentRecord option \<Rightarrow> string \<Rightarrow> ProbeObservation list \<Rightarrow> TargetProbeDailyAggregate list \<Rightarrow>
     EvaluationResult" where
  "EvaluateTargetLatencyTrendDegradationAcrossSeries scanOrder recoveryOrder previous targetID observations baselines =
     (case normalizeProbeObservations observations of
        [] \<Rightarrow> noop previous
      | o0 # rest \<Rightarrow>
          if po_MaintenanceContext o0 \<or> po_IsBackfilled o0 then skip previous
          else
            let usableBaselines = weightedTargetLatencyBaselines baselines;
                series = usableLatencyObservationSeries (o0 # rest)
            in if usableBaselines = [] \<or> series = [] then
                 if previous \<noteq> None then noop previous
                 else \<lparr> er_Current = None, er_Transition = TransitionNoop, er_Event = None, er_Notification = None \<rparr>
               else
                 let referenceTime = po_ObservedAt o0;
                     (degradedProbeItems, degradedMonitoringInstances, comparableSeries) =
                       latencyScan usableBaselines (scanOrder series) [] [] 0
                 in if comparableSeries = 0 then noop previous
                    else if degradedProbeItems = [] then
                      if previous \<noteq> None \<and>
                         \<not> hasSustainedTargetLatencyRecoveryEvidence recoveryOrder series usableBaselines (30 * minute)
                      then noop previous
                      else recoverIfNeeded previous referenceTime (utf8 [0x76EE, 0x6807, 0x5EF6, 0x8FDF, 0x8D8B, 0x52BF, 0x5DF2, 0x6062, 0x590D, 0x5230, 0x5B89, 0x5168, 0x533A, 0x95F4])
                        MonitoringEventProvenanceAgentSync False
                    else
                      let severity = (if 2 \<le> length degradedProbeItems \<or> 2 \<le> length degradedMonitoringInstances
                            then SeverityAlert else SeverityNotice);
                          degradedProbeItems = sort_Strings degradedProbeItems
                      in evaluateTransition previous ObjectTypeTarget targetID
                           IncidentTargetLatencyTrendDegradation severity referenceTime
                           ((utf8 [0x76EE, 0x6807, 0x5EF6, 0x8FDF, 0x8D8B, 0x52BF, 0x52A3, 0x5316, 0xFF1A]) @ joinMetricLabels degradedProbeItems)
                           MonitoringEventProvenanceAgentSync)"

section \<open>The evaluators keep the contract\<close>

abbreviation live_samples :: "MonitoringInstanceResourceSample list \<Rightarrow> MonitoringInstanceResourceSample list" where
  "live_samples samples \<equiv>
     unsuppressedMonitoringInstanceResourceSamples (normalizeMonitoringInstanceResourceSamples samples)"

lemma noop_None: "noop None =
  \<lparr> er_Current = None, er_Transition = TransitionNoop, er_Event = None, er_Notification = None \<rparr>"
  by (simp add: noop_def)

lemma trend_cases:
  assumes "r = EvaluateMonitoringInstanceTrendDegradation prev mid samples baselines"
  obtains
    (noop) "r = noop prev"
  | (skip) "r = skip prev"
  | (recover) summary where "prev \<noteq> None" and "3 \<le> length (live_samples samples)"
      and "degradedMetrics (live_samples samples) baselines = []"
      and "spansMonitoringInstanceResourceWindow (live_samples samples) (30 * minute)"
      and "cpuWindowUsable (live_samples samples) second" and "baselinesComplete baselines"
      and "r = recoverIfNeeded prev (rs_ObservedAt (hd (live_samples samples))) summary
             MonitoringEventProvenanceAgentSync False"
  | (transition) sev summary where "3 \<le> length (live_samples samples)"
      and "spansMonitoringInstanceResourceWindow (live_samples samples) second"
      and "degradedMetrics (live_samples samples) baselines \<noteq> []"
      and "sev = (if 2 \<le> length (degradedMetrics (live_samples samples) baselines)
             then SeverityAlert else SeverityNotice)"
      and "r = evaluateTransition prev ObjectTypeMonitoringInstance mid
             IncidentMonitoringInstanceTrendDegradation sev (rs_ObservedAt (hd (live_samples samples)))
             summary MonitoringEventProvenanceAgentSync"
proof (cases "normalizeMonitoringInstanceResourceSamples samples")
  case Nil
  show thesis by (rule noop) (simp add: assms EvaluateMonitoringInstanceTrendDegradation_def Nil)
next
  case (Cons s0 rest)
  define u where "u = live_samples samples"
  define sev where "sev = (if 2 \<le> length (degradedMetrics u baselines) then SeverityAlert else SeverityNotice)"
  define hold where "hold = (case prev of None \<Rightarrow> False
    | Some p \<Rightarrow> (\<not> cpuWindowUsable u second \<or> \<not> baselinesComplete baselines) \<and>
        severityRank sev \<le> severityRank (inc_Severity p))"
  define ready where "ready \<longleftrightarrow> spansMonitoringInstanceResourceWindow u (30 * minute) \<and>
    cpuWindowUsable u second \<and> baselinesComplete baselines"
  have r: "r = (if rs_MaintenanceContext s0 \<or> rs_IsBackfilled s0 then skip prev
      else if length u < 3 \<or> \<not> spansMonitoringInstanceResourceWindow u second then noop prev
      else if degradedMetrics u baselines = [] then
        if prev = None \<or> \<not> ready then noop prev
        else recoverIfNeeded prev (rs_ObservedAt (hd u)) (utf8 [0x76D1, 0x63A7, 0x5B9E, 0x4F8B, 0x8D8B, 0x52BF, 0x5DF2, 0x6062, 0x590D, 0x5230, 0x5B89, 0x5168, 0x533A, 0x95F4])
          MonitoringEventProvenanceAgentSync False
      else if hold then noop prev
      else evaluateTransition prev ObjectTypeMonitoringInstance mid
        IncidentMonitoringInstanceTrendDegradation sev (rs_ObservedAt (hd u))
        ((utf8 [0x76D1, 0x63A7, 0x5B9E, 0x4F8B, 0x8D8B, 0x52BF, 0x52A3, 0x5316, 0xFF1A]) @ joinMetricLabels (degradedMetrics u baselines)) MonitoringEventProvenanceAgentSync)"
    unfolding assms EvaluateMonitoringInstanceTrendDegradation_def Cons list.case Let_def hold_def sev_def u_def
      ready_def noop_None [symmetric]
    by (cases prev) (simp_all cong: if_cong)
  consider (a) "r = noop prev" | (b) "r = skip prev"
    | (c) "prev \<noteq> None" "3 \<le> length u" "degradedMetrics u baselines = []" "ready"
        "r = recoverIfNeeded prev (rs_ObservedAt (hd u)) (utf8 [0x76D1, 0x63A7, 0x5B9E, 0x4F8B, 0x8D8B, 0x52BF, 0x5DF2, 0x6062, 0x590D, 0x5230, 0x5B89, 0x5168, 0x533A, 0x95F4])
          MonitoringEventProvenanceAgentSync False"
    | (d) "3 \<le> length u" "spansMonitoringInstanceResourceWindow u second" "degradedMetrics u baselines \<noteq> []"
        "r = evaluateTransition prev ObjectTypeMonitoringInstance mid
          IncidentMonitoringInstanceTrendDegradation sev (rs_ObservedAt (hd u))
          ((utf8 [0x76D1, 0x63A7, 0x5B9E, 0x4F8B, 0x8D8B, 0x52BF, 0x52A3, 0x5316, 0xFF1A]) @ joinMetricLabels (degradedMetrics u baselines)) MonitoringEventProvenanceAgentSync"
    using r by (auto simp: not_less split: if_splits)
  thus thesis
  proof cases
    case c
    thus thesis by (intro recover) (simp_all add: u_def ready_def)
  next
    case d
    thus thesis by (intro transition [of sev]) (simp_all add: u_def sev_def)
  qed (rule that(1) that(2); assumption)+
qed

interpretation trend: incident_evaluator
  ObjectTypeMonitoringInstance oid IncidentMonitoringInstanceTrendDegradation
  "\<lambda>(samples, baselines) prev. EvaluateMonitoringInstanceTrendDegradation prev oid samples baselines"
  for oid
proof unfold_locales
  fix prev and i :: "MonitoringInstanceResourceSample list \<times> MonitoringInstanceHostDailyAggregate list"
  assume p: "previous_ok ObjectTypeMonitoringInstance oid IncidentMonitoringInstanceTrendDegradation prev"
  obtain samples baselines where i: "i = (samples, baselines)" by (cases i)
  have "result_ok ObjectTypeMonitoringInstance oid IncidentMonitoringInstanceTrendDegradation prev
    (EvaluateMonitoringInstanceTrendDegradation prev oid samples baselines)"
    using refl [of "EvaluateMonitoringInstanceTrendDegradation prev oid samples baselines"]
  proof (cases rule: trend_cases)
    case noop
    thus ?thesis using noop_ok [OF p] by simp
  next
    case skip
    thus ?thesis by (simp add: skip_ok)
  next
    case (recover summary)
    show ?thesis unfolding recover(7) by (rule recoverIfNeeded_ok) (simp_all add: p)
  next
    case (transition sev summary)
    show ?thesis unfolding transition(5)
      by (rule evaluateTransition_ok) (simp_all add: p transition(4))
  qed
  thus "result_ok ObjectTypeMonitoringInstance oid IncidentMonitoringInstanceTrendDegradation prev
    ((case i of (samples, baselines) \<Rightarrow>
      \<lambda>prev. EvaluateMonitoringInstanceTrendDegradation prev oid samples baselines) prev)"
    by (simp add: i)
qed simp

section \<open>The loops over the latency series\<close>

definition comparable_series :: "(string, f64) gomap \<Rightarrow> string \<times> ProbeObservation list \<Rightarrow> bool" where
  "comparable_series baselines x \<longleftrightarrow> map_of baselines (fst x) \<noteq> None \<and> 3 \<le> length (snd x)"

definition series_instances :: "(string, f64) gomap \<Rightarrow> string \<times> ProbeObservation list \<Rightarrow> string list" where
  "series_instances baselines x =
     degradedTargetLatencyMonitoringInstances (snd x) (the (map_of baselines (fst x)))"

definition degraded_series :: "(string, f64) gomap \<Rightarrow> string \<times> ProbeObservation list \<Rightarrow> bool" where
  "degraded_series baselines x \<longleftrightarrow> comparable_series baselines x \<and>
     (targetLatencySeriesDegraded (averageProbeLatencyMS (snd x)) (the (map_of baselines (fst x))) \<or>
      series_instances baselines x \<noteq> [])"

definition sustained_series :: "(string, f64) gomap \<Rightarrow> duration \<Rightarrow> string \<times> ProbeObservation list \<Rightarrow> bool" where
  "sustained_series baselines window x \<longleftrightarrow>
     3 \<le> length (snd x) \<and> spansProbeObservationWindow (snd x) window \<and>
     \<not> targetLatencySeriesDegraded (averageProbeLatencyMS (snd x)) (the (map_of baselines (fst x)))"

lemma latencyScan_eq:
  "latencyScan bl xs items insts n =
     (items @ map fst (filter (degraded_series bl) xs),
      fold List.insert (concat (map (series_instances bl) (filter (degraded_series bl) xs))) insts,
      n + length (filter (comparable_series bl) xs))"
proof (induction xs arbitrary: items insts n)
  case (Cons x xs)
  obtain pid cur where x: "x = (pid, cur)" by (cases x)
  show ?case
    using Cons.IH unfolding x
    by (cases "map_of bl pid")
      (auto simp: comparable_series_def degraded_series_def series_instances_def Let_def)
qed simp

lemma sustainedScan_iff:
  "sustainedScan bl w xs n \<longleftrightarrow>
     (\<forall>x \<in> set xs. map_of bl (fst x) \<noteq> None \<longrightarrow> sustained_series bl w x) \<and>
     (0 < n \<or> (\<exists>x \<in> set xs. map_of bl (fst x) \<noteq> None))"
proof (induction xs arbitrary: n)
  case (Cons x xs)
  obtain pid cur where x: "x = (pid, cur)" by (cases x)
  show ?case
    using Cons.IH unfolding x
    by (cases "map_of bl pid") (auto simp: sustained_series_def not_less)
qed simp

lemma fold_insert_set: "set (fold List.insert xs ys) = set xs \<union> set ys"
  by (induction xs arbitrary: ys) auto

lemma fold_insert_distinct: "distinct ys \<Longrightarrow> distinct (fold List.insert xs ys)"
  by (induction xs arbitrary: ys) auto

lemma length_fold_insert: "length (fold List.insert xs []) = card (set xs)"
  using fold_insert_set [of xs "[]"] fold_insert_distinct [of "[]" xs] distinct_card by fastforce

lemma latencyScan_perm:
  assumes "mset xs = mset ys"
    and "latencyScan bl xs [] [] 0 = (i1, s1, n1)" and "latencyScan bl ys [] [] 0 = (i2, s2, n2)"
  shows "mset i1 = mset i2 \<and> length s1 = length s2 \<and> n1 = n2"
proof -
  have f: "mset (filter P xs) = mset (filter P ys)" for P
    using assms(1) by (simp add: mset_filter)
  have "mset i1 = mset i2"
    using assms(2,3) f [of "degraded_series bl"] by (auto simp: latencyScan_eq)
  moreover have "set (filter (degraded_series bl) xs) = set (filter (degraded_series bl) ys)"
    using f mset_eq_setD by blast
  hence "length s1 = length s2"
    using assms(2,3) by (auto simp: latencyScan_eq length_fold_insert)
  moreover have "n1 = n2"
    using assms(2,3) mset_eq_length [OF f [of "comparable_series bl"]] by (simp add: latencyScan_eq)
  ultimately show ?thesis by blast
qed

lemma sustainedScan_perm: "mset xs = mset ys \<Longrightarrow> sustainedScan bl w xs n = sustainedScan bl w ys n"
  using mset_eq_setD [of xs ys] by (simp add: sustainedScan_iff)

lemma joinMetricLabels_perm: "mset xs = mset ys \<Longrightarrow> joinMetricLabels xs = joinMetricLabels ys"
  unfolding joinMetricLabels_def by (drule sort_Strings_perm) simp

text \<open>What the evaluator does with the outcome of its loops.\<close>

definition latency_decision ::
    "IncidentRecord option \<Rightarrow> string \<Rightarrow> time \<Rightarrow> bool \<Rightarrow> string list \<Rightarrow> nat \<Rightarrow> nat \<Rightarrow> EvaluationResult" where
  "latency_decision prev tid t sustained items instances n =
     (if n = 0 then noop prev
      else if items = [] then
        if prev \<noteq> None \<and> \<not> sustained then noop prev
        else recoverIfNeeded prev t (utf8 [0x76EE, 0x6807, 0x5EF6, 0x8FDF, 0x8D8B, 0x52BF, 0x5DF2, 0x6062, 0x590D, 0x5230, 0x5B89, 0x5168, 0x533A, 0x95F4]) MonitoringEventProvenanceAgentSync False
      else evaluateTransition prev ObjectTypeTarget tid IncidentTargetLatencyTrendDegradation
        (if 2 \<le> length items \<or> 2 \<le> instances then SeverityAlert else SeverityNotice) t
        ((utf8 [0x76EE, 0x6807, 0x5EF6, 0x8FDF, 0x8D8B, 0x52BF, 0x52A3, 0x5316, 0xFF1A]) @ joinMetricLabels items) MonitoringEventProvenanceAgentSync)"

lemma latency_decision_perm:
  assumes "mset xs = mset ys"
  shows "latency_decision p tid t s xs i n = latency_decision p tid t s ys i n"
proof -
  have "(xs = []) = (ys = [])" and "length xs = length ys"
    using assms mset_eq_length by fastforce+
  thus ?thesis by (simp only: latency_decision_def joinMetricLabels_perm [OF assms])
qed

lemma latency_evaluator_eq:
  "EvaluateTargetLatencyTrendDegradationAcrossSeries o1 o2 prev tid obs baselines =
     (let ns = normalizeProbeObservations obs; bl = weightedTargetLatencyBaselines baselines;
          series = usableLatencyObservationSeries ns
      in if ns = [] then noop prev
         else if po_suppressed (hd ns) then skip prev
         else if bl = [] \<or> series = [] then noop prev
         else (case latencyScan bl (o1 series) [] [] 0 of (items, insts, n) \<Rightarrow>
           latency_decision prev tid (po_ObservedAt (hd ns))
             (sustainedScan bl (30 * minute) (o2 series) 0) items (length insts) n))"
proof (cases "normalizeProbeObservations obs")
  case Nil
  show ?thesis
    unfolding EvaluateTargetLatencyTrendDegradationAcrossSeries_def Let_def Nil by simp
next
  case (Cons o0 rest)
  have j: "joinMetricLabels (sort_Strings xs) = joinMetricLabels xs"
    and l: "length (sort_Strings xs) = length xs" for xs
    by (rule joinMetricLabels_perm, simp, simp add: sort_Strings_def)
  have n: "(if prev \<noteq> None then noop prev else \<lparr> er_Current = None, er_Transition = TransitionNoop,
      er_Event = None, er_Notification = None \<rparr>) = noop prev"
    by (simp add: noop_def)
  show ?thesis
    unfolding EvaluateTargetLatencyTrendDegradationAcrossSeries_def Let_def Cons list.case n j
      hasSustainedTargetLatencyRecoveryEvidence_def latency_decision_def po_suppressed_def
    by (simp split: prod.split)
qed

text \<open>
  (C18) The order in which the runtime ranges over the map of latency series, in the scan for degraded
  series and in the check of the recovery evidence, has no influence on the evaluation: severity,
  summary text, transition and event are the same for every order.
\<close>

theorem latency_order_independent:
  assumes "\<And>m. mset (o1 m) = mset m" and "\<And>m. mset (o2 m) = mset m"
  shows "EvaluateTargetLatencyTrendDegradationAcrossSeries o1 o2 prev tid obs baselines =
    EvaluateTargetLatencyTrendDegradationAcrossSeries (\<lambda>m. m) (\<lambda>m. m) prev tid obs baselines"
proof -
  define ns where "ns = normalizeProbeObservations obs"
  define bl where "bl = weightedTargetLatencyBaselines baselines"
  define series where "series = usableLatencyObservationSeries ns"
  obtain i1 s1 n1 where a: "latencyScan bl (o1 series) [] [] 0 = (i1, s1, n1)" by (metis surj_pair)
  obtain i2 s2 n2 where b: "latencyScan bl series [] [] 0 = (i2, s2, n2)" by (metis surj_pair)
  have p: "mset i1 = mset i2" "length s1 = length s2" "n1 = n2"
    using latencyScan_perm [OF assms(1) a b] by auto
  have s: "sustainedScan bl (30 * minute) (o2 series) 0 = sustainedScan bl (30 * minute) series 0"
    by (rule sustainedScan_perm) (rule assms(2))
  note fold = ns_def [symmetric] bl_def [symmetric] series_def [symmetric]
  have l: "EvaluateTargetLatencyTrendDegradationAcrossSeries o1 o2 prev tid obs baselines =
    (if ns = [] then noop prev else if po_suppressed (hd ns) then skip prev
     else if bl = [] \<or> series = [] then noop prev
     else latency_decision prev tid (po_ObservedAt (hd ns)) (sustainedScan bl (30 * minute) series 0)
       i1 (length s1) n1)"
    unfolding latency_evaluator_eq Let_def fold a s prod.case by (rule refl)
  have r: "EvaluateTargetLatencyTrendDegradationAcrossSeries (\<lambda>m. m) (\<lambda>m. m) prev tid obs baselines =
    (if ns = [] then noop prev else if po_suppressed (hd ns) then skip prev
     else if bl = [] \<or> series = [] then noop prev
     else latency_decision prev tid (po_ObservedAt (hd ns)) (sustainedScan bl (30 * minute) series 0)
       i2 (length s2) n2)"
    unfolding latency_evaluator_eq Let_def fold b prod.case by (rule refl)
  show ?thesis unfolding l r p(2,3) latency_decision_perm [OF p(1)] by (rule refl)
qed

lemma latency_decision_ok:
  assumes "previous_ok ObjectTypeTarget oid IncidentTargetLatencyTrendDegradation prev"
  shows "result_ok ObjectTypeTarget oid IncidentTargetLatencyTrendDegradation prev
    (latency_decision prev oid t sustained items instances n)"
  unfolding latency_decision_def using assms
  by (auto intro!: noop_ok recoverIfNeeded_ok evaluateTransition_ok)

interpretation latency: incident_evaluator
  ObjectTypeTarget oid IncidentTargetLatencyTrendDegradation
  "\<lambda>(scanOrder, recoveryOrder, observations, baselines) prev.
     EvaluateTargetLatencyTrendDegradationAcrossSeries scanOrder recoveryOrder prev oid observations baselines"
  for oid
  by unfold_locales
    (auto simp: latency_evaluator_eq Let_def split: prod.splits
      intro!: noop_ok skip_ok latency_decision_ok)

section \<open>Weights\<close>

lemma nonNegativeDailyCount_max: "nonNegativeDailyCount v = max 0 v"
  by (simp add: nonNegativeDailyCount_def)

lemma dailyCountValue_max:
  "dailyCountValue v fb = max 0 (case v of None \<Rightarrow> fb | Some c \<Rightarrow> c)"
  by (simp add: dailyCountValue_def nonNegativeDailyCount_max split: option.split)

lemma dailyEffectiveWeight_exact:
  assumes "0 \<le> backfilled" and "0 \<le> maintenance" and "is_int64 totalCount"
  shows "dailyEffectiveWeight totalCount backfilled maintenance =
    max 0 (totalCount - backfilled - maintenance)"
proof (cases "totalCount \<le> 0 \<or> backfilled \<ge> totalCount")
  case True
  thus ?thesis using assms by (auto simp: dailyEffectiveWeight_def)
next
  case False
  hence r: "is_int64 (totalCount - backfilled)"
    using assms by (auto simp: is_int64_def minInt64_def)
  moreover have "is_int64 (totalCount - backfilled - maintenance)"
    if "maintenance < totalCount - backfilled"
    using that r assms by (auto simp: is_int64_def minInt64_def)
  ultimately show ?thesis
    using False by (auto simp: dailyEffectiveWeight_def Let_def wrap64_id)
qed

text \<open>
  The counts of a day of host samples, as the retention job of \<open>internal/center/store/retention.go\<close>
  writes them.  Its filters on backfilled samples and on maintenance are independent of each other.  The
  averages come from the database and are those of the given aggregate.
\<close>

definition countHostDaily ::
    "HostSample list \<Rightarrow> MonitoringInstanceHostDailyAggregate \<Rightarrow> MonitoringInstanceHostDailyAggregate" where
  "countHostDaily samples aggregate =
     (let countWhere = (\<lambda>P. int (length (filter P samples)));
          usable = (\<lambda>s. CPURatesUsable (hs_CPURatesValid s) (hs_CPUUsagePct s) (hs_CPUIOWaitPct s) (hs_CPUStealPct s))
      in aggregate\<lparr>
           ha_SampleCount := countWhere (\<lambda>s. True),
           ha_CPUValidSampleCount := Some (countWhere usable),
           ha_CPUValidBackfilledSampleCount := Some (countWhere (\<lambda>s. usable s \<and> hs_IsBackfilled s)),
           ha_CPUValidMaintenanceSampleCount := Some (countWhere (\<lambda>s. usable s \<and> hs_MaintenanceContext s)),
           ha_BackfilledSampleCount := countWhere hs_IsBackfilled,
           ha_MaintenanceSampleCount := countWhere hs_MaintenanceContext \<rparr>)"

lemma filter_inclusion_exclusion:
  "int (length (filter P xs)) - int (length (filter (\<lambda>x. P x \<and> A x) xs)) - int (length (filter (\<lambda>x. P x \<and> B x) xs)) =
   int (length (filter (\<lambda>x. P x \<and> \<not> A x \<and> \<not> B x) xs)) - int (length (filter (\<lambda>x. P x \<and> A x \<and> B x) xs))"
  by (induction xs) auto

text \<open>
  (C15) What the weight of a day is in terms of its samples.  The retention job counts backfilled samples
  and samples under maintenance independently, and the evaluator subtracts both counts, so the weight is
  the number of live samples outside maintenance less the number of samples that are both backfilled and
  under maintenance, and never negative.  It is the number of live samples when no sample is both.
  The same holds of the weight for CPU averages, over the samples with usable CPU rates.  Counts are
  within the SQL type of the columns.
\<close>

theorem daily_weight_exact:
  assumes "length samples \<le> 2147483647"
    and "usable = (\<lambda>s. CPURatesUsable (hs_CPURatesValid s) (hs_CPUUsagePct s) (hs_CPUIOWaitPct s) (hs_CPUStealPct s))"
  shows "let a = countHostDaily samples aggregate;
      number = (\<lambda>P. int (length (filter P samples))) in
    dailyEffectiveWeight (nonNegativeDailyCount (ha_SampleCount a))
      (nonNegativeDailyCount (ha_BackfilledSampleCount a))
      (nonNegativeDailyCount (ha_MaintenanceSampleCount a)) =
    max 0 (number (\<lambda>s. \<not> hs_IsBackfilled s \<and> \<not> hs_MaintenanceContext s) -
      number (\<lambda>s. hs_IsBackfilled s \<and> hs_MaintenanceContext s)) \<and>
    dailyEffectiveWeight (dailyCountValue (ha_CPUValidSampleCount a) (ha_SampleCount a))
      (dailyCountValue (ha_CPUValidBackfilledSampleCount a) (ha_BackfilledSampleCount a))
      (dailyCountValue (ha_CPUValidMaintenanceSampleCount a) (ha_MaintenanceSampleCount a)) =
    max 0 (number (\<lambda>s. usable s \<and> \<not> hs_IsBackfilled s \<and> \<not> hs_MaintenanceContext s) -
      number (\<lambda>s. usable s \<and> hs_IsBackfilled s \<and> hs_MaintenanceContext s))"
proof -
  have small: "is_int64 (int (length (filter P samples)))" for P
  proof -
    have "int (length (filter P samples)) \<le> 2147483647" using assms(1) length_filter_le [of P samples] by linarith
    hence "int (length (filter P samples)) \<le> 9223372036854775807" by linarith
    thus ?thesis by (simp add: is_int64_def minInt64_def maxInt64_def)
  qed
  have weight: "dailyEffectiveWeight (int (length (filter P samples))) (int (length (filter (\<lambda>s. P s \<and> hs_IsBackfilled s) samples)))
      (int (length (filter (\<lambda>s. P s \<and> hs_MaintenanceContext s) samples))) =
    max 0 (int (length (filter (\<lambda>s. P s \<and> \<not> hs_IsBackfilled s \<and> \<not> hs_MaintenanceContext s) samples)) -
      int (length (filter (\<lambda>s. P s \<and> hs_IsBackfilled s \<and> hs_MaintenanceContext s) samples)))" for P
    unfolding filter_inclusion_exclusion [of P samples hs_IsBackfilled hs_MaintenanceContext, symmetric]
    by (rule dailyEffectiveWeight_exact) (simp_all add: small)
  show ?thesis
    using weight [of "\<lambda>s. True"] weight [of usable] assms(2)
    by (simp add: countHostDaily_def Let_def nonNegativeDailyCount_max dailyCountValue_max)
qed

definition sample_daily :: "int \<Rightarrow> MonitoringInstanceHostDailyAggregate" where
  "sample_daily n = \<lparr> ha_BucketDate = 0, ha_SampleCount = n, ha_AvgLoad5 = Fin (1 / 2),
     ha_AvgCPUIOWaitPct = Some (Fin 1), ha_AvgCPUStealPct = Some (Fin 1),
     ha_BackfilledSampleCount = 10, ha_MaintenanceSampleCount = 20,
     ha_CPUValidSampleCount = None, ha_CPUValidBackfilledSampleCount = None,
     ha_CPUValidMaintenanceSampleCount = None \<rparr>"

text \<open>Three live samples and one that is replayed and under maintenance weigh two.\<close>

definition sample_day :: "HostSample list" where
  "sample_day = replicate 3 (sample_host 50 False) @
     [(sample_host 50 False)\<lparr> hs_IsBackfilled := True, hs_MaintenanceContext := True \<rparr>]"

theorem daily_weight_exact_witness:
  "let a = countHostDaily sample_day (sample_daily 0) in
    dailyEffectiveWeight (nonNegativeDailyCount (ha_SampleCount a))
      (nonNegativeDailyCount (ha_BackfilledSampleCount a))
      (nonNegativeDailyCount (ha_MaintenanceSampleCount a)) = 2"
proof -
  have "length sample_day \<le> 2147483647" by (simp add: sample_day_def)
  from daily_weight_exact [OF this refl, of "sample_daily 0"] show ?thesis
    by (simp add: Let_def sample_day_def sample_host_def numeral_3_eq_3)
qed

section \<open>What a recovery rests on\<close>

lemma thirty_minutes_Sub: "30 * minute \<le> time_Sub t u \<longleftrightarrow> 30 * minute \<le> t - u"
  by (rule le_time_Sub_iff) (simp_all add: is_int64_def minInt64_def maxInt64_def duration_defs)

text \<open>
  (C16) The trend incident of a monitoring instance closes only on complete evidence: at least three
  live samples that span thirty minutes, every one with usable CPU rates, a baseline for each of the
  three metrics, and none of the three averages degraded against its baseline.
\<close>

theorem trend_recovery_sound:
  assumes "er_Transition (EvaluateMonitoringInstanceTrendDegradation prev mid samples baselines) =
    TransitionRecovered"
  shows "\<exists>l w s. weightedMonitoringInstanceTrendBaselines baselines = (Some l, Some w, Some s) \<and>
    3 \<le> length (live_samples samples) \<and>
    30 * minute \<le> rs_ObservedAt (hd (live_samples samples)) - rs_ObservedAt (last (live_samples samples)) \<and>
    list_all rs_cpuUsable (live_samples samples) \<and>
    \<not> nodeTrendMetricDegraded (averageMonitoringInstanceResourceMetric (live_samples samples) rs_NormalizedLoad5)
        l lit_1_6 lit_0_6 \<and>
    \<not> nodeTrendMetricDegraded (averageMonitoringInstanceResourceMetric (live_samples samples) rs_CPUIOWaitPct)
        w (Fin 8) (Fin 4) \<and>
    \<not> nodeTrendMetricDegraded (averageMonitoringInstanceResourceMetric (live_samples samples) rs_CPUStealPct)
        s (Fin 3) (Fin 2)"
  using refl [of "EvaluateMonitoringInstanceTrendDegradation prev mid samples baselines"]
proof (cases rule: trend_cases)
  case noop
  thus ?thesis using assms by (simp add: noop_def)
next
  case skip
  thus ?thesis using assms by (simp add: skip_def)
next
  case (transition sev summary)
  thus ?thesis using assms
    by (simp add: evaluateTransition_transition split: option.splits if_splits)
next
  case (recover summary)
  define u where "u = live_samples samples"
  obtain l w s where b: "weightedMonitoringInstanceTrendBaselines baselines = (Some l, Some w, Some s)"
    using recover(6) by (auto simp: baselinesComplete_def split: prod.splits)
  have cpu: "list_all rs_cpuUsable u"
    using recover(5) unfolding u_def [symmetric] cpuWindowUsable_def rs_cpuUsable_def
    by (simp split: if_splits)
  have span: "30 * minute \<le> rs_ObservedAt (hd u) - rs_ObservedAt (last u)"
    using recover(4) unfolding u_def [symmetric] spansMonitoringInstanceResourceWindow_def thirty_minutes_Sub
    by (simp split: if_splits)
  show ?thesis
    using recover(2,3,5) b cpu span unfolding u_def [symmetric]
    by (simp add: degradedMetrics_def metricDegraded_def split: if_splits)
qed

definition steady_samples :: "MonitoringInstanceResourceSample list" where
  "steady_samples = [sample_resource (60 * minute) 20 False, sample_resource (45 * minute) 20 False,
     sample_resource (30 * minute) 20 False]"

definition sample_trend_incident :: IncidentRecord where
  "sample_trend_incident = sample_incident IncidentMonitoringInstanceTrendDegradation SeverityNotice"

lemma steady_recovers:
  "er_Transition (EvaluateMonitoringInstanceTrendDegradation (Some sample_trend_incident) ''mi''
     steady_samples [sample_daily 100]) = TransitionRecovered"
  by code_simp

theorem trend_recovery_sound_witness:
  "er_Transition (EvaluateMonitoringInstanceTrendDegradation (Some sample_trend_incident) ''mi''
     steady_samples [sample_daily 100]) = TransitionRecovered \<and> 3 \<le> length (live_samples steady_samples)"
  using steady_recovers trend_recovery_sound [OF steady_recovers] by blast

text \<open>
  (C17) The latency incident of a target closes only when some series has a baseline and every series
  with a baseline has at least three successful live observations that span thirty minutes and an
  average latency that is not degraded.
\<close>

theorem latency_recovery_sound:
  assumes "er_Transition (EvaluateTargetLatencyTrendDegradationAcrossSeries (\<lambda>m. m) (\<lambda>m. m) prev tid obs
    baselines) = TransitionRecovered"
    and "series = usableLatencyObservationSeries (normalizeProbeObservations obs)"
    and "bl = weightedTargetLatencyBaselines baselines"
  shows "(\<exists>x \<in> set series. map_of bl (fst x) \<noteq> None) \<and>
    (\<forall>x \<in> set series. \<forall>b. map_of bl (fst x) = Some b \<longrightarrow>
       3 \<le> length (snd x) \<and>
       30 * minute \<le> po_ObservedAt (hd (snd x)) - po_ObservedAt (last (snd x)) \<and>
       \<not> targetLatencySeriesDegraded (averageProbeLatencyMS (snd x)) b)"
proof -
  obtain items insts n where scan: "latencyScan bl series [] [] 0 = (items, insts, n)" by (metis surj_pair)
  have "er_Transition (latency_decision prev tid (po_ObservedAt (hd (normalizeProbeObservations obs)))
      (sustainedScan bl (30 * minute) series 0) items (length insts) n) = TransitionRecovered"
    using assms(1) scan unfolding latency_evaluator_eq Let_def assms(2,3) [symmetric]
    by (simp add: noop_def skip_def split: if_splits)
  hence "sustainedScan bl (30 * minute) series 0"
    by (auto simp: latency_decision_def noop_def recoverIfNeeded_transition evaluateTransition_transition
        split: if_splits option.splits)
  thus ?thesis
    by (auto simp: sustainedScan_iff sustained_series_def spansProbeObservationWindow_def
        thirty_minutes_Sub split: if_splits)
qed

definition sample_latency :: "string \<Rightarrow> int \<Rightarrow> time \<Rightarrow> ProbeObservation" where
  "sample_latency item ms t = (sample_probe ''success'' None t)\<lparr> po_LatencyMS := Some ms, po_ProbeItemID := item \<rparr>"

definition fast_series :: "ProbeObservation list" where
  "fast_series = [sample_latency ''p'' 40 (60 * minute), sample_latency ''p'' 50 (45 * minute),
     sample_latency ''p'' 60 (30 * minute)]"

definition sample_probe_daily :: "string \<Rightarrow> TargetProbeDailyAggregate" where
  "sample_probe_daily item = \<lparr> pa_TargetID = ''t'', pa_ProbeItemID = item, pa_BucketDate = 0,
     pa_ObservationCount = 100, pa_SuccessCount = 90, pa_AvgLatencyMS = Some (Fin 64), pa_P95LatencyMS = None,
     pa_BackfilledObservationCount = 10, pa_MaintenanceObservationCount = 0 \<rparr>"

definition sample_latency_incident :: IncidentRecord where
  "sample_latency_incident = (sample_incident IncidentTargetLatencyTrendDegradation SeverityNotice)
     \<lparr> inc_ObjectType := ObjectTypeTarget, inc_ObjectID := ''t'' \<rparr>"

lemma fast_recovers:
  "er_Transition (EvaluateTargetLatencyTrendDegradationAcrossSeries (\<lambda>m. m) (\<lambda>m. m)
     (Some sample_latency_incident) ''t'' fast_series [sample_probe_daily ''p'']) = TransitionRecovered"
  by code_simp

theorem latency_recovery_sound_witness:
  "er_Transition (EvaluateTargetLatencyTrendDegradationAcrossSeries (\<lambda>m. m) (\<lambda>m. m)
     (Some sample_latency_incident) ''t'' fast_series [sample_probe_daily ''p'']) = TransitionRecovered \<and>
   (\<exists>x \<in> set (usableLatencyObservationSeries (normalizeProbeObservations fast_series)).
      map_of (weightedTargetLatencyBaselines [sample_probe_daily ''p'']) (fst x) \<noteq> None)"
  using fast_recovers latency_recovery_sound [OF fast_recovers refl refl] by blast

definition slow_series :: "ProbeObservation list" where
  "slow_series = [sample_latency ''q'' 400 (60 * minute), sample_latency ''p'' 500 (45 * minute),
     sample_latency ''q'' 400 (40 * minute), sample_latency ''p'' 500 (35 * minute),
     sample_latency ''p'' 500 (34 * minute), sample_latency ''q'' 400 (30 * minute)]"

theorem latency_order_independent_witness:
  "EvaluateTargetLatencyTrendDegradationAcrossSeries rev rev None ''t'' slow_series
     [sample_probe_daily ''p'', sample_probe_daily ''q''] =
   EvaluateTargetLatencyTrendDegradationAcrossSeries (\<lambda>m. m) (\<lambda>m. m) None ''t'' slow_series
     [sample_probe_daily ''p'', sample_probe_daily ''q''] \<and>
   map_option inc_Severity (er_Current (EvaluateTargetLatencyTrendDegradationAcrossSeries rev rev None ''t''
     slow_series [sample_probe_daily ''p'', sample_probe_daily ''q''])) = Some SeverityAlert"
  by (rule conjI, rule latency_order_independent, simp_all only: mset_rev) code_simp

end
