(* ===== verification/Incident_Policy.thy ===== *)
theory Incident_Policy
  imports Settings_Laws Incident_Trends
begin

text \<open>
  The policies the incident service of \<open>internal/center/incidents/service.go\<close> evaluates with: metric
  thresholds, heartbeat policy, notification policy, resource pressure policy and sweep interval, all
  resolved from the settings repository or the built-in defaults.  A settings repository is the pair of
  results its two interfaces return at the time of the call.  Errors keep the chain that \<open>errors.Is\<close>
  walks.
\<close>

section \<open>Errors\<close>

datatype serviceError =
  ErrIncidentProjectionConflict
| ErrIncidentProjectionObjectNotFound
| ErrMonitoringInstanceNotFound
| ErrTargetNotFound
| errNotificationSuppressed
| errNotificationSettingsUnavailable
| ErrNoRows
| ErrInvalidSettings string
| NewError string
| WrapError string serviceError
| WrapErrors string serviceError serviceError

fun errors_Is :: "serviceError \<Rightarrow> serviceError \<Rightarrow> bool" where
  "errors_Is (WrapError m e) target = (WrapError m e = target \<or> errors_Is e target)"
| "errors_Is (WrapErrors m e f) target =
     (WrapErrors m e f = target \<or> errors_Is e target \<or> errors_Is f target)"
| "errors_Is e target = (e = target)"

section \<open>Thresholds and notification policy\<close>

definition midpointInt :: "int \<Rightarrow> int \<Rightarrow> int" where
  "midpointInt low high =
     (if high \<le> low then low else wrap64 (low + quot (wrap64 (high - low)) 2))"

definition midpointFloat :: "f64 \<Rightarrow> f64 \<Rightarrow> f64" where
  "midpointFloat low high =
     (if f_le high low then low else f_add low (f_div (f_sub high low) (Fin 2)))"

text \<open>\<open>if defaults.X > 0 { t.X = defaults.X }\<close>\<close>

definition positiveOr :: "int \<Rightarrow> int \<Rightarrow> int" where
  "positiveOr v fallback = (if v > 0 then v else fallback)"

definition MetricThresholdsFromDefaults :: "IncidentDefaults \<Rightarrow> MetricThresholds" where
  "MetricThresholdsFromDefaults defaults =
     (let t = DefaultMetricThresholds;
          t = t\<lparr>
           mt_CPUWarningPct := positiveOr (idf_CPUWarningPct defaults) (mt_CPUWarningPct t),
           mt_CPUAlertPct := positiveOr (idf_CPUAlertPct defaults) (mt_CPUAlertPct t),
           mt_CPUCriticalPct := positiveOr (idf_CPUCriticalPct defaults) (mt_CPUCriticalPct t),
           mt_MemWarningPct := positiveOr (idf_MemWarningPct defaults) (mt_MemWarningPct t),
           mt_MemAlertPct := positiveOr (idf_MemAlertPct defaults) (mt_MemAlertPct t),
           mt_MemCriticalPct := positiveOr (idf_MemCriticalPct defaults) (mt_MemCriticalPct t),
           mt_DiskWarningPct := positiveOr (idf_DiskWarningPct defaults) (mt_DiskWarningPct t),
           mt_DiskAlertPct := positiveOr (idf_DiskAlertPct defaults) (mt_DiskAlertPct t),
           mt_DiskCriticalPct := positiveOr (idf_DiskCriticalPct defaults) (mt_DiskCriticalPct t),
           mt_InodeWarningPct := positiveOr (idf_InodeWarningPct defaults) (mt_InodeWarningPct t),
           mt_InodeAlertPct := positiveOr (idf_InodeAlertPct defaults) (mt_InodeAlertPct t),
           mt_InodeCriticalPct := positiveOr (idf_InodeCriticalPct defaults) (mt_InodeCriticalPct t),
           mt_IOWaitWarningPct := positiveOr (idf_IOWaitWarningPct defaults) (mt_IOWaitWarningPct t),
           mt_IOWaitCriticalPct := positiveOr (idf_IOWaitCriticalPct defaults) (mt_IOWaitCriticalPct t) \<rparr>;
          t = t\<lparr> mt_IOWaitAlertPct := midpointInt (mt_IOWaitWarningPct t) (mt_IOWaitCriticalPct t) \<rparr>;
          t = t\<lparr>
           mt_Load5Warning := (if f_gt (idf_Load5Warning defaults) (Fin 0) then idf_Load5Warning defaults
             else mt_Load5Warning t),
           mt_Load5Critical := (if f_gt (idf_Load5Critical defaults) (Fin 0) then idf_Load5Critical defaults
             else mt_Load5Critical t) \<rparr>
      in t\<lparr> mt_Load5Alert := midpointFloat (mt_Load5Warning t) (mt_Load5Critical t) \<rparr>)"

record notificationPolicy =
  np_notifyOnStarted :: bool
  np_notifyOnEscalated :: bool
  np_notifyOnRecovered :: bool

definition notificationPolicyFromDefaults :: "IncidentDefaults \<Rightarrow> notificationPolicy" where
  "notificationPolicyFromDefaults defaults =
     \<lparr> np_notifyOnStarted = idf_NotifyOnStarted defaults,
       np_notifyOnEscalated = idf_NotifyOnEscalated defaults,
       np_notifyOnRecovered = idf_NotifyOnRecovered defaults \<rparr>"

definition defaultNotificationPolicy :: notificationPolicy where
  "defaultNotificationPolicy = notificationPolicyFromDefaults (cst_IncidentDefaults Default)"

definition notificationPolicy_enabled :: "notificationPolicy \<Rightarrow> NotificationReason \<Rightarrow> bool" where
  "notificationPolicy_enabled p reason =
     (case reason of
        NotificationReasonStarted \<Rightarrow> np_notifyOnStarted p
      | NotificationReasonEscalated \<Rightarrow> np_notifyOnEscalated p
      | NotificationReasonRecovered \<Rightarrow> np_notifyOnRecovered p
      | _ \<Rightarrow> True)"

section \<open>The settings repository\<close>

text \<open>
  \<open>repo_Effective\<close> is the result of \<open>GetEffectiveIncidentDefaults\<close> when the repository implements it
  (the defaults and whether they exist), and \<open>None\<close> when it does not.
\<close>

record SettingsRepo =
  repo_GetSettings :: "serviceError + CenterSettings"
  repo_Effective :: "(serviceError + (IncidentDefaults \<times> bool)) option"

definition notificationPolicyFor :: "SettingsRepo option \<Rightarrow> notificationPolicy" where
  "notificationPolicyFor settingsRepo =
     (case settingsRepo of
        None \<Rightarrow> defaultNotificationPolicy
      | Some repo \<Rightarrow>
          (case repo_Effective repo of
             Some (Inr (defaults, True)) \<Rightarrow> notificationPolicyFromDefaults defaults
           | _ \<Rightarrow>
               (case repo_GetSettings repo of
                  Inl _ \<Rightarrow> defaultNotificationPolicy
                | Inr settings \<Rightarrow> notificationPolicyFromDefaults (cst_IncidentDefaults settings))))"

definition sweepIntervalFor :: "SettingsRepo option \<Rightarrow> duration \<Rightarrow> duration" where
  "sweepIntervalFor settingsRepo fallbackSweepInterval =
     (case settingsRepo of
        None \<Rightarrow> fallbackSweepInterval
      | Some repo \<Rightarrow>
          (case (case repo_Effective repo of
                   Some (Inl _) \<Rightarrow> None
                 | Some (Inr (persisted, found)) \<Rightarrow> if \<not> found then None else Some persisted
                 | None \<Rightarrow>
                     (case repo_GetSettings repo of
                        Inl _ \<Rightarrow> None
                      | Inr settings \<Rightarrow> Some (cst_IncidentDefaults settings))) of
             None \<Rightarrow> fallbackSweepInterval
           | Some defaults \<Rightarrow>
               (case ValidateIncidentDefaults defaults of
                  Inl _ \<Rightarrow> fallbackSweepInterval
                | Inr checked \<Rightarrow> wrap64 (idf_SweepIntervalSeconds checked * second))))"

definition tierInterval :: "string \<Rightarrow> duration option" where
  "tierInterval tier =
     (if tier = FrequencyTier5s then Some (5 * second)
      else if tier = FrequencyTier1m then Some minute
      else if tier = FrequencyTier5m then Some (5 * minute)
      else if tier = FrequencyTier15m then Some (15 * minute)
      else if tier = FrequencyTier6h then Some (6 * hour)
      else None)"

definition resourcePressurePolicy ::
    "SettingsRepo option \<Rightarrow> string list \<Rightarrow> time \<Rightarrow> serviceError + ResourcePressurePolicy" where
  "resourcePressurePolicy settingsRepo labels now =
     (case (case settingsRepo of None \<Rightarrow> Inr Default | Some repo \<Rightarrow> repo_GetSettings repo) of
        Inl err \<Rightarrow> Inl (WrapError ''read center settings for resource pressure'' err)
      | Inr settings \<Rightarrow>
          let tier = ResolveHostSampleFrequencyTier (cst_HostSampleFrequencyTier settings) labels
                (cst_OverrideRules settings)
          in (case tierInterval tier of
                None \<Rightarrow> Inl (NewError ''invalid resource pressure sample frequency tier'')
              | Some interval \<Rightarrow> Inr \<lparr> rpp_EvaluatedAt = now, rpp_SampleInterval = interval \<rparr>))"

section \<open>The policy snapshot\<close>

record incidentPolicySnapshot =
  ps_heartbeat :: HeartbeatIncidentPolicy
  ps_metrics :: MetricThresholds
  ps_notification :: notificationPolicy

definition snapshotOf :: "duration \<Rightarrow> IncidentDefaults \<Rightarrow> incidentPolicySnapshot" where
  "snapshotOf heartbeatInterval defaults =
     \<lparr> ps_heartbeat =
         \<lparr> hbp_HeartbeatInterval = heartbeatInterval,
           hbp_MissingThreshold = idf_StaleThresholdIntervals defaults,
           hbp_RecoverySuccesses = heartbeatRecoverySuccesses,
           hbp_RecoveryMaxIntervalGap = wrap64 (2 * heartbeatInterval) \<rparr>,
       ps_metrics = MetricThresholdsFromDefaults defaults,
       ps_notification = notificationPolicyFromDefaults defaults \<rparr>"

definition readIncidentDefaults :: "SettingsRepo \<Rightarrow> serviceError + IncidentDefaults" where
  "readIncidentDefaults repo =
     (let fromSettings =
            (case repo_GetSettings repo of
               Inl err \<Rightarrow> Inl (WrapError ''read center settings for incident policy'' err)
             | Inr settings \<Rightarrow> Inr (cst_IncidentDefaults settings))
      in case repo_Effective repo of
           None \<Rightarrow> fromSettings
         | Some (Inl err) \<Rightarrow> Inl (WrapError ''read persisted incident defaults'' err)
         | Some (Inr (persisted, found)) \<Rightarrow> if found then Inr persisted else fromSettings)"

definition resolveIncidentPolicySnapshot ::
    "SettingsRepo option \<Rightarrow> duration \<Rightarrow> serviceError + incidentPolicySnapshot" where
  "resolveIncidentPolicySnapshot settingsRepo fallbackHeartbeatInterval =
     (case settingsRepo of
        None \<Rightarrow> Inr (snapshotOf fallbackHeartbeatInterval (cst_IncidentDefaults Default))
      | Some repo \<Rightarrow>
          (case readIncidentDefaults repo of
             Inl err \<Rightarrow> Inl err
           | Inr defaults \<Rightarrow>
               (case ValidateIncidentDefaults defaults of
                  Inl m \<Rightarrow> Inl (WrapError ''validate incident policy settings'' (ErrInvalidSettings m))
                | Inr checked \<Rightarrow>
                    Inr (snapshotOf (wrap64 (idf_HeartbeatIntervalSeconds checked * second)) checked))))"

text \<open>The intervals \<open>NewSettingsBackedService\<close> stores for use without settings.\<close>

definition defaultHeartbeatInterval :: duration where
  "defaultHeartbeatInterval = 5 * second"

definition fallbackHeartbeatIntervalOf :: "duration \<Rightarrow> duration" where
  "fallbackHeartbeatIntervalOf heartbeatInterval =
     (if heartbeatInterval \<le> 0 \<or> heartbeatInterval > maxHeartbeatIncidentInterval
      then defaultHeartbeatInterval else heartbeatInterval)"

definition fallbackSweepIntervalOf :: "duration \<Rightarrow> duration" where
  "fallbackSweepIntervalOf sweepInterval = (if sweepInterval \<le> 0 then 5 * second else sweepInterval)"

definition heartbeatRecoveryReceipts ::
    "time \<Rightarrow> time option \<Rightarrow> IncidentRecord option \<Rightarrow> HeartbeatIncidentPolicy \<Rightarrow>
     (time \<Rightarrow> serviceError + LiveHeartbeatReceipt list) \<Rightarrow> serviceError + LiveHeartbeatReceipt list" where
  "heartbeatRecoveryReceipts now lastHeartbeatAt previous policy listReceipts =
     (case (previous, lastHeartbeatAt) of
        (Some prev, Some lastAt) \<Rightarrow>
          if \<not> validHeartbeatIncidentPolicy policy then Inr []
          else
            let missed = heartbeatMissedIntervals now lastAt (hbp_HeartbeatInterval policy) in
            if missed \<ge> hbp_MissingThreshold policy then Inr []
            else (case listReceipts (inc_StartedAt prev) of
                    Inl err \<Rightarrow> Inl (WrapError ''list recent live heartbeat receipts'' err)
                  | Inr receipts \<Rightarrow> Inr receipts)
      | _ \<Rightarrow> Inr [])"

section \<open>Resolved policies are valid\<close>

lemma max_seconds:
  "maxIncidentDurationSeconds = 9223372036" "maxHeartbeatIntervalSeconds = 4611686018"
  "maxIncidentThresholdIntervals = 2305843009213693951" "maxHeartbeatIncidentInterval = 4611686018427387903"
  by (simp_all add: maxIncidentDurationSeconds_def maxHeartbeatIntervalSeconds_def maxIncidentThresholdIntervals_def
      maxHeartbeatIncidentInterval_def quot_nonneg maxInt64_def second_def)

lemma snapshot_heartbeat_valid:
  assumes "0 < i" and "i \<le> maxHeartbeatIncidentInterval"
    and "0 < idf_StaleThresholdIntervals d" and "idf_StaleThresholdIntervals d \<le> maxIncidentThresholdIntervals"
  shows "validHeartbeatIncidentPolicy (ps_heartbeat (snapshotOf i d))"
  using assms
  by (simp add: snapshotOf_def validHeartbeatIncidentPolicy_def maxIncidentThresholdIntervals_def)

lemma fallback_interval_valid:
  "0 < fallbackHeartbeatIntervalOf i \<and> fallbackHeartbeatIntervalOf i \<le> maxHeartbeatIncidentInterval"
  by (simp add: fallbackHeartbeatIntervalOf_def defaultHeartbeatInterval_def second_def max_seconds)

lemma Default_incident_ok: "incident_defaults_ok (cst_IncidentDefaults Default)"
  by code_simp

lemma Default_fill: "fillThresholdDefaults (cst_IncidentDefaults Default) = cst_IncidentDefaults Default"
  by code_simp

abbreviation configuredDefaults :: "SettingsRepo option \<Rightarrow> serviceError + IncidentDefaults" where
  "configuredDefaults settingsRepo \<equiv>
     (case settingsRepo of None \<Rightarrow> Inr (cst_IncidentDefaults Default) | Some repo \<Rightarrow> readIncidentDefaults repo)"

lemma resolved_from_ok:
  assumes "resolveIncidentPolicySnapshot repo (fallbackHeartbeatIntervalOf i) = Inr snap"
  obtains interval d c where "snap = snapshotOf interval d" and "incident_defaults_ok d"
    and "0 < interval" and "interval \<le> maxHeartbeatIncidentInterval"
    and "configuredDefaults repo = Inr c" and "d = fillThresholdDefaults c"
proof (cases repo)
  case None
  hence "snap = snapshotOf (fallbackHeartbeatIntervalOf i) (cst_IncidentDefaults Default)"
    using assms by (simp add: resolveIncidentPolicySnapshot_def)
  moreover have "configuredDefaults repo = Inr (cst_IncidentDefaults Default)" using None by simp
  ultimately show thesis using that fallback_interval_valid [of i] Default_incident_ok Default_fill by metis
next
  case (Some r)
  then obtain d d' where c: "configuredDefaults repo = Inr d" and v: "ValidateIncidentDefaults d = Inr d'"
    and s: "snap = snapshotOf (wrap64 (idf_HeartbeatIntervalSeconds d' * second)) d'"
    using assms unfolding resolveIncidentPolicySnapshot_def by (auto split: sum.splits)
  have d': "d' = fillThresholdDefaults d" and ok: "incident_defaults_ok d'"
    using v unfolding ValidateIncidentDefaults_def validateIncidentDefaults_iff by blast+
  hence "0 < idf_HeartbeatIntervalSeconds d'" "idf_HeartbeatIntervalSeconds d' \<le> 4611686018"
    by (simp_all add: incident_defaults_ok_def max_seconds)
  moreover from this have "wrap64 (idf_HeartbeatIntervalSeconds d' * second) = idf_HeartbeatIntervalSeconds d' * second"
    by (intro wrap64_id) (simp add: is_int64_def second_def minInt64_def maxInt64_def)
  ultimately show thesis using that [OF s ok _ _ c d'] by (simp add: second_def max_seconds)
qed

lemma midpointInt_between:
  assumes "0 \<le> low" and "low < high" and "high \<le> maxInt64"
  shows "low \<le> midpointInt low high \<and> midpointInt low high < high"
proof -
  have "wrap64 (high - low) = high - low"
    using assms by (intro wrap64_id) (simp add: is_int64_def minInt64_def)
  moreover have "wrap64 (low + (high - low) div 2) = low + (high - low) div 2"
    using assms by (intro wrap64_id) (simp add: is_int64_def minInt64_def, linarith)
  ultimately show ?thesis using assms by (simp add: midpointInt_def quot_nonneg)
qed

lemma load_thresholds_ordered:
  assumes "incident_defaults_ok d" and "idf_Load5Warning d \<noteq> NaN" and "idf_Load5Critical d \<noteq> NaN"
  shows "f_lt (mt_Load5Warning (MetricThresholdsFromDefaults d)) (mt_Load5Critical (MetricThresholdsFromDefaults d))"
proof -
  have "\<not> f_le (idf_Load5Warning d) (Fin 0)" "\<not> f_le (idf_Load5Critical d) (Fin 0)"
    "\<not> f_le (idf_Load5Critical d) (idf_Load5Warning d)"
    using assms(1) unfolding incident_defaults_ok_values Let_def by blast+
  hence "f_lt (Fin 0) (idf_Load5Warning d)" "f_lt (Fin 0) (idf_Load5Critical d)"
    "f_lt (idf_Load5Warning d) (idf_Load5Critical d)"
    using assms(2,3) by (simp_all add: f_lt_iff_not_le)
  thus ?thesis by (simp add: MetricThresholdsFromDefaults_def Let_def)
qed

text \<open>
  (C21) Whatever the settings repository returns, a policy snapshot that the service resolves is usable:
  the heartbeat policy passes the check of the evaluator (its doubled interval and quadrupled threshold
  do not overflow), and the thresholds in percent are strictly ordered, with the derived I/O wait alert
  between its neighbours.  The load warning is below the critical load when both configured load
  thresholds are numbers; one that is not a number passes validation and is replaced by the built-in
  value, which need not fit the other.  Invalid settings are an error, never a snapshot.
\<close>

theorem resolved_policy_valid:
  assumes "resolveIncidentPolicySnapshot repo (fallbackHeartbeatIntervalOf i) = Inr snap"
    and "m = ps_metrics snap"
  shows "validHeartbeatIncidentPolicy (ps_heartbeat snap) \<and>
    mt_CPUWarningPct m < mt_CPUAlertPct m \<and> mt_CPUAlertPct m < mt_CPUCriticalPct m \<and>
    mt_MemWarningPct m < mt_MemAlertPct m \<and> mt_MemAlertPct m < mt_MemCriticalPct m \<and>
    mt_DiskWarningPct m < mt_DiskAlertPct m \<and> mt_DiskAlertPct m < mt_DiskCriticalPct m \<and>
    mt_InodeWarningPct m < mt_InodeAlertPct m \<and> mt_InodeAlertPct m < mt_InodeCriticalPct m \<and>
    mt_IOWaitWarningPct m \<le> mt_IOWaitAlertPct m \<and> mt_IOWaitAlertPct m < mt_IOWaitCriticalPct m \<and>
    (\<forall>c. (case repo of None \<Rightarrow> Inr (cst_IncidentDefaults Default) | Some r \<Rightarrow> readIncidentDefaults r) = Inr c \<and>
      idf_Load5Warning c \<noteq> NaN \<and> idf_Load5Critical c \<noteq> NaN \<longrightarrow> f_lt (mt_Load5Warning m) (mt_Load5Critical m))"
proof -
  obtain interval d c where s: "snap = snapshotOf interval d" and ok: "incident_defaults_ok d"
    and int: "0 < interval" "interval \<le> maxHeartbeatIncidentInterval"
    and c: "configuredDefaults repo = Inr c" and d: "d = fillThresholdDefaults c"
    using resolved_from_ok [OF assms(1)] by metis
  have hb: "validHeartbeatIncidentPolicy (ps_heartbeat snap)"
    using ok int unfolding s by (intro snapshot_heartbeat_valid) (simp_all add: incident_defaults_ok_def)
  have m: "m = MetricThresholdsFromDefaults d" by (simp add: assms(2) s snapshotOf_def)
  have pos: "1 \<le> v \<and> v \<le> 100" if "v \<in> snd ` set (thresholdFields d)" for v
    using ok that unfolding incident_defaults_ok_def by blast
  have io: "1 \<le> idf_IOWaitWarningPct d" "idf_IOWaitWarningPct d < idf_IOWaitCriticalPct d" "idf_IOWaitCriticalPct d \<le> 100"
    using ok pos by (simp_all add: incident_defaults_ok_def thresholdFields_def)
  hence "idf_IOWaitWarningPct d \<le> midpointInt (idf_IOWaitWarningPct d) (idf_IOWaitCriticalPct d) \<and>
      midpointInt (idf_IOWaitWarningPct d) (idf_IOWaitCriticalPct d) < idf_IOWaitCriticalPct d"
    by (intro midpointInt_between) (simp_all add: maxInt64_def)
  moreover have "\<forall>(n, w, a, c) \<in> set (threeLevelThresholds d). w < a \<and> a < c"
    using ok unfolding incident_defaults_ok_def by blast
  moreover have por: "positiveOr v f = v" if "v \<in> snd ` set (thresholdFields d)" for v f
    using pos [OF that] by (simp add: positiveOr_def)
  have "mt_IOWaitAlertPct m = midpointInt (idf_IOWaitWarningPct d) (idf_IOWaitCriticalPct d)"
    "mt_CPUWarningPct m = idf_CPUWarningPct d" "mt_CPUAlertPct m = idf_CPUAlertPct d" "mt_CPUCriticalPct m =
    idf_CPUCriticalPct d" "mt_MemWarningPct m = idf_MemWarningPct d" "mt_MemAlertPct m = idf_MemAlertPct d"
    "mt_MemCriticalPct m = idf_MemCriticalPct d" "mt_DiskWarningPct m = idf_DiskWarningPct d"
    "mt_DiskAlertPct m = idf_DiskAlertPct d" "mt_DiskCriticalPct m = idf_DiskCriticalPct d"
    "mt_InodeWarningPct m = idf_InodeWarningPct d" "mt_InodeAlertPct m = idf_InodeAlertPct d"
    "mt_InodeCriticalPct m = idf_InodeCriticalPct d" "mt_IOWaitWarningPct m = idf_IOWaitWarningPct d"
    "mt_IOWaitCriticalPct m = idf_IOWaitCriticalPct d"
    by (simp_all add: m MetricThresholdsFromDefaults_def Let_def por thresholdFields_def)
  moreover have "f_lt (mt_Load5Warning m) (mt_Load5Critical m)"
    if "idf_Load5Warning c \<noteq> NaN" "idf_Load5Critical c \<noteq> NaN"
    unfolding m by (rule load_thresholds_ordered [OF ok]) (use that d in \<open>simp_all add: fillThresholdDefaults_values Let_def\<close>)
  ultimately show ?thesis using hb io c by (simp add: threeLevelThresholds_def)
qed

definition sample_repo :: SettingsRepo where
  "sample_repo = \<lparr> repo_GetSettings = Inr Default, repo_Effective = None \<rparr>"

lemma sample_repo_snapshot:
  "resolveIncidentPolicySnapshot (Some sample_repo) (fallbackHeartbeatIntervalOf 0) =
     Inr (snapshotOf (5 * second) (cst_IncidentDefaults Default))"
proof -
  have "ValidateIncidentDefaults (cst_IncidentDefaults Default) = Inr (cst_IncidentDefaults Default)"
    unfolding ValidateIncidentDefaults_def validateIncidentDefaults_iff Default_fill using Default_incident_ok by simp
  moreover have "wrap64 (5 * second) = 5 * second" by (simp add: wrap64_def second_def)
  ultimately show ?thesis
    by (simp add: resolveIncidentPolicySnapshot_def readIncidentDefaults_def sample_repo_def Default_def)
qed

theorem resolved_policy_valid_witness:
  "validHeartbeatIncidentPolicy (ps_heartbeat (snapshotOf (5 * second) (cst_IncidentDefaults Default))) \<and>
   mt_CPUWarningPct (ps_metrics (snapshotOf (5 * second) (cst_IncidentDefaults Default))) = 80"
  using resolved_policy_valid [OF sample_repo_snapshot refl]
  by (simp add: snapshotOf_def MetricThresholdsFromDefaults_def Let_def positiveOr_def Default_def)

lemma tierInterval_valid:
  "IsValidFrequencyTier t \<Longrightarrow> \<exists>i. tierInterval t = Some i \<and> i \<in> {5 * second, minute, 5 * minute, 15 * minute, 6 * hour}"
  by (auto simp: IsValidFrequencyTier_def tierInterval_def)

text \<open>
  (C22) With settings that validation accepted, the sample frequency tier of every monitoring instance,
  after label overrides, is a known one: resolving the resource pressure policy cannot fail, and the
  policy is one the evaluator accepts.
\<close>

theorem accepted_settings_give_resource_policy:
  assumes "Validate s = Inr s'" and "repo_GetSettings repo = Inr s'" and "\<not> IsZero now"
  shows "\<exists>p. resourcePressurePolicy (Some repo) labels now = Inr p \<and> validResourcePressurePolicy p"
proof -
  obtain i where "tierInterval (ResolveHostSampleFrequencyTier (cst_HostSampleFrequencyTier s') labels
      (cst_OverrideRules s')) = Some i" and i: "i \<in> {5 * second, minute, 5 * minute, 15 * minute, 6 * hour}"
    using tierInterval_valid [OF Validate_tier [OF assms(1), of labels]] by blast
  hence "resourcePressurePolicy (Some repo) labels now = Inr \<lparr> rpp_EvaluatedAt = now, rpp_SampleInterval = i \<rparr>"
    using assms(2) by (simp add: resourcePressurePolicy_def)
  moreover have "validResourcePressurePolicy \<lparr> rpp_EvaluatedAt = now, rpp_SampleInterval = i \<rparr>"
    using i assms(3) by (simp add: validResourcePressurePolicy_def)
  ultimately show ?thesis by blast
qed

theorem accepted_settings_give_resource_policy_witness:
  "\<exists>p. resourcePressurePolicy (Some \<lparr> repo_GetSettings = Inr FreshInstallDefaults, repo_Effective = None \<rparr>)
     [(utf8 [0x6838, 0x5FC3])] second = Inr p \<and> validResourcePressurePolicy p"
  by (rule accepted_settings_give_resource_policy [OF FreshInstallDefaults_valid])
    (simp_all add: IsZero_def zeroTime_def second_def)

end
