(* ===== verification/Incident_Series.thy ===== *)
theory Incident_Series
  imports Incident_Policy
begin

text \<open>
  The evaluation of a target over all of its probe series, from \<open>internal/center/incidents/service.go\<close>:
  the observations are split by probe item and executing monitoring instance, each series is evaluated
  on its own without a previous incident, and the results are combined into one evaluation of the
  incident of the target.  The lemmas replace the scan over the series by what it computes.
\<close>

section \<open>Probe series\<close>

definition probeSeriesKey :: "ProbeObservation \<Rightarrow> string" where
  "probeSeriesKey observation = po_ProbeItemID observation @ ''|'' @ po_MonitoringInstanceID observation"

definition groupProbeSeries :: "ProbeObservation list \<Rightarrow> ProbeObservation list list" where
  "groupProbeSeries observations =
     (let grouped = group_by probeSeriesKey (normalizeProbeObservations observations);
          keys = sort_Strings (map fst grouped)
      in map (\<lambda>key. normalizeProbeObservations
           (case map_of grouped key of None \<Rightarrow> [] | Some series \<Rightarrow> series)) keys)"

definition observationSeriesSuppressed :: "ProbeObservation list \<Rightarrow> bool" where
  "observationSeriesSuppressed series =
     (case series of [] \<Rightarrow> False | s0 # _ \<Rightarrow> po_MaintenanceContext s0 \<or> po_IsBackfilled s0)"

section \<open>Probe failure and TLS expiry across series\<close>

text \<open>
  The local variables of the scan.  The two Go maps of the probe failure scan are used as sets and are
  lists without duplicates.
\<close>

record seriesScan =
  sc_activeResults :: "EvaluationResult list"
  sc_recoveryEligibleCount :: int
  sc_recoverySuppressed :: bool
  sc_recoveryBackfilled :: bool
  sc_latestObservedAt :: time
  sc_tcpMonitoringInstances :: "string list"
  sc_httpProbeItems :: "string list"

definition emptyScan :: seriesScan where
  "emptyScan = \<lparr> sc_activeResults = [], sc_recoveryEligibleCount = 0, sc_recoverySuppressed = False,
     sc_recoveryBackfilled = False, sc_latestObservedAt = zeroTime, sc_tcpMonitoringInstances = [],
     sc_httpProbeItems = [] \<rparr>"

definition scanLatest :: "ProbeObservation \<Rightarrow> seriesScan \<Rightarrow> seriesScan" where
  "scanLatest s0 st =
     (if time_After (po_ObservedAt s0) (sc_latestObservedAt st)
      then st\<lparr> sc_latestObservedAt := po_ObservedAt s0 \<rparr> else st)"

definition scanEligible :: "ProbeObservation list \<Rightarrow> ProbeObservation \<Rightarrow> seriesScan \<Rightarrow> seriesScan" where
  "scanEligible series s0 st =
     st\<lparr> sc_recoveryEligibleCount := sc_recoveryEligibleCount st + 1,
         sc_recoveryBackfilled := sc_recoveryBackfilled st \<or> po_IsBackfilled s0,
         sc_recoverySuppressed := sc_recoverySuppressed st \<or> observationSeriesSuppressed series \<rparr>"

definition scanFailing :: "EvaluationResult \<Rightarrow> ProbeObservation \<Rightarrow> seriesScan \<Rightarrow> seriesScan" where
  "scanFailing result s0 st =
     (let st = st\<lparr> sc_activeResults := sc_activeResults st @ [result] \<rparr>;
          st = (if po_ProbeKind s0 = ProbeKindTCP \<and> po_MonitoringInstanceID s0 \<noteq> []
            then st\<lparr> sc_tcpMonitoringInstances := List.insert (po_MonitoringInstanceID s0) (sc_tcpMonitoringInstances st) \<rparr>
            else st)
      in if po_ProbeKind s0 = ProbeKindHTTP \<and> po_ProbeItemID s0 \<noteq> []
         then st\<lparr> sc_httpProbeItems := List.insert (po_ProbeItemID s0) (sc_httpProbeItems st) \<rparr>
         else st)"

text \<open>
  One iteration of each scan.  A series without observations does not occur; it would leave the
  variables as they are.
\<close>

definition probeFailureStep :: "string \<Rightarrow> ProbeObservation list \<Rightarrow> seriesScan \<Rightarrow> seriesScan" where
  "probeFailureStep targetID series st =
     (case series of
        [] \<Rightarrow> st
      | s0 # _ \<Rightarrow>
          let result = EvaluateTargetProbeFailure None targetID series;
              st = scanLatest s0 st;
              st = (if er_Current result \<noteq> None then scanFailing result s0 st else st)
          in if consecutiveResults series ProbeResultSuccess \<ge> 2 then scanEligible series s0 st else st)"

definition tlsExpiryStep :: "string \<Rightarrow> ProbeObservation list \<Rightarrow> seriesScan \<Rightarrow> seriesScan" where
  "tlsExpiryStep targetID series st =
     (case series of
        [] \<Rightarrow> st
      | s0 # _ \<Rightarrow>
          let result = EvaluateTargetTLSExpiry None targetID series;
              st = scanLatest s0 st;
              st = (if er_Current result \<noteq> None
                    then st\<lparr> sc_activeResults := sc_activeResults st @ [result] \<rparr> else st)
          in (case po_TLSExpiryDays s0 of
                Some days \<Rightarrow> if days > 30 then scanEligible series s0 st else st
              | None \<Rightarrow> st))"

text \<open>The severity and the summary of the first result with the highest severity.\<close>

definition resultSeverity :: "EvaluationResult \<Rightarrow> Severity \<times> string" where
  "resultSeverity result =
     (case er_Current result of
        Some c \<Rightarrow> (inc_Severity c, inc_SourceSummary c) | None \<Rightarrow> (SeverityNormal, ''''))"

fun worstResult :: "Severity \<times> string \<Rightarrow> EvaluationResult list \<Rightarrow> Severity \<times> string" where
  "worstResult best [] = best"
| "worstResult best (r # rs) =
     worstResult (if severityRank (fst (resultSeverity r)) > severityRank (fst best)
       then resultSeverity r else best) rs"

definition seriesRecovery ::
    "IncidentRecord option \<Rightarrow> seriesScan \<Rightarrow> nat \<Rightarrow> string \<Rightarrow> EvaluationResult" where
  "seriesRecovery previous st groups summary =
     (if previous \<noteq> None \<and> sc_recoveryEligibleCount st = int groups \<and> groups > 0 then
        let result = recoverIfNeeded previous (sc_latestObservedAt st) summary
              MonitoringEventProvenanceAgentSync (sc_recoveryBackfilled st)
        in if sc_recoverySuppressed st then suppressNotification result else result
      else noop previous)"

definition evaluateTargetProbeFailureAcrossSeries ::
    "IncidentRecord option \<Rightarrow> string \<Rightarrow> ProbeObservation list \<Rightarrow> EvaluationResult" where
  "evaluateTargetProbeFailureAcrossSeries previous targetID observations =
     (let grouped = groupProbeSeries observations;
          st = fold (probeFailureStep targetID) grouped emptyScan
      in case sc_activeResults st of
           [] \<Rightarrow> seriesRecovery previous st (length grouped) (utf8 [0x63A2, 0x9488, 0x5DF2, 0x8FDE, 0x7EED, 0x6210, 0x529F, 0x6062, 0x590D])
         | r # rs \<Rightarrow>
             let (severity, summary) = worstResult (resultSeverity r) rs;
                 (severity, summary) = (if length (sc_tcpMonitoringInstances st) \<ge> 2
                   then (SeverityCritical, (utf8 [0x54, 0x43, 0x50, 0x20, 0x63A2, 0x9488, 0x5728, 0x591A, 0x4E2A, 0x6267, 0x884C, 0x76D1, 0x63A7, 0x5B9E, 0x4F8B, 0x4E0A, 0x6301, 0x7EED, 0x5931, 0x8D25])) else (severity, summary));
                 (severity, summary) = (if length (sc_httpProbeItems st) \<ge> 2
                   then (SeverityCritical, (utf8 [0x48, 0x54, 0x54, 0x50, 0x20, 0x591A, 0x4E2A, 0x20, 0x50, 0x72, 0x6F, 0x62, 0x65, 0x49, 0x74, 0x65, 0x6D, 0x20, 0x540C, 0x65F6, 0x5F02, 0x5E38])) else (severity, summary))
             in evaluateTransition previous ObjectTypeTarget targetID IncidentTargetProbeFailure severity
                  (sc_latestObservedAt st) summary MonitoringEventProvenanceAgentSync)"

definition evaluateTargetTLSExpiryAcrossSeries ::
    "IncidentRecord option \<Rightarrow> string \<Rightarrow> ProbeObservation list \<Rightarrow> EvaluationResult" where
  "evaluateTargetTLSExpiryAcrossSeries previous targetID observations =
     (let tlsObservations = filter (\<lambda>observation. po_ProbeKind observation = ProbeKindTLS) observations in
      if tlsObservations = [] then noop previous
      else
        let grouped = groupProbeSeries tlsObservations;
            st = fold (tlsExpiryStep targetID) grouped emptyScan
        in case sc_activeResults st of
             [] \<Rightarrow> seriesRecovery previous st (length grouped) (utf8 [0x54, 0x4C, 0x53, 0x20, 0x5230, 0x671F, 0x98CE, 0x9669, 0x89E3, 0x9664])
           | r # rs \<Rightarrow>
               let (severity, summary) = worstResult (resultSeverity r) rs
               in evaluateTransition previous ObjectTypeTarget targetID IncidentTargetTLSExpiry severity
                    (sc_latestObservedAt st) summary MonitoringEventProvenanceAgentSync)"

section \<open>The series of an observation list\<close>

definition series_of :: "ProbeObservation list \<Rightarrow> string \<Rightarrow> ProbeObservation list" where
  "series_of observations k =
     filter (\<lambda>x. probeSeriesKey x = k) (normalizeProbeObservations observations)"

lemma normalize_series: "normalizeProbeObservations (series_of obs k) = series_of obs k"
proof -
  have "in_order (newer po_ObservedAt po_IsBackfilled po_ReceivedAt) (normalizeProbeObservations obs)"
    unfolding normalizeProbeObservations_def by (rule probe_order.in_order_SliceStable)
  hence "in_order (newer po_ObservedAt po_IsBackfilled po_ReceivedAt) (series_of obs k)"
    unfolding series_of_def in_order_def by (rule sorted_wrt_filter)
  thus ?thesis
    unfolding normalizeProbeObservations_def by (rule probe_order.SliceStable_in_order_id)
qed

lemma set_normalizeProbe [simp]: "set (normalizeProbeObservations obs) = set obs"
  by (simp add: normalizeProbeObservations_def)

lemma normalizeProbeObservations_Nil: "normalizeProbeObservations [] = []"
  by (simp add: normalizeProbeObservations_def)

lemma groupProbeSeries_eq:
  "groupProbeSeries obs =
     map (series_of obs) (sort_Strings (map fst (group_by probeSeriesKey (normalizeProbeObservations obs))))"
proof -
  let ?g = "group_by probeSeriesKey (normalizeProbeObservations obs)"
  have "normalizeProbeObservations (case map_of ?g k of None \<Rightarrow> [] | Some s \<Rightarrow> s) = series_of obs k"
    if "k \<in> set (map fst ?g)" for k
    using normalize_series [of obs k] normalizeProbeObservations_Nil
    by (simp add: map_of_group_by series_of_def split: if_splits)
  thus ?thesis unfolding groupProbeSeries_def Let_def by (intro map_cong) simp_all
qed

lemma set_groupProbeSeries:
  "set (groupProbeSeries obs) = (\<lambda>x. series_of obs (probeSeriesKey x)) ` set obs"
proof -
  have "fst ` set (group_by probeSeriesKey (normalizeProbeObservations obs)) = probeSeriesKey ` set obs"
    using keys_group_by [of probeSeriesKey "normalizeProbeObservations obs"] by simp
  thus ?thesis by (simp add: groupProbeSeries_eq image_image)
qed

lemma series_nonempty: "s \<in> set (groupProbeSeries obs) \<Longrightarrow> s \<noteq> []"
  by (auto simp: set_groupProbeSeries series_of_def filter_empty_conv)

lemma series_normal: "s \<in> set (groupProbeSeries obs) \<Longrightarrow> normalizeProbeObservations s = s"
  by (auto simp: set_groupProbeSeries normalize_series)

lemma series_subset: "s \<in> set (groupProbeSeries obs) \<Longrightarrow> set s \<subseteq> set obs"
  by (auto simp: set_groupProbeSeries series_of_def)

lemma groupProbeSeries_Nil_iff: "groupProbeSeries obs = [] \<longleftrightarrow> obs = []"
proof -
  have "groupProbeSeries obs = [] \<longleftrightarrow> set (groupProbeSeries obs) = {}" by simp
  thus ?thesis by (simp add: set_groupProbeSeries)
qed

section \<open>What the scans compute\<close>

abbreviation latest_of :: "time \<Rightarrow> ProbeObservation list list \<Rightarrow> time" where
  "latest_of t gs \<equiv> Max (insert t ((\<lambda>s. po_ObservedAt (hd s)) ` set gs))"

lemma scanLatest_simps [simp]:
  "sc_latestObservedAt (scanLatest s0 st) = max (sc_latestObservedAt st) (po_ObservedAt s0)"
  "sc_activeResults (scanLatest s0 st) = sc_activeResults st"
  "sc_recoveryEligibleCount (scanLatest s0 st) = sc_recoveryEligibleCount st"
  "sc_tcpMonitoringInstances (scanLatest s0 st) = sc_tcpMonitoringInstances st"
  "sc_httpProbeItems (scanLatest s0 st) = sc_httpProbeItems st"
  by (simp_all add: scanLatest_def time_After_def)

lemma scanEligible_simps [simp]:
  "sc_latestObservedAt (scanEligible s s0 st) = sc_latestObservedAt st"
  "sc_activeResults (scanEligible s s0 st) = sc_activeResults st"
  "sc_recoveryEligibleCount (scanEligible s s0 st) = sc_recoveryEligibleCount st + 1"
  "sc_tcpMonitoringInstances (scanEligible s s0 st) = sc_tcpMonitoringInstances st"
  "sc_httpProbeItems (scanEligible s s0 st) = sc_httpProbeItems st"
  by (simp_all add: scanEligible_def)

lemma scanFailing_simps [simp]:
  "sc_latestObservedAt (scanFailing r s0 st) = sc_latestObservedAt st"
  "sc_activeResults (scanFailing r s0 st) = sc_activeResults st @ [r]"
  "sc_recoveryEligibleCount (scanFailing r s0 st) = sc_recoveryEligibleCount st"
  "sc_tcpMonitoringInstances (scanFailing r s0 st) =
     (if po_ProbeKind s0 = ProbeKindTCP \<and> po_MonitoringInstanceID s0 \<noteq> []
      then List.insert (po_MonitoringInstanceID s0) (sc_tcpMonitoringInstances st)
      else sc_tcpMonitoringInstances st)"
  "sc_httpProbeItems (scanFailing r s0 st) =
     (if po_ProbeKind s0 = ProbeKindHTTP \<and> po_ProbeItemID s0 \<noteq> []
      then List.insert (po_ProbeItemID s0) (sc_httpProbeItems st) else sc_httpProbeItems st)"
  by (auto simp: scanFailing_def Let_def)

text \<open>The sets of instances and items whose series fail.\<close>

definition failing_instances :: "(ProbeObservation list \<Rightarrow> bool) \<Rightarrow> ProbeObservation list list \<Rightarrow> string set" where
  "failing_instances failing gs = {po_MonitoringInstanceID (hd s) | s. s \<in> set gs \<and> failing s \<and>
     po_ProbeKind (hd s) = ProbeKindTCP \<and> po_MonitoringInstanceID (hd s) \<noteq> []}"

definition failing_items :: "(ProbeObservation list \<Rightarrow> bool) \<Rightarrow> ProbeObservation list list \<Rightarrow> string set" where
  "failing_items failing gs = {po_ProbeItemID (hd s) | s. s \<in> set gs \<and> failing s \<and>
     po_ProbeKind (hd s) = ProbeKindHTTP \<and> po_ProbeItemID (hd s) \<noteq> []}"

lemma failing_instances_Nil [simp]: "failing_instances f [] = {}"
  by (simp add: failing_instances_def)

lemma failing_instances_Cons: "failing_instances f (s # gs) =
    (if f s \<and> po_ProbeKind (hd s) = ProbeKindTCP \<and> po_MonitoringInstanceID (hd s) \<noteq> []
     then insert (po_MonitoringInstanceID (hd s)) (failing_instances f gs) else failing_instances f gs)"
  by (auto simp: failing_instances_def)

lemma failing_items_Nil [simp]: "failing_items f [] = {}"
  by (simp add: failing_items_def)

lemma failing_items_Cons: "failing_items f (s # gs) =
    (if f s \<and> po_ProbeKind (hd s) = ProbeKindHTTP \<and> po_ProbeItemID (hd s) \<noteq> []
     then insert (po_ProbeItemID (hd s)) (failing_items f gs) else failing_items f gs)"
  by (auto simp: failing_items_def)

lemma latest_of_Cons: "latest_of t (s # gs) = latest_of (max t (po_ObservedAt (hd s))) gs"
proof (cases "gs = []")
  case False
  thus ?thesis by (simp add: Max_insert ac_simps)
qed simp

definition probe_active :: "string \<Rightarrow> ProbeObservation list \<Rightarrow> bool" where
  "probe_active tid s \<longleftrightarrow> er_Current (EvaluateTargetProbeFailure None tid s) \<noteq> None"

lemma probeFailureStep_fields:
  assumes "s \<noteq> []"
  shows "sc_activeResults (probeFailureStep tid s st) = sc_activeResults st @
      (if probe_active tid s then [EvaluateTargetProbeFailure None tid s] else [])"
    and "sc_recoveryEligibleCount (probeFailureStep tid s st) = sc_recoveryEligibleCount st +
      (if consecutiveResults s ProbeResultSuccess \<ge> 2 then 1 else 0)"
    and "sc_latestObservedAt (probeFailureStep tid s st) = max (sc_latestObservedAt st) (po_ObservedAt (hd s))"
    and "set (sc_tcpMonitoringInstances (probeFailureStep tid s st)) = set (sc_tcpMonitoringInstances st) \<union>
      (if probe_active tid s \<and> po_ProbeKind (hd s) = ProbeKindTCP \<and> po_MonitoringInstanceID (hd s) \<noteq> []
       then {po_MonitoringInstanceID (hd s)} else {})"
    and "set (sc_httpProbeItems (probeFailureStep tid s st)) = set (sc_httpProbeItems st) \<union>
      (if probe_active tid s \<and> po_ProbeKind (hd s) = ProbeKindHTTP \<and> po_ProbeItemID (hd s) \<noteq> []
       then {po_ProbeItemID (hd s)} else {})"
    and "distinct (sc_tcpMonitoringInstances st) \<Longrightarrow> distinct (sc_tcpMonitoringInstances (probeFailureStep tid s st))"
    and "distinct (sc_httpProbeItems st) \<Longrightarrow> distinct (sc_httpProbeItems (probeFailureStep tid s st))"
  using assms
  by (cases s; auto simp: probeFailureStep_def Let_def probe_active_def)+

lemma tlsExpiryStep_fields:
  assumes "s \<noteq> []"
  shows "sc_activeResults (tlsExpiryStep tid s st) = sc_activeResults st @
      filter (\<lambda>r. er_Current r \<noteq> None) [EvaluateTargetTLSExpiry None tid s]"
    and "sc_recoveryEligibleCount (tlsExpiryStep tid s st) = sc_recoveryEligibleCount st +
      (if \<exists>d. po_TLSExpiryDays (hd s) = Some d \<and> d > 30 then 1 else 0)"
    and "sc_latestObservedAt (tlsExpiryStep tid s st) = max (sc_latestObservedAt st) (po_ObservedAt (hd s))"
  using assms by (cases s; simp add: tlsExpiryStep_def Let_def split: option.split)+

lemma probe_scan:
  assumes "list_all (\<lambda>s. s \<noteq> []) gs"
  shows "sc_activeResults (fold (probeFailureStep tid) gs st) = sc_activeResults st @
      map (EvaluateTargetProbeFailure None tid) (filter (probe_active tid) gs)"
    and "sc_recoveryEligibleCount (fold (probeFailureStep tid) gs st) = sc_recoveryEligibleCount st +
      int (length (filter (\<lambda>s. consecutiveResults s ProbeResultSuccess \<ge> 2) gs))"
    and "sc_latestObservedAt (fold (probeFailureStep tid) gs st) = latest_of (sc_latestObservedAt st) gs"
    and "set (sc_tcpMonitoringInstances (fold (probeFailureStep tid) gs st)) = set (sc_tcpMonitoringInstances st) \<union>
      failing_instances (probe_active tid) gs"
    and "set (sc_httpProbeItems (fold (probeFailureStep tid) gs st)) = set (sc_httpProbeItems st) \<union>
      failing_items (probe_active tid) gs"
    and "distinct (sc_tcpMonitoringInstances st) \<Longrightarrow>
      distinct (sc_tcpMonitoringInstances (fold (probeFailureStep tid) gs st))"
    and "distinct (sc_httpProbeItems st) \<Longrightarrow> distinct (sc_httpProbeItems (fold (probeFailureStep tid) gs st))"
proof -
  note step = probeFailureStep_fields failing_instances_Cons failing_items_Cons
  show "sc_activeResults (fold (probeFailureStep tid) gs st) = sc_activeResults st @
      map (EvaluateTargetProbeFailure None tid) (filter (probe_active tid) gs)"
    using assms by (induction gs arbitrary: st) (simp_all add: step)
  show "sc_recoveryEligibleCount (fold (probeFailureStep tid) gs st) = sc_recoveryEligibleCount st +
      int (length (filter (\<lambda>s. consecutiveResults s ProbeResultSuccess \<ge> 2) gs))"
    using assms by (induction gs arbitrary: st) (simp_all add: step)
  show "sc_latestObservedAt (fold (probeFailureStep tid) gs st) = latest_of (sc_latestObservedAt st) gs"
    using assms
  proof (induction gs arbitrary: st)
    case (Cons s gs)
    thus ?case unfolding latest_of_Cons by (simp add: step)
  qed simp
  show "set (sc_tcpMonitoringInstances (fold (probeFailureStep tid) gs st)) = set (sc_tcpMonitoringInstances st) \<union>
      failing_instances (probe_active tid) gs"
    using assms by (induction gs arbitrary: st) (simp_all add: step)
  show "set (sc_httpProbeItems (fold (probeFailureStep tid) gs st)) = set (sc_httpProbeItems st) \<union>
      failing_items (probe_active tid) gs"
    using assms by (induction gs arbitrary: st) (simp_all add: step)
  show "distinct (sc_tcpMonitoringInstances (fold (probeFailureStep tid) gs st))"
    if "distinct (sc_tcpMonitoringInstances st)"
    using assms that by (induction gs arbitrary: st) (simp_all add: step)
  show "distinct (sc_httpProbeItems (fold (probeFailureStep tid) gs st))"
    if "distinct (sc_httpProbeItems st)"
    using assms that by (induction gs arbitrary: st) (simp_all add: step)
qed

lemma tls_scan:
  assumes "list_all (\<lambda>s. s \<noteq> []) gs"
  shows "sc_activeResults (fold (tlsExpiryStep tid) gs st) = sc_activeResults st @
      filter (\<lambda>r. er_Current r \<noteq> None) (map (EvaluateTargetTLSExpiry None tid) gs)"
    and "sc_recoveryEligibleCount (fold (tlsExpiryStep tid) gs st) = sc_recoveryEligibleCount st +
      int (length (filter (\<lambda>s. \<exists>d. po_TLSExpiryDays (hd s) = Some d \<and> d > 30) gs))"
  using assms by (induction gs arbitrary: st) (simp_all add: tlsExpiryStep_fields)

section \<open>Results of one series\<close>

abbreviation probe_failing :: "ProbeObservation list \<Rightarrow> bool" where
  "probe_failing s \<equiv> snd (probeFailureSeverity (leadingUnsuppressedFailureObservations s))"

abbreviation probe_severity :: "ProbeObservation list \<Rightarrow> Severity" where
  "probe_severity s \<equiv> fst (probeFailureSeverity (leadingUnsuppressedFailureObservations s))"

lemma failing_not_suppressed:
  "probe_failing s \<Longrightarrow> \<exists>s0 rest. s = s0 # rest \<and> \<not> po_suppressed s0 \<and> po_ResultKind s0 = ProbeResultFailure"
  by (cases s) (auto simp: leadingUnsuppressedFailureObservations_def probeFailureSeverity_def split: if_splits)

lemma resultSeverity_transition:
  "fst (resultSeverity (evaluateTransition prev ot oid cls sev when summary prov)) = sev"
  by (simp add: resultSeverity_def evaluateTransition_def Let_def split: option.split)

lemma probe_active_iff:
  assumes "normalizeProbeObservations s = s"
  shows "probe_active tid s = probe_failing s"
    and "probe_failing s \<Longrightarrow> fst (resultSeverity (EvaluateTargetProbeFailure None tid s)) = probe_severity s"
proof -
  show "probe_active tid s = probe_failing s"
    using failing_not_suppressed [of s] evaluateTransition_current
    unfolding probe_active_def EvaluateTargetProbeFailure_def assms
    by (fastforce simp: Let_def noop_def skip_def probeFailureSeverity_def
        leadingUnsuppressedFailureObservations_def split: list.splits prod.splits if_splits)
  assume f: "probe_failing s"
  then obtain s0 rest where s: "s = s0 # rest" "\<not> po_suppressed s0" using failing_not_suppressed by blast
  obtain sev where pf: "probeFailureSeverity (leadingUnsuppressedFailureObservations s) = (sev, True)"
    using f by (metis prod.collapse)
  hence "\<exists>summary. EvaluateTargetProbeFailure None tid s = evaluateTransition None ObjectTypeTarget tid
      IncidentTargetProbeFailure sev (po_ObservedAt s0) summary MonitoringEventProvenanceAgentSync"
    using s(2) assms unfolding s(1) by (simp add: EvaluateTargetProbeFailure_def Let_def) blast
  thus "fst (resultSeverity (EvaluateTargetProbeFailure None tid s)) = probe_severity s"
    by (auto simp: resultSeverity_transition pf)
qed

lemma eligible_not_failing:
  assumes "consecutiveResults s ProbeResultSuccess \<ge> 2"
  shows "\<not> probe_failing s"
proof
  assume "probe_failing s"
  then obtain s0 rest where "s = s0 # rest" "po_ResultKind s0 = ProbeResultFailure"
    using failing_not_suppressed by blast
  thus False using assms by (simp add: consecutiveResults_def ProbeResultFailure_def ProbeResultSuccess_def)
qed

lemma worstResult_spec:
  "severityRank (fst best) \<le> severityRank (fst (worstResult best rs)) \<and>
   (\<forall>r \<in> set rs. severityRank (fst (resultSeverity r)) \<le> severityRank (fst (worstResult best rs))) \<and>
   worstResult best rs \<in> insert best (resultSeverity ` set rs)"
proof (induction rs arbitrary: best)
  case (Cons r rs)
  define b where "b = (if severityRank (fst (resultSeverity r)) > severityRank (fst best)
    then resultSeverity r else best)"
  have "severityRank (fst best) \<le> severityRank (fst b)" "severityRank (fst (resultSeverity r)) \<le> severityRank (fst b)"
    "b \<in> {best, resultSeverity r}"
    by (auto simp: b_def)
  moreover have "worstResult best (r # rs) = worstResult b rs" by (simp add: b_def)
  ultimately show ?case using Cons.IH [of b] by (auto intro: order_trans)
qed simp

lemma all_count_iff:
  "length (filter P xs) = length xs \<longleftrightarrow> (\<forall>x \<in> set xs. P x)"
  by (metis filter_id_conv length_filter_less order_less_irrefl)

section \<open>The evaluators across series keep the contract\<close>

lemma seriesRecovery_ok:
  "previous_ok ObjectTypeTarget oid cls prev \<Longrightarrow> result_ok ObjectTypeTarget oid cls prev (seriesRecovery prev st n summary)"
  by (auto simp: seriesRecovery_def Let_def intro!: transition_blocks)

lemma seriesRecovery_transition:
  "er_Transition (seriesRecovery (Some p) st n summary) = TransitionRecovered \<longleftrightarrow>
     sc_recoveryEligibleCount st = int n \<and> n > 0"
  by (simp add: seriesRecovery_def Let_def recoverIfNeeded_transition noop_def)

lemma evaluateTransition_not_recovered:
  "er_Transition (evaluateTransition prev ot oid cls sev when summary prov) \<noteq> TransitionRecovered"
  by (simp add: evaluateTransition_transition split: option.split)

lemma groups_list_all: "list_all (\<lambda>s. s \<noteq> []) (groupProbeSeries obs)"
  by (auto simp: list_all_iff series_nonempty)

lemma probe_active_results:
  assumes "sc_activeResults (fold (probeFailureStep tid) (groupProbeSeries obs) emptyScan) = rs"
  shows "rs = map (EvaluateTargetProbeFailure None tid) (filter probe_failing (groupProbeSeries obs))"
proof -
  have "filter (probe_active tid) (groupProbeSeries obs) = filter probe_failing (groupProbeSeries obs)"
    by (intro filter_cong) (simp_all add: probe_active_iff series_normal)
  thus ?thesis using assms probe_scan(1) [OF groups_list_all, of tid obs emptyScan]
    by (simp add: emptyScan_def)
qed

lemma probe_worst:
  assumes "map (EvaluateTargetProbeFailure None tid) (filter probe_failing (groupProbeSeries obs)) = r # rs"
  obtains s where "s \<in> set (groupProbeSeries obs)" and "probe_failing s"
    and "fst (worstResult (resultSeverity r) rs) = probe_severity s"
    and "\<forall>s' \<in> set (groupProbeSeries obs). probe_failing s' \<longrightarrow> severityRank (probe_severity s') \<le> severityRank (probe_severity s)"
proof -
  define F where "F = filter probe_failing (groupProbeSeries obs)"
  have sev: "fst (resultSeverity (EvaluateTargetProbeFailure None tid s)) = probe_severity s" if "s \<in> set F" for s
    using that by (auto simp: F_def intro!: probe_active_iff(2) series_normal)
  have rs: "set (r # rs) = EvaluateTargetProbeFailure None tid ` set F"
    using assms unfolding F_def by (metis set_map)
  have "worstResult (resultSeverity r) rs \<in> resultSeverity ` set (r # rs)"
    using worstResult_spec [of "resultSeverity r" rs] by auto
  then obtain s where s: "s \<in> set F" "fst (worstResult (resultSeverity r) rs) = probe_severity s"
    unfolding rs using sev by auto
  have "\<forall>x \<in> set (r # rs). severityRank (fst (resultSeverity x)) \<le> severityRank (fst (worstResult (resultSeverity r) rs))"
    using worstResult_spec [of "resultSeverity r" rs] by auto
  hence "\<forall>s' \<in> set F. severityRank (probe_severity s') \<le> severityRank (probe_severity s)"
    unfolding rs using sev s(2) by auto
  thus thesis using that [of s] s by (auto simp: F_def)
qed

lemma probe_across_cases:
  obtains (quiet) "\<forall>s \<in> set (groupProbeSeries obs). \<not> probe_failing s"
    and "evaluateTargetProbeFailureAcrossSeries prev tid obs =
      seriesRecovery prev (fold (probeFailureStep tid) (groupProbeSeries obs) emptyScan)
        (length (groupProbeSeries obs)) (utf8 [0x63A2, 0x9488, 0x5DF2, 0x8FDE, 0x7EED, 0x6210, 0x529F, 0x6062, 0x590D])"
  | (failing) s severity summary where "s \<in> set (groupProbeSeries obs)" and "probe_failing s"
    and "\<forall>s' \<in> set (groupProbeSeries obs). probe_failing s' \<longrightarrow> severityRank (probe_severity s') \<le> severityRank (probe_severity s)"
    and "severity = (if 2 \<le> card (failing_instances probe_failing (groupProbeSeries obs)) \<or>
           2 \<le> card (failing_items probe_failing (groupProbeSeries obs)) then SeverityCritical else probe_severity s)"
    and "evaluateTargetProbeFailureAcrossSeries prev tid obs =
      evaluateTransition prev ObjectTypeTarget tid IncidentTargetProbeFailure severity
        (latest_of zeroTime (groupProbeSeries obs)) summary MonitoringEventProvenanceAgentSync"
proof -
  define gs where "gs = groupProbeSeries obs"
  define st where "st = fold (probeFailureStep tid) gs emptyScan"
  have ne: "list_all (\<lambda>s. s \<noteq> []) gs" unfolding gs_def by (rule groups_list_all)
  have act: "failing_instances (probe_active tid) gs = failing_instances probe_failing gs"
    "failing_items (probe_active tid) gs = failing_items probe_failing gs"
    unfolding failing_instances_def failing_items_def gs_def
    by (auto simp: probe_active_iff(1) [OF series_normal])
  have sets: "length (sc_tcpMonitoringInstances st) = card (failing_instances probe_failing gs)"
    "length (sc_httpProbeItems st) = card (failing_items probe_failing gs)"
    using probe_scan(4-7) [OF ne, where tid = tid and st = emptyScan] unfolding st_def [symmetric]
    by (simp_all add: emptyScan_def act flip: distinct_card)
  have latest: "sc_latestObservedAt st = latest_of zeroTime gs"
    using probe_scan(3) [OF ne, where tid = tid and st = emptyScan] unfolding st_def by (simp add: emptyScan_def)
  have ar: "sc_activeResults st = map (EvaluateTargetProbeFailure None tid) (filter probe_failing gs)"
    using probe_active_results [OF refl] unfolding st_def gs_def .
  note eq = evaluateTargetProbeFailureAcrossSeries_def [of prev tid obs, folded gs_def, unfolded Let_def, folded st_def]
  show thesis
  proof (cases "sc_activeResults st")
    case Nil
    hence "\<forall>s \<in> set gs. \<not> probe_failing s" using ar by (simp add: filter_empty_conv)
    moreover have "evaluateTargetProbeFailureAcrossSeries prev tid obs =
        seriesRecovery prev st (length gs) (utf8 [0x63A2, 0x9488, 0x5DF2, 0x8FDE, 0x7EED, 0x6210, 0x529F, 0x6062, 0x590D])"
      unfolding eq Nil by simp
    ultimately show thesis using quiet unfolding gs_def st_def by blast
  next
    case (Cons r rs)
    obtain s where s: "s \<in> set gs" "probe_failing s" "fst (worstResult (resultSeverity r) rs) = probe_severity s"
      "\<forall>s' \<in> set gs. probe_failing s' \<longrightarrow> severityRank (probe_severity s') \<le> severityRank (probe_severity s)"
      using probe_worst [of tid obs r rs] ar Cons unfolding gs_def by auto
    define severity where "severity = (if 2 \<le> card (failing_instances probe_failing gs) \<or>
      2 \<le> card (failing_items probe_failing gs) then SeverityCritical else probe_severity s)"
    have "\<exists>summary. evaluateTargetProbeFailureAcrossSeries prev tid obs =
        evaluateTransition prev ObjectTypeTarget tid IncidentTargetProbeFailure severity
          (latest_of zeroTime gs) summary MonitoringEventProvenanceAgentSync"
      unfolding eq Cons list.case sets latest severity_def using s(3)
      by (cases "worstResult (resultSeverity r) rs") (auto split: if_splits)
    thus thesis using failing s severity_def unfolding gs_def by blast
  qed
qed

interpretation probe_series: incident_evaluator
  ObjectTypeTarget oid IncidentTargetProbeFailure
  "\<lambda>observations prev. evaluateTargetProbeFailureAcrossSeries prev oid observations"
  for oid
proof unfold_locales
  fix prev obs
  assume p: "previous_ok ObjectTypeTarget oid IncidentTargetProbeFailure prev"
  show "result_ok ObjectTypeTarget oid IncidentTargetProbeFailure prev
    (evaluateTargetProbeFailureAcrossSeries prev oid obs)"
  proof (cases rule: probe_across_cases [of obs prev oid])
    case quiet
    thus ?thesis using seriesRecovery_ok [OF p] by simp
  next
    case (failing s severity summary)
    have "active_severity (probe_severity s)"
      using failing(2) probeFailureSeverity_active by (metis prod.collapse)
    thus ?thesis unfolding failing(5) using p failing(4) by (intro evaluateTransition_ok) auto
  qed
qed simp

abbreviation tls_safe :: "ProbeObservation list \<Rightarrow> bool" where
  "tls_safe s \<equiv> \<exists>days. po_TLSExpiryDays (hd s) = Some days \<and> days > 30"

abbreviation tls_observations :: "ProbeObservation list \<Rightarrow> ProbeObservation list" where
  "tls_observations obs \<equiv> filter (\<lambda>x. po_ProbeKind x = ProbeKindTLS) obs"

lemma tls_result_active:
  "er_Current (EvaluateTargetTLSExpiry None tid s) = Some c \<Longrightarrow> active_severity (inc_Severity c)"
  using tls_expiry.contract [of tid None s]
  by (auto simp: previous_ok_def result_ok_def incident_ok_def split: EvaluationTransition.splits option.splits)

lemma tls_safe_not_active:
  assumes "normalizeProbeObservations s = s" and "s \<noteq> []" and "tls_safe s"
  shows "er_Current (EvaluateTargetTLSExpiry None tid s) = None"
  using assms
  by (cases s) (auto simp: EvaluateTargetTLSExpiry_def tlsExpirySeverity_def recoverIfNeeded_def Let_def)

lemma tls_across_cases:
  obtains (none) "tls_observations obs = []" and "evaluateTargetTLSExpiryAcrossSeries prev tid obs = noop prev"
  | (quiet) "tls_observations obs \<noteq> []"
    and "evaluateTargetTLSExpiryAcrossSeries prev tid obs =
      seriesRecovery prev (fold (tlsExpiryStep tid) (groupProbeSeries (tls_observations obs)) emptyScan)
        (length (groupProbeSeries (tls_observations obs))) (utf8 [0x54, 0x4C, 0x53, 0x20, 0x5230, 0x671F, 0x98CE, 0x9669, 0x89E3, 0x9664])"
  | (expiring) s severity "when" summary where "tls_observations obs \<noteq> []"
    and "s \<in> set (groupProbeSeries (tls_observations obs))"
    and "er_Current (EvaluateTargetTLSExpiry None tid s) \<noteq> None" and "active_severity severity"
    and "evaluateTargetTLSExpiryAcrossSeries prev tid obs =
      evaluateTransition prev ObjectTypeTarget tid IncidentTargetTLSExpiry severity when summary
        MonitoringEventProvenanceAgentSync"
proof (cases "tls_observations obs = []")
  case True
  thus thesis using none by (simp add: evaluateTargetTLSExpiryAcrossSeries_def)
next
  case False
  define gs where "gs = groupProbeSeries (tls_observations obs)"
  define st where "st = fold (tlsExpiryStep tid) gs emptyScan"
  have ar: "sc_activeResults st = filter (\<lambda>r. er_Current r \<noteq> None) (map (EvaluateTargetTLSExpiry None tid) gs)"
    using tls_scan(1) [OF groups_list_all, of tid "tls_observations obs" emptyScan]
    unfolding st_def gs_def by (simp add: emptyScan_def)
  note eq = evaluateTargetTLSExpiryAcrossSeries_def [of prev tid obs, unfolded Let_def, folded gs_def, folded st_def]
  show thesis
  proof (cases "sc_activeResults st")
    case Nil
    hence "evaluateTargetTLSExpiryAcrossSeries prev tid obs = seriesRecovery prev st (length gs) (utf8 [0x54, 0x4C, 0x53, 0x20, 0x5230, 0x671F, 0x98CE, 0x9669, 0x89E3, 0x9664])"
      unfolding eq using False by simp
    thus thesis using quiet False unfolding gs_def st_def by blast
  next
    case (Cons r rs)
    obtain severity summary where w: "worstResult (resultSeverity r) rs = (severity, summary)" by fastforce
    hence "(severity, summary) \<in> resultSeverity ` set (sc_activeResults st)"
      using worstResult_spec [of "resultSeverity r" rs] Cons by auto
    then obtain s where s: "s \<in> set gs" "er_Current (EvaluateTargetTLSExpiry None tid s) \<noteq> None"
      "resultSeverity (EvaluateTargetTLSExpiry None tid s) = (severity, summary)"
      unfolding ar by auto
    hence "active_severity severity" using tls_result_active [of tid s] by (auto simp: resultSeverity_def)
    moreover have "evaluateTargetTLSExpiryAcrossSeries prev tid obs =
      evaluateTransition prev ObjectTypeTarget tid IncidentTargetTLSExpiry severity (sc_latestObservedAt st) summary
        MonitoringEventProvenanceAgentSync"
      unfolding eq Cons using False w by simp
    ultimately show thesis using expiring [OF False] s(1,2) unfolding gs_def by blast
  qed
qed

interpretation tls_series: incident_evaluator
  ObjectTypeTarget oid IncidentTargetTLSExpiry
  "\<lambda>observations prev. evaluateTargetTLSExpiryAcrossSeries prev oid observations"
  for oid
proof unfold_locales
  fix prev obs
  assume p: "previous_ok ObjectTypeTarget oid IncidentTargetTLSExpiry prev"
  show "result_ok ObjectTypeTarget oid IncidentTargetTLSExpiry prev
    (evaluateTargetTLSExpiryAcrossSeries prev oid obs)"
  proof (cases rule: tls_across_cases [of obs prev oid])
    case none
    thus ?thesis using noop_ok [OF p] by simp
  next
    case quiet
    thus ?thesis using seriesRecovery_ok [OF p] by simp
  next
    case (expiring s severity "when" summary)
    show ?thesis unfolding expiring(5) using p expiring(4) by (intro evaluateTransition_ok) auto
  qed
qed simp

lemma newest_first:
  assumes "s \<in> set (groupProbeSeries obs)" and "x \<in> set s"
  shows "po_ObservedAt x \<le> po_ObservedAt (hd s)"
proof -
  have "in_order (newer po_ObservedAt po_IsBackfilled po_ReceivedAt) s"
    using probe_order.in_order_SliceStable [of s] series_normal [OF assms(1)]
    by (simp add: normalizeProbeObservations_def)
  thus ?thesis using assms(2)
    by (cases s) (auto simp: in_order_def newer_def time_After_def split: if_splits)
qed

lemma latest_of_series:
  "latest_of zeroTime (groupProbeSeries obs) = Max (insert zeroTime (po_ObservedAt ` set obs))"
proof (rule antisym)
  have "po_ObservedAt (hd s) \<in> po_ObservedAt ` set obs" if "s \<in> set (groupProbeSeries obs)" for s
    using series_subset [OF that] series_nonempty [OF that] by (meson hd_in_set image_eqI subsetD)
  thus "latest_of zeroTime (groupProbeSeries obs) \<le> Max (insert zeroTime (po_ObservedAt ` set obs))"
    by (intro Max_mono) auto
  have "\<exists>s \<in> set (groupProbeSeries obs). po_ObservedAt x \<le> po_ObservedAt (hd s)" if "x \<in> set obs" for x
    using that newest_first [of "series_of obs (probeSeriesKey x)" obs x]
    by (auto simp: set_groupProbeSeries series_of_def)
  thus "Max (insert zeroTime (po_ObservedAt ` set obs)) \<le> latest_of zeroTime (groupProbeSeries obs)"
    by (intro Max.boundedI) (auto intro: Max_ge_iff [THEN iffD2])
qed

section \<open>Recovery and severity across series\<close>

text \<open>
  (C23) An open probe failure incident of a target recovers exactly when there are observations and in
  every series, that is for every probe item and executing instance that reported, the two newest
  results are successes.  One series that still fails, or that has a single success, keeps it open.
\<close>

theorem probe_series_recovers_iff:
  "er_Transition (evaluateTargetProbeFailureAcrossSeries (Some p) tid obs) = TransitionRecovered \<longleftrightarrow>
     obs \<noteq> [] \<and>
     (\<forall>x \<in> set obs. consecutiveResults (series_of obs (probeSeriesKey x)) ProbeResultSuccess \<ge> 2)"
proof -
  define ok where "ok = (\<lambda>s. consecutiveResults s ProbeResultSuccess \<ge> 2)"
  have all: "(\<forall>x \<in> set obs. ok (series_of obs (probeSeriesKey x))) \<longleftrightarrow> (\<forall>s \<in> set (groupProbeSeries obs). ok s)"
    by (simp add: set_groupProbeSeries)
  show ?thesis
  proof (cases rule: probe_across_cases [of obs "Some p" tid])
    case quiet
    show ?thesis
      using probe_scan(2) [OF groups_list_all, of tid obs emptyScan] all all_count_iff [of ok "groupProbeSeries obs"]
      unfolding quiet(2) seriesRecovery_transition ok_def
      by (simp add: emptyScan_def groupProbeSeries_Nil_iff conj_commute)
  next
    case (failing s severity summary)
    have "\<not> ok s" using failing(2) eligible_not_failing unfolding ok_def by blast
    thus ?thesis using all failing(1) unfolding failing(5) ok_def
      by (auto simp: evaluateTransition_not_recovered)
  qed
qed

text \<open>
  (C24) When a series of the target fails, the evaluation yields an active incident, dated by the newest
  observation.  Its severity is critical if TCP probes fail from two instances or two HTTP probe items
  fail, and otherwise the severity of the worst failing series.
\<close>

theorem probe_series_severity:
  assumes "f \<in> set (groupProbeSeries obs)" and "probe_failing f"
  shows "\<exists>c s. er_Current (evaluateTargetProbeFailureAcrossSeries prev tid obs) = Some c \<and>
    inc_LastEvaluatedAt c = Max (insert zeroTime (po_ObservedAt ` set obs)) \<and>
    s \<in> set (groupProbeSeries obs) \<and> probe_failing s \<and> severityRank (probe_severity f) \<le> severityRank (probe_severity s) \<and>
    inc_Severity c = (if 2 \<le> card (failing_instances probe_failing (groupProbeSeries obs)) \<or>
      2 \<le> card (failing_items probe_failing (groupProbeSeries obs)) then SeverityCritical else probe_severity s)"
proof (cases rule: probe_across_cases [of obs prev tid])
  case quiet
  thus ?thesis using assms by blast
next
  case (failing s severity summary)
  have "latest_of zeroTime (groupProbeSeries obs) = Max (insert zeroTime (po_ObservedAt ` set obs))"
    by (rule latest_of_series)
  moreover obtain c where c: "er_Current (evaluateTargetProbeFailureAcrossSeries prev tid obs) = Some c"
    "inc_Severity c = severity" "inc_LastEvaluatedAt c = latest_of zeroTime (groupProbeSeries obs)"
    unfolding failing(5) using evaluateTransition_current by blast
  ultimately show ?thesis using failing(1-4) assms by (intro exI [of _ c] exI [of _ s]) simp
qed

text \<open>
  (C25) An open TLS expiry incident recovers exactly when there is a TLS observation and the newest one
  of every TLS series reports more than thirty days.
\<close>

theorem tls_series_recovers_iff:
  "er_Transition (evaluateTargetTLSExpiryAcrossSeries (Some p) tid obs) = TransitionRecovered \<longleftrightarrow>
     tls_observations obs \<noteq> [] \<and>
     (\<forall>x \<in> set (tls_observations obs). tls_safe (series_of (tls_observations obs) (probeSeriesKey x)))"
proof -
  let ?gs = "groupProbeSeries (tls_observations obs)"
  have all: "(\<forall>x \<in> set (tls_observations obs). tls_safe (series_of (tls_observations obs) (probeSeriesKey x))) \<longleftrightarrow>
      (\<forall>s \<in> set ?gs. tls_safe s)"
    unfolding set_groupProbeSeries by blast
  show ?thesis
  proof (cases rule: tls_across_cases [of obs "Some p" tid])
    case none
    thus ?thesis by (simp add: noop_def)
  next
    case quiet
    have "sc_recoveryEligibleCount (fold (tlsExpiryStep tid) ?gs emptyScan) = int (length (filter tls_safe ?gs))"
      using tls_scan(2) [OF groups_list_all, of tid "tls_observations obs" emptyScan] by (simp add: emptyScan_def)
    moreover have "0 < length ?gs" using quiet(1) groupProbeSeries_Nil_iff by blast
    ultimately show ?thesis
      unfolding quiet(2) seriesRecovery_transition all using quiet(1) all_count_iff [of tls_safe ?gs] by simp
  next
    case (expiring s severity "when" summary)
    have "\<not> tls_safe s"
      using tls_safe_not_active [OF series_normal [OF expiring(2)] series_nonempty [OF expiring(2)], of tid] expiring(3)
      by metis
    thus ?thesis using expiring(2) unfolding all expiring(5)
      by (auto simp: evaluateTransition_not_recovered)
  qed
qed

section \<open>Concrete evaluations\<close>

definition series_probe :: "string \<Rightarrow> string \<Rightarrow> string \<Rightarrow> time \<Rightarrow> ProbeObservation" where
  "series_probe item instance result t =
     (sample_latency item 20 t)\<lparr> po_MonitoringInstanceID := instance, po_ResultKind := result,
       po_ProbeKind := ProbeKindTCP, po_TLSExpiryDays := Some 60 \<rparr>"

definition recovered_probes :: "ProbeObservation list" where
  "recovered_probes =
     [series_probe ''p'' ''a'' ProbeResultSuccess 50, series_probe ''p'' ''b'' ProbeResultSuccess 40,
      series_probe ''p'' ''a'' ProbeResultSuccess 30, series_probe ''p'' ''b'' ProbeResultSuccess 20,
      series_probe ''p'' ''a'' ProbeResultFailure 10]"

definition failing_probes :: "ProbeObservation list" where
  "failing_probes =
     [series_probe ''p'' ''a'' ProbeResultFailure 50, series_probe ''p'' ''b'' ProbeResultFailure 40,
      series_probe ''p'' ''a'' ProbeResultFailure 30, series_probe ''p'' ''b'' ProbeResultFailure 20,
      series_probe ''p'' ''c'' ProbeResultSuccess 10]"

theorem probe_series_recovers_iff_witness:
  "er_Transition (evaluateTargetProbeFailureAcrossSeries (Some (sample_incident IncidentTargetProbeFailure SeverityAlert))
     ''t'' recovered_probes) = TransitionRecovered"
proof -
  have "recovered_probes \<noteq> [] \<and> (\<forall>x \<in> set recovered_probes.
      consecutiveResults (series_of recovered_probes (probeSeriesKey x)) ProbeResultSuccess \<ge> 2)"
    by code_simp
  thus ?thesis by (rule probe_series_recovers_iff [THEN iffD2])
qed

theorem probe_series_severity_witness:
  "\<exists>c. er_Current (evaluateTargetProbeFailureAcrossSeries None ''t'' failing_probes) = Some c \<and>
     inc_LastEvaluatedAt c = 50 \<and> inc_Severity c = SeverityCritical"
proof -
  define f where "f = series_of failing_probes ''p|a''"
  have "f \<in> set (groupProbeSeries failing_probes)" and "probe_failing f"
    unfolding f_def by code_simp+
  note th = probe_series_severity [OF this, of None "''t''"]
  have "{''a'', ''b''} \<subseteq> failing_instances probe_failing (groupProbeSeries failing_probes)"
  proof -
    have "series_of failing_probes ''p|b'' \<in> set (groupProbeSeries failing_probes)"
      "probe_failing (series_of failing_probes ''p|b'')"
      "po_MonitoringInstanceID (hd (series_of failing_probes ''p|b'')) = ''b''"
      "po_ProbeKind (hd (series_of failing_probes ''p|b'')) = ProbeKindTCP"
      "po_MonitoringInstanceID (hd f) = ''a''" "po_ProbeKind (hd f) = ProbeKindTCP"
      unfolding f_def by code_simp+
    thus ?thesis using \<open>f \<in> set (groupProbeSeries failing_probes)\<close> \<open>probe_failing f\<close>
      unfolding failing_instances_def by force
  qed
  moreover have "finite (failing_instances probe_failing (groupProbeSeries failing_probes))"
    unfolding failing_instances_def by simp
  ultimately have "card {''a'', ''b''} \<le> card (failing_instances probe_failing (groupProbeSeries failing_probes))"
    by (intro card_mono)
  moreover have "Max (insert zeroTime (po_ObservedAt ` set failing_probes)) = 50" by code_simp
  ultimately show ?thesis using th by auto
qed

definition renewed_certificates :: "ProbeObservation list" where
  "renewed_certificates =
     [(series_probe ''p'' ''a'' ProbeResultSuccess 50)\<lparr> po_ProbeKind := ProbeKindTLS \<rparr>,
      (series_probe ''q'' ''a'' ProbeResultSuccess 40)\<lparr> po_ProbeKind := ProbeKindTLS \<rparr>,
      (series_probe ''q'' ''a'' ProbeResultSuccess 30)\<lparr> po_ProbeKind := ProbeKindTLS, po_TLSExpiryDays := Some 2 \<rparr>,
      series_probe ''r'' ''a'' ProbeResultFailure 60]"

lemma tls_safe_code: "tls_safe s = (case po_TLSExpiryDays (hd s) of None \<Rightarrow> False | Some days \<Rightarrow> days > 30)"
  by (simp split: option.split)

theorem tls_series_recovers_iff_witness:
  "er_Transition (evaluateTargetTLSExpiryAcrossSeries (Some (sample_incident IncidentTargetTLSExpiry SeverityAlert))
     ''t'' renewed_certificates) = TransitionRecovered"
proof -
  have "tls_observations renewed_certificates \<noteq> [] \<and> (\<forall>x \<in> set (tls_observations renewed_certificates).
      tls_safe (series_of (tls_observations renewed_certificates) (probeSeriesKey x)))"
    unfolding tls_safe_code by code_simp
  thus ?thesis by (rule tls_series_recovers_iff [THEN iffD2])
qed

end
