(* ===== verification/Incident_Mutation.thy ===== *)
theory Incident_Mutation
  imports Incident_Series
begin

text \<open>
  From evaluations to a mutation of the incident projection, from
  \<open>internal/center/incidents/service.go\<close>: \<open>buildMutation\<close> folds the results of the evaluators of an
  object into its active incidents, \<open>buildAdministrativeRecoveryMutation\<close> closes all of them, and the
  remaining helpers select the inactive objects, the windows and the samples of an evaluation.  The
  theorems state that a mutation refines the per-class view: each class moves exactly as its own
  evaluator decided.
\<close>

section \<open>Objects\<close>

text \<open>The fields of the stored records that the incident service reads.\<close>

record MonitoringInstanceRecord =
  mi_VPSLifecycleStatus :: string
  mi_MonitoringInstanceID :: string
  mi_DisplayName :: string
  mi_LifecycleStatus :: string
  mi_MonitoringStatus :: string
  mi_Labels :: "string list"
  mi_LastHeartbeatAt :: "time option"
  mi_ArchivedAt :: "time option"

record TargetRecord =
  tr_LifecycleStatus :: string
  tr_TargetID :: string
  tr_RunStatus :: string

definition isInactiveMonitoringInstance :: "MonitoringInstanceRecord \<Rightarrow> bool" where
  "isInactiveMonitoringInstance r =
     (if mi_MonitoringStatus r = MonitoringPaused \<or> mi_MonitoringStatus r = MonitoringMaintenance then True
      else if mi_LifecycleStatus r = LifecycleRetired then True
      else if mi_ArchivedAt r \<noteq> None \<or> mi_VPSLifecycleStatus r = ''archived'' then True
      else False)"

definition shouldRecoverIncidentsForTarget :: "TargetRecord \<Rightarrow> bool" where
  "shouldRecoverIncidentsForTarget r =
     (if tr_LifecycleStatus r = TargetLifecycleRetired then True
      else tr_RunStatus r = RunStatusPaused \<or> tr_RunStatus r = RunStatusMaintenance)"

definition administrativeRecoverySummaryForMonitoringInstance :: "MonitoringInstanceRecord \<Rightarrow> string" where
  "administrativeRecoverySummaryForMonitoringInstance r =
     (if mi_ArchivedAt r \<noteq> None \<or> mi_VPSLifecycleStatus r = ''archived''
      then (utf8 [0x76D1, 0x63A7, 0x5B9E, 0x4F8B, 0x5DF2, 0x5F52, 0x6863, 0xFF0C, 0x5F53, 0x524D, 0x5F02, 0x5E38, 0x6309, 0x884C, 0x653F, 0x4E0B, 0x7EBF, 0x6536, 0x655B])
      else if mi_LifecycleStatus r = LifecycleRetired
      then (utf8 [0x76D1, 0x63A7, 0x5B9E, 0x4F8B, 0x5DF2, 0x9000, 0x5F79, 0xFF0C, 0x5F53, 0x524D, 0x5F02, 0x5E38, 0x6309, 0x884C, 0x653F, 0x4E0B, 0x7EBF, 0x6536, 0x655B])
      else if mi_MonitoringStatus r = MonitoringMaintenance
      then (utf8 [0x76D1, 0x63A7, 0x5B9E, 0x4F8B, 0x5904, 0x4E8E, 0x7EF4, 0x62A4, 0x4E2D, 0xFF0C, 0x5F53, 0x524D, 0x5F02, 0x5E38, 0x6309, 0x7EF4, 0x62A4, 0x72B6, 0x6001, 0x6536, 0x655B])
      else if mi_MonitoringStatus r = MonitoringPaused
      then (utf8 [0x76D1, 0x63A7, 0x5B9E, 0x4F8B, 0x5DF2, 0x6682, 0x505C, 0xFF0C, 0x5F53, 0x524D, 0x5F02, 0x5E38, 0x6309, 0x6682, 0x505C, 0x72B6, 0x6001, 0x6536, 0x655B])
      else (utf8 [0x76D1, 0x63A7, 0x5B9E, 0x4F8B, 0x975E, 0x8FD0, 0x884C, 0x6001, 0xFF0C, 0x5F53, 0x524D, 0x5F02, 0x5E38, 0x6309, 0x884C, 0x653F, 0x72B6, 0x6001, 0x6536, 0x655B]))"

definition administrativeRecoverySummaryForTarget :: "TargetRecord \<Rightarrow> string" where
  "administrativeRecoverySummaryForTarget r =
     (if tr_LifecycleStatus r = TargetLifecycleRetired
      then (utf8 [0x54, 0x61, 0x72, 0x67, 0x65, 0x74, 0x20, 0x5DF2, 0x5F52, 0x6863, 0xFF0C, 0x5F53, 0x524D, 0x5F02, 0x5E38, 0x6309, 0x884C, 0x653F, 0x4E0B, 0x7EBF, 0x6536, 0x655B])
      else if tr_RunStatus r = RunStatusPaused
      then (utf8 [0x54, 0x61, 0x72, 0x67, 0x65, 0x74, 0x20, 0x5DF2, 0x6682, 0x505C, 0xFF0C, 0x5F53, 0x524D, 0x5F02, 0x5E38, 0x6309, 0x6682, 0x505C, 0x72B6, 0x6001, 0x6536, 0x655B])
      else (utf8 [0x54, 0x61, 0x72, 0x67, 0x65, 0x74, 0x20, 0x975E, 0x8FD0, 0x884C, 0x6001, 0xFF0C, 0x5F53, 0x524D, 0x5F02, 0x5E38, 0x6309, 0x884C, 0x653F, 0x72B6, 0x6001, 0x6536, 0x655B]))"

section \<open>Inputs of an evaluation\<close>

record HeartbeatPayload =
  hp_ObservedAt :: time
  hp_AgentVersion :: string
  hp_Fingerprint :: string
  hp_SyncBatchID :: string
  hp_IsBackfilled :: bool

record heartbeatEvaluationTrigger =
  ht_suppressTransitions :: bool

fun heartbeatTriggerLoop :: "HeartbeatPayload list \<Rightarrow> heartbeatEvaluationTrigger" where
  "heartbeatTriggerLoop [] = \<lparr> ht_suppressTransitions = True \<rparr>"
| "heartbeatTriggerLoop (h # hs) =
     (if \<not> hp_IsBackfilled h then \<lparr> ht_suppressTransitions = False \<rparr> else heartbeatTriggerLoop hs)"

definition heartbeatEvaluationTriggerForSync :: "HeartbeatPayload list \<Rightarrow> heartbeatEvaluationTrigger" where
  "heartbeatEvaluationTriggerForSync heartbeats =
     (if heartbeats = [] then \<lparr> ht_suppressTransitions = False \<rparr> else heartbeatTriggerLoop heartbeats)"

definition monitoringInstanceResourceSamplesFromHostSamples ::
    "HostSample list \<Rightarrow> MonitoringInstanceResourceSample list" where
  "monitoringInstanceResourceSamplesFromHostSamples hostSamples =
     map (\<lambda>sample. \<lparr>
       rs_ObservedAt = hs_ObservedAt sample,
       rs_ReceivedAt = hs_ReceivedAt sample,
       rs_CPUUsagePct = hs_CPUUsagePct sample,
       rs_CPURatesValid = hs_CPURatesValid sample,
       rs_NormalizedLoad5 = hs_Load5 sample,
       rs_MemUsedPct = hs_MemUsedPct sample,
       rs_MemAvailableBytes = hs_MemAvailableBytes sample,
       rs_SwapUsedPct = hs_SwapUsedPct sample,
       rs_CPUIOWaitPct = hs_CPUIOWaitPct sample,
       rs_CPUStealPct = hs_CPUStealPct sample,
       rs_MaintenanceContext = hs_MaintenanceContext sample,
       rs_IsBackfilled = hs_IsBackfilled sample \<rparr>) hostSamples"

text \<open>The midnight (UTC) that starts the day of an instant, and seven days before it.\<close>

definition trendBaselineWindow :: "time \<Rightarrow> time \<times> time" where
  "trendBaselineWindow now = (let dayEnd = now - now mod (24 * hour) in (dayEnd - 7 * (24 * hour), dayEnd))"

definition uniqueTargetIDs :: "string list \<Rightarrow> string list" where
  "uniqueTargetIDs targetIDs = sort_Strings (keep_first {} (filter (\<lambda>x. x \<noteq> []) targetIDs))"

section \<open>Mutations\<close>

record classEvaluation =
  ce_class :: IncidentClass
  ce_result :: EvaluationResult

definition incidentsByClass :: "IncidentRecord list \<Rightarrow> (IncidentClass, IncidentRecord) gomap" where
  "incidentsByClass records = fold (\<lambda>r m. AList.update (inc_IncidentClass r) r m) records []"

definition mutationStep ::
    "classEvaluation \<Rightarrow> (IncidentClass, IncidentRecord) gomap \<times> StateChangeEventRecord list \<Rightarrow>
     (IncidentClass, IncidentRecord) gomap \<times> StateChangeEventRecord list" where
  "mutationStep evaluation st =
     (let (activeByClass, events) = st;
          activeByClass =
            (case er_Transition (ce_result evaluation) of
               TransitionRecovered \<Rightarrow> AList.delete (ce_class evaluation) activeByClass
             | TransitionSkipped \<Rightarrow> activeByClass
             | _ \<Rightarrow>
                 (case er_Current (ce_result evaluation) of
                    Some current \<Rightarrow> AList.update (ce_class evaluation) current activeByClass
                  | None \<Rightarrow> activeByClass))
      in (activeByClass,
          (case er_Event (ce_result evaluation) of Some e \<Rightarrow> events @ [e] | None \<Rightarrow> events)))"

definition incident_class_less :: "IncidentRecord \<Rightarrow> IncidentRecord \<Rightarrow> bool" where
  "incident_class_less a b \<longleftrightarrow> inc_IncidentClass a < inc_IncidentClass b"

definition buildMutation ::
    "((IncidentClass, IncidentRecord) gomap \<Rightarrow> (IncidentClass, IncidentRecord) gomap) \<Rightarrow>
     ObjectType \<Rightarrow> string \<Rightarrow> string \<Rightarrow> IncidentRecord list \<Rightarrow> classEvaluation list \<Rightarrow> IncidentMutation" where
  "buildMutation rangeOrder objectType objectID expectedObjectRowVersion previous evaluations =
     (let (activeByClass, events) = fold mutationStep evaluations (incidentsByClass previous, [])
      in \<lparr> mu_ObjectType = objectType, mu_ObjectID = objectID,
           mu_ExpectedObjectRowVersion = expectedObjectRowVersion,
           mu_Active = SliceStable incident_class_less (map snd (rangeOrder activeByClass)),
           mu_Events = events \<rparr>)"

definition closedByManagementEvent ::
    "ObjectType \<Rightarrow> string \<Rightarrow> time \<Rightarrow> string \<Rightarrow> IncidentRecord \<Rightarrow> StateChangeEventRecord" where
  "closedByManagementEvent objectType objectID now summary incident =
     \<lparr> ev_ClosureReason = summary,
       ev_IncidentID = inc_IncidentID incident,
       ev_IncidentClass = inc_IncidentClass incident,
       ev_ObjectType = objectType,
       ev_ObjectID = objectID,
       ev_EventType = EventIncidentClosedByManagement,
       ev_Severity = inc_Severity incident,
       ev_Summary = summary,
       ev_CreatedAt = canonicalMonitoringEventTime now,
       ev_IsBackfilled = False,
       ev_Provenance = MonitoringEventProvenanceCenter,
       ev_ProducerVersion = MonitoringEventProducerVersion,
       ev_RuleVersion = MonitoringEventIncidentRuleVersion,
       ev_PriorState = monitoringEventIncidentState (inc_Severity incident),
       ev_ResultingState = ''closed_by_management'',
       ev_CorrectionOfEventID = [] \<rparr>"

definition buildAdministrativeRecoveryMutation ::
    "ObjectType \<Rightarrow> string \<Rightarrow> string \<Rightarrow> IncidentRecord list \<Rightarrow> time \<Rightarrow> string \<Rightarrow> IncidentMutation" where
  "buildAdministrativeRecoveryMutation objectType objectID expectedObjectRowVersion previous now summary =
     \<lparr> mu_ObjectType = objectType, mu_ObjectID = objectID,
       mu_ExpectedObjectRowVersion = expectedObjectRowVersion,
       mu_Active = [],
       mu_Events = map (closedByManagementEvent objectType objectID now summary) previous \<rparr>"

section \<open>The view by class\<close>

definition active_in :: "IncidentRecord list \<Rightarrow> IncidentClass \<Rightarrow> IncidentRecord option" where
  "active_in records c = map_of (incidentsByClass records) c"

definition incidents_ok :: "ObjectType \<Rightarrow> string \<Rightarrow> IncidentRecord list \<Rightarrow> bool" where
  "incidents_ok ot oid records \<longleftrightarrow>
     distinct (map inc_IncidentClass records) \<and>
     list_all (\<lambda>p. incident_ok ot oid (inc_IncidentClass p) p) records"

definition keyed :: "(IncidentClass, IncidentRecord) gomap \<Rightarrow> bool" where
  "keyed m \<longleftrightarrow> distinct (map fst m) \<and> (\<forall>k v. map_of m k = Some v \<longrightarrow> inc_IncidentClass v = k)"

lemma keyed_update: "keyed m \<Longrightarrow> inc_IncidentClass v = k \<Longrightarrow> keyed (AList.update k v m)"
  unfolding keyed_def by (simp add: distinct_update update_conv')

lemma keyed_delete: "keyed m \<Longrightarrow> keyed (AList.delete k m)"
  unfolding keyed_def by (simp add: distinct_delete delete_conv')

lemma incidentsByClass_keyed: "keyed (incidentsByClass records)"
proof -
  have "keyed m \<Longrightarrow> keyed (fold (\<lambda>r m. AList.update (inc_IncidentClass r) r m) records m)" for m
    by (induction records arbitrary: m) (simp_all add: keyed_update)
  moreover have "keyed []" by (simp add: keyed_def)
  ultimately show ?thesis unfolding incidentsByClass_def by blast
qed

lemma active_in_iff:
  assumes "distinct (map inc_IncidentClass records)"
  shows "active_in records c = Some r \<longleftrightarrow> r \<in> set records \<and> inc_IncidentClass r = c"
proof -
  have "map_of (fold (\<lambda>r m. AList.update (inc_IncidentClass r) r m) records m) c = Some r \<longleftrightarrow>
      (r \<in> set records \<and> inc_IncidentClass r = c) \<or>
      (c \<notin> inc_IncidentClass ` set records \<and> map_of m c = Some r)" for m
    using assms
  proof (induction records arbitrary: m)
    case (Cons x xs)
    thus ?case by (auto simp: update_conv')
  qed simp
  thus ?thesis unfolding active_in_def incidentsByClass_def by simp
qed

lemma active_in_ok: "incidents_ok ot oid records \<Longrightarrow> previous_ok ot oid c (active_in records c)"
  by (auto simp: previous_ok_def incidents_ok_def active_in_iff list_all_iff split: option.split)

lemma active_in_Nil [simp]: "active_in [] c = None"
  by (simp add: active_in_def incidentsByClass_def)

section \<open>The fold over the evaluations\<close>

definition event_list :: "EvaluationResult \<Rightarrow> StateChangeEventRecord list" where
  "event_list r = (case er_Event r of Some e \<Rightarrow> [e] | None \<Rightarrow> [])"

lemma mutationStep_map:
  "map_of (fst (mutationStep e st)) c =
     (if c = ce_class e then after_result (map_of (fst st) c) (ce_result e) else map_of (fst st) c)"
  by (cases st) (auto simp: mutationStep_def after_result_def update_conv' delete_conv'
      split: EvaluationTransition.splits option.splits)

lemma mutationStep_events: "snd (mutationStep e st) = snd st @ event_list (ce_result e)"
  by (cases st) (simp add: mutationStep_def event_list_def split: option.split)

lemma mutationStep_keyed:
  assumes "keyed (fst st)" and "\<And>c. er_Current (ce_result e) = Some c \<Longrightarrow> inc_IncidentClass c = ce_class e"
  shows "keyed (fst (mutationStep e st))"
  using assms by (cases st)
    (auto simp: mutationStep_def keyed_update keyed_delete split: EvaluationTransition.splits option.splits)

definition evaluated :: "classEvaluation list \<Rightarrow> IncidentClass \<Rightarrow> EvaluationResult option" where
  "evaluated evaluations c = map_of (map (\<lambda>e. (ce_class e, ce_result e)) evaluations) c"

lemma fold_mutationStep_map:
  assumes "distinct (map ce_class es)"
  shows "map_of (fst (fold mutationStep es st)) c =
    (case evaluated es c of None \<Rightarrow> map_of (fst st) c | Some r \<Rightarrow> after_result (map_of (fst st) c) r)"
  using assms
proof (induction es arbitrary: st)
  case (Cons e es)
  have "evaluated es (ce_class e) = None"
    using Cons.prems by (simp add: evaluated_def map_of_eq_None_iff image_image)
  moreover have "evaluated (e # es) c = (if c = ce_class e then Some (ce_result e) else evaluated es c)"
    by (simp add: evaluated_def)
  ultimately show ?case using Cons by (simp add: mutationStep_map split: option.split)
qed (simp add: evaluated_def)

lemma fold_mutationStep_events:
  "snd (fold mutationStep es st) = snd st @ concat (map (\<lambda>e. event_list (ce_result e)) es)"
  by (induction es arbitrary: st) (simp_all add: mutationStep_events)

lemma fold_mutationStep_keyed:
  assumes "keyed (fst st)"
    and "\<And>e c. e \<in> set es \<Longrightarrow> er_Current (ce_result e) = Some c \<Longrightarrow> inc_IncidentClass c = ce_class e"
  shows "keyed (fst (fold mutationStep es st))"
  using assms by (induction es arbitrary: st) (simp_all add: mutationStep_keyed)

text \<open>What a list of evaluations has to satisfy: one per class, each within the contract of its class.\<close>

definition evaluations_ok :: "ObjectType \<Rightarrow> string \<Rightarrow> IncidentRecord list \<Rightarrow> classEvaluation list \<Rightarrow> bool" where
  "evaluations_ok ot oid previous es \<longleftrightarrow>
     distinct (map ce_class es) \<and>
     list_all (\<lambda>e. result_ok ot oid (ce_class e) (active_in previous (ce_class e)) (ce_result e)) es"

lemma result_ok_current:
  "result_ok ot oid cls prev r \<Longrightarrow> er_Current r = Some c \<Longrightarrow> incident_ok ot oid cls c"
  by (auto simp: result_ok_def split: EvaluationTransition.splits option.splits)

lemma result_ok_event:
  "result_ok ot oid cls prev r \<Longrightarrow> er_Event r = Some e \<Longrightarrow> event_for ot oid cls e"
  by (auto simp: result_ok_def split: EvaluationTransition.splits option.splits)

lemma result_ok_after:
  "result_ok ot oid cls prev r \<Longrightarrow> previous_ok ot oid cls prev \<Longrightarrow> previous_ok ot oid cls (after_result prev r)"
  by (auto simp: result_ok_def after_result_def previous_ok_def
      split: EvaluationTransition.splits option.splits)

lemma result_ok_log:
  "result_ok ot oid cls prev r \<Longrightarrow> log_state (prev \<noteq> None) (event_list r) = Some (after_result prev r \<noteq> None)"
  by (auto simp: result_ok_def after_result_def event_list_def split: EvaluationTransition.splits option.splits)

definition class_after :: "IncidentRecord list \<Rightarrow> classEvaluation list \<Rightarrow> IncidentClass \<Rightarrow> IncidentRecord option" where
  "class_after previous es c =
     (case evaluated es c of None \<Rightarrow> active_in previous c | Some r \<Rightarrow> after_result (active_in previous c) r)"

interpretation class_order: go_less incident_class_less
  using go_less_key [of inc_IncidentClass] by (simp add: incident_class_less_def [abs_def])

lemma keyed_records:
  assumes "keyed m" and "mset m' = mset m"
  shows "distinct (map inc_IncidentClass (map snd m'))" and "set (map snd m') = {v. map_of m (inc_IncidentClass v) = Some v}"
proof -
  have s: "set m' = set m" using assms(2) by (rule mset_eq_setD)
  have k: "map_of m (fst x) = Some (snd x) \<and> inc_IncidentClass (snd x) = fst x" if "x \<in> set m" for x
    using assms(1) that unfolding keyed_def by (metis map_of_is_SomeI prod.collapse)
  have eq: "map inc_IncidentClass (map snd m') = map fst m'" using k s by simp
  have "mset (map fst m') = mset (map fst m)" using assms(2) by (metis mset_map)
  hence "distinct (map fst m')" using assms(1) unfolding keyed_def using mset_eq_imp_distinct_iff by blast
  thus "distinct (map inc_IncidentClass (map snd m'))" unfolding eq .
  show "set (map snd m') = {v. map_of m (inc_IncidentClass v) = Some v}"
  proof (intro set_eqI iffI)
    fix v assume "v \<in> set (map snd m')"
    then obtain x where "x \<in> set m" "v = snd x" using s by auto
    thus "v \<in> {v. map_of m (inc_IncidentClass v) = Some v}" using k by simp
  next
    fix v assume "v \<in> {v. map_of m (inc_IncidentClass v) = Some v}"
    hence "(inc_IncidentClass v, v) \<in> set m" using map_of_SomeD by fastforce
    thus "v \<in> set (map snd m')" using s by force
  qed
qed

lemma sorted_wrt_distinct:
  assumes "sorted_wrt R xs" and "distinct (map f xs)" and "\<And>a b. R a b \<Longrightarrow> f a \<noteq> f b \<Longrightarrow> Q a b"
  shows "sorted_wrt Q xs"
  using assms by (induction xs) (auto simp: image_iff)

lemma sorted_classes:
  assumes "distinct (map inc_IncidentClass xs)"
  shows "sorted_wrt incident_class_less (SliceStable incident_class_less xs)"
    and "distinct (map inc_IncidentClass (SliceStable incident_class_less xs))"
proof -
  let ?ys = "SliceStable incident_class_less xs"
  have "mset (map inc_IncidentClass ?ys) = mset (map inc_IncidentClass xs)" by simp
  thus d: "distinct (map inc_IncidentClass ?ys)" using assms mset_eq_imp_distinct_iff by blast
  have "in_order incident_class_less ?ys" by (rule class_order.in_order_SliceStable)
  hence "sorted_wrt (\<lambda>a b. \<not> incident_class_less b a) ?ys" by (simp add: in_order_def)
  thus "sorted_wrt incident_class_less ?ys"
    using d by (rule sorted_wrt_distinct) (simp add: incident_class_less_def)
qed

section \<open>A mutation refines the view by class\<close>

text \<open>
  What a mutation promises for an object whose active incidents are \<open>previous\<close>: it leaves well-formed
  incidents, its events belong to the object and pass the metadata contract, and for every class they
  lead from the state before to the state after.
\<close>

definition mutation_ok :: "ObjectType \<Rightarrow> string \<Rightarrow> IncidentRecord list \<Rightarrow> IncidentMutation \<Rightarrow> bool" where
  "mutation_ok ot oid previous m \<longleftrightarrow>
     mu_ObjectType m = ot \<and> mu_ObjectID m = oid \<and> incidents_ok ot oid (mu_Active m) \<and>
     list_all (\<lambda>e. event_for ot oid (ev_IncidentClass e) e) (mu_Events m) \<and>
     (\<forall>c. log_state (active_in previous c \<noteq> None) (filter (\<lambda>e. ev_IncidentClass e = c) (mu_Events m)) =
        Some (active_in (mu_Active m) c \<noteq> None))"

lemma strict_in_order: "sorted_wrt incident_class_less xs \<Longrightarrow> in_order incident_class_less xs"
  unfolding in_order_def by (rule sorted_wrt_mono_rel [where P = incident_class_less]) (rule class_order.less_asym)

lemma incident_ok_class: "incident_ok ot oid cls p \<Longrightarrow> inc_IncidentClass p = cls"
  by (simp add: incident_ok_def)

lemma buildMutation_active:
  assumes order: "\<And>m. mset (ord m) = mset m"
    and prev: "incidents_ok ot oid previous" and evs: "evaluations_ok ot oid previous es"
  shows "active_in (mu_Active (buildMutation ord ot oid ver previous es)) c = class_after previous es c"
    and "distinct (map inc_IncidentClass (mu_Active (buildMutation ord ot oid ver previous es)))"
    and "sorted_wrt incident_class_less (mu_Active (buildMutation ord ot oid ver previous es))"
    and "set (mu_Active (buildMutation ord ot oid ver previous es)) =
      {v. class_after previous es (inc_IncidentClass v) = Some v}"
    and "keyed (fst (fold mutationStep es (incidentsByClass previous, [])))"
proof -
  define m where "m = fst (fold mutationStep es (incidentsByClass previous, []))"
  let ?act = "mu_Active (buildMutation ord ot oid ver previous es)"
  show k: "keyed (fst (fold mutationStep es (incidentsByClass previous, [])))"
  proof (rule fold_mutationStep_keyed)
    show "keyed (fst (incidentsByClass previous, []))" by (simp add: incidentsByClass_keyed)
    show "inc_IncidentClass r = ce_class e" if "e \<in> set es" "er_Current (ce_result e) = Some r" for e r
      using evs that result_ok_current incident_ok_class unfolding evaluations_ok_def list_all_iff by blast
  qed
  have "map_of m c = class_after previous es c" for c
    using fold_mutationStep_map [of es "(incidentsByClass previous, [])" c] evs
    by (simp add: m_def evaluations_ok_def class_after_def active_in_def split: option.split)
  moreover have "?act = SliceStable incident_class_less (map snd (ord m))"
    unfolding buildMutation_def m_def by (simp split: prod.split)
  moreover note keyed_records [OF k [folded m_def] order [of m]]
  ultimately have d: "distinct (map inc_IncidentClass (map snd (ord m)))"
    and s: "set ?act = {v. class_after previous es (inc_IncidentClass v) = Some v}"
    and eq: "?act = SliceStable incident_class_less (map snd (ord m))" and mo: "\<And>c. map_of m c = class_after previous es c"
    by simp_all
  show s': "set ?act = {v. class_after previous es (inc_IncidentClass v) = Some v}" by (rule s)
  show d': "distinct (map inc_IncidentClass ?act)" and "sorted_wrt incident_class_less ?act"
    unfolding eq using sorted_classes [OF d] by simp_all
  have "active_in ?act c = Some v \<longleftrightarrow> class_after previous es c = Some v" for v
    unfolding active_in_iff [OF d'] s using k mo unfolding m_def keyed_def by auto
  thus "active_in ?act c = class_after previous es c" by (metis not_Some_eq)
qed

lemma buildMutation_fields:
  "mu_ObjectType (buildMutation ord ot oid ver previous es) = ot"
  "mu_ObjectID (buildMutation ord ot oid ver previous es) = oid"
  "mu_ExpectedObjectRowVersion (buildMutation ord ot oid ver previous es) = ver"
  "mu_Events (buildMutation ord ot oid ver previous es) = concat (map (\<lambda>e. event_list (ce_result e)) es)"
  using fold_mutationStep_events [of es "(incidentsByClass previous, [])"]
  by (auto simp: buildMutation_def split: prod.split)

lemma evaluated_ok:
  assumes "evaluations_ok ot oid previous es" and "evaluated es c = Some r"
  shows "result_ok ot oid c (active_in previous c) r"
proof -
  obtain e where "e \<in> set es" "ce_class e = c" "ce_result e = r"
    using assms(2) map_of_SomeD unfolding evaluated_def by fastforce
  thus ?thesis using assms(1) unfolding evaluations_ok_def list_all_iff by blast
qed

lemma class_after_ok:
  assumes "incidents_ok ot oid previous" and "evaluations_ok ot oid previous es"
  shows "previous_ok ot oid c (class_after previous es c)"
  using active_in_ok [OF assms(1)] evaluated_ok [OF assms(2)]
  by (auto simp: class_after_def intro: result_ok_after split: option.split)

lemma events_of_class:
  assumes "distinct (map ce_class es)"
    and "\<And>e x. e \<in> set es \<Longrightarrow> er_Event (ce_result e) = Some x \<Longrightarrow> ev_IncidentClass x = ce_class e"
  shows "filter (\<lambda>x. ev_IncidentClass x = c) (concat (map (\<lambda>e. event_list (ce_result e)) es)) =
    (case evaluated es c of None \<Rightarrow> [] | Some r \<Rightarrow> event_list r)"
  using assms
proof (induction es)
  case (Cons e es)
  have hd: "filter (\<lambda>x. ev_IncidentClass x = c) (event_list (ce_result e)) =
      (if c = ce_class e then event_list (ce_result e) else [])"
    using Cons.prems(2) [of e] by (auto simp: event_list_def split: option.split)
  have "evaluated es (ce_class e) = None"
    using Cons.prems(1) by (simp add: evaluated_def map_of_eq_None_iff image_image)
  moreover have "evaluated (e # es) c = (if c = ce_class e then Some (ce_result e) else evaluated es c)"
    by (simp add: evaluated_def)
  ultimately show ?case using Cons by (simp add: hd)
qed (simp add: evaluated_def)

lemma buildMutation_ok:
  assumes order: "\<And>m. mset (ord m) = mset m"
    and prev: "incidents_ok ot oid previous" and evs: "evaluations_ok ot oid previous es"
  shows "mutation_ok ot oid previous (buildMutation ord ot oid ver previous es)"
proof -
  let ?m = "buildMutation ord ot oid ver previous es"
  note act = buildMutation_active(1-4) [OF order prev evs, where ver = ver]
  have ev: "event_for ot oid (ce_class e) x" if "e \<in> set es" "er_Event (ce_result e) = Some x" for e x
    using evs that result_ok_event unfolding evaluations_ok_def list_all_iff by blast
  have events: "mu_Events ?m = concat (map (\<lambda>e. event_list (ce_result e)) es)"
    by (rule buildMutation_fields)
  have "list_all (\<lambda>e. event_for ot oid (ev_IncidentClass e) e) (mu_Events ?m)"
    unfolding events list_all_iff using ev
    by (fastforce simp: event_list_def event_for_def split: option.splits)
  moreover have "log_state (active_in previous c \<noteq> None) (filter (\<lambda>e. ev_IncidentClass e = c) (mu_Events ?m)) =
      Some (active_in (mu_Active ?m) c \<noteq> None)" for c
  proof -
    have "filter (\<lambda>e. ev_IncidentClass e = c) (mu_Events ?m) =
        (case evaluated es c of None \<Rightarrow> [] | Some r \<Rightarrow> event_list r)"
      unfolding events using evs ev by (intro events_of_class) (auto simp: evaluations_ok_def event_for_def)
    thus ?thesis unfolding act(1) class_after_def using result_ok_log [OF evaluated_ok [OF evs]]
      by (simp split: option.split)
  qed
  moreover have "incidents_ok ot oid (mu_Active ?m)"
  proof -
    have "incident_ok ot oid (inc_IncidentClass v) v" if "class_after previous es (inc_IncidentClass v) = Some v" for v
      using class_after_ok [OF prev evs, of "inc_IncidentClass v"] that by (simp add: previous_ok_def)
    thus ?thesis unfolding incidents_ok_def list_all_iff act(4) using act(2) by blast
  qed
  ultimately show ?thesis unfolding mutation_ok_def by (simp add: buildMutation_fields)
qed

lemma log_closes:
  assumes "distinct (map inc_IncidentClass previous)"
  shows "log_state (active_in previous c \<noteq> None)
    (filter (\<lambda>e. ev_IncidentClass e = c) (map (closedByManagementEvent ot oid now summary) previous)) = Some False"
proof (cases "active_in previous c")
  case None
  hence "c \<notin> inc_IncidentClass ` set previous" using active_in_iff [OF assms, of c] by auto
  hence "filter (\<lambda>e. ev_IncidentClass e = c) (map (closedByManagementEvent ot oid now summary) previous) = []"
    by (auto simp: filter_empty_conv closedByManagementEvent_def)
  thus ?thesis using None by simp
next
  case (Some p)
  hence p: "p \<in> set previous" "inc_IncidentClass p = c" using active_in_iff [OF assms] by auto
  then obtain xs ys where pr: "previous = xs @ p # ys" by (meson split_list)
  hence "inc_IncidentClass r \<noteq> c" if "r \<in> set xs \<or> r \<in> set ys" for r
    using assms p(2) that by (fastforce simp: image_iff)
  hence "filter (\<lambda>r. inc_IncidentClass r = c) xs = []" "filter (\<lambda>r. inc_IncidentClass r = c) ys = []"
    by (simp_all add: filter_empty_conv)
  hence "filter (\<lambda>r. inc_IncidentClass r = c) previous = [p]" using pr p(2) by simp
  moreover have "filter (\<lambda>e. ev_IncidentClass e = c) (map (closedByManagementEvent ot oid now summary) previous) =
      map (closedByManagementEvent ot oid now summary) (filter (\<lambda>r. inc_IncidentClass r = c) previous)"
    by (simp add: filter_map comp_def closedByManagementEvent_def)
  ultimately show ?thesis using Some by (simp add: closedByManagementEvent_def)
qed

lemma closed_event_for:
  assumes "incident_object ot" and "incident_ok ot oid (inc_IncidentClass p) p"
  shows "event_for ot oid (inc_IncidentClass p) (closedByManagementEvent ot oid now summary p)"
proof -
  have "event_metadata_ok (closedByManagementEvent ot oid now summary p)"
    using assms by (intro closed_event_ok)
      (auto simp: closedByManagementEvent_def incident_event_frame_def incident_ok_def)
  thus ?thesis using assms by (simp add: event_for_def closedByManagementEvent_def incident_ok_def)
qed

lemma administrative_ok:
  assumes "incident_object ot" and "incidents_ok ot oid previous"
  shows "mutation_ok ot oid previous (buildAdministrativeRecoveryMutation ot oid ver previous now summary)"
proof -
  let ?m = "buildAdministrativeRecoveryMutation ot oid ver previous now summary"
  have m: "mu_Events ?m = map (closedByManagementEvent ot oid now summary) previous" "mu_Active ?m = []"
    "mu_ObjectType ?m = ot" "mu_ObjectID ?m = oid"
    by (simp_all add: buildAdministrativeRecoveryMutation_def)
  have cls: "ev_IncidentClass (closedByManagementEvent ot oid now summary p) = inc_IncidentClass p" for p
    by (simp add: closedByManagementEvent_def)
  have "list_all (\<lambda>e. event_for ot oid (ev_IncidentClass e) e) (mu_Events ?m)"
    unfolding m using assms closed_event_for by (simp add: list_all_iff cls incidents_ok_def)
  moreover have "distinct (map inc_IncidentClass previous)" using assms(2) by (simp add: incidents_ok_def)
  ultimately show ?thesis
    unfolding mutation_ok_def m(1) using log_closes by (simp add: m incidents_ok_def)
qed

text \<open>
  (C26) Building a mutation refines the view by class.  For every order in which the runtime ranges over
  the map of active incidents, the active list is well formed and strictly sorted by class, and it
  holds for each class exactly what the evaluation of that class decided: an evaluated class moves to
  the outcome of its evaluator, every other class keeps its incident.  The events are those of the
  evaluations, in their order.
\<close>

theorem buildMutation_refines:
  assumes "\<And>m. mset (ord m) = mset m"
    and "incidents_ok ot oid previous" and "evaluations_ok ot oid previous es"
    and "m = buildMutation ord ot oid ver previous es"
  shows "incidents_ok ot oid (mu_Active m) \<and> sorted_wrt incident_class_less (mu_Active m) \<and>
    (\<forall>c. active_in (mu_Active m) c =
       (case evaluated es c of None \<Rightarrow> active_in previous c | Some r \<Rightarrow> after_result (active_in previous c) r)) \<and>
    mu_Events m = concat (map (\<lambda>e. event_list (ce_result e)) es) \<and>
    m = buildMutation (\<lambda>x. x) ot oid ver previous es"
proof -
  note act = buildMutation_active(1-4) [OF assms(1-3), where ver = ver]
  note act' = buildMutation_active(1-4) [OF refl assms(2,3), where ver = ver]
  have "mu_Active m = mu_Active (buildMutation (\<lambda>x. x) ot oid ver previous es)"
    unfolding assms(4)
  proof (rule class_order.in_order_unique)
    show "mset (mu_Active (buildMutation ord ot oid ver previous es)) =
        mset (mu_Active (buildMutation (\<lambda>x. x) ot oid ver previous es))"
    proof (rule set_eq_iff_mset_eq_distinct [THEN iffD1])
      show "distinct (mu_Active (buildMutation ord ot oid ver previous es))"
        "distinct (mu_Active (buildMutation (\<lambda>x. x) ot oid ver previous es))"
        using act(2) act'(2) by (blast dest: distinct_map [THEN iffD1])+
      show "set (mu_Active (buildMutation ord ot oid ver previous es)) =
          set (mu_Active (buildMutation (\<lambda>x. x) ot oid ver previous es))"
        unfolding act(4) act'(4) ..
    qed
    show "in_order incident_class_less (mu_Active (buildMutation ord ot oid ver previous es))"
      "in_order incident_class_less (mu_Active (buildMutation (\<lambda>x. x) ot oid ver previous es))"
      by (rule strict_in_order, rule act(3)) (rule strict_in_order, rule act'(3))
    show "a = b" if "a \<in> set (mu_Active (buildMutation ord ot oid ver previous es))"
      "b \<in> set (mu_Active (buildMutation ord ot oid ver previous es))"
      "\<not> incident_class_less a b" "\<not> incident_class_less b a" for a b
    proof -
      have "inc_IncidentClass a = inc_IncidentClass b" using that(3,4) by (simp add: incident_class_less_def)
      thus ?thesis using that(1,2) unfolding act(4) by simp
    qed
  qed
  hence eq: "m = buildMutation (\<lambda>x. x) ot oid ver previous es"
    by (intro IncidentMutation.equality) (simp_all add: assms(4) buildMutation_fields)
  have "incidents_ok ot oid (mu_Active m)"
    using buildMutation_ok [OF assms(1-3), of ver] unfolding assms(4) mutation_ok_def by blast
  moreover have "sorted_wrt incident_class_less (mu_Active m)" using act(3) unfolding assms(4) .
  moreover have "active_in (mu_Active m) c = (case evaluated es c of None \<Rightarrow> active_in previous c
      | Some r \<Rightarrow> after_result (active_in previous c) r)" for c
    using act(1) [of c] unfolding assms(4) class_after_def .
  moreover have "mu_Events m = concat (map (\<lambda>e. event_list (ce_result e)) es)"
    unfolding assms(4) by (rule buildMutation_fields)
  ultimately show ?thesis using eq by (intro conjI allI)
qed

text \<open>
  (C27) An administrative close leaves no active incident and writes exactly one closing event for every
  incident that was active, with its identity, severity and class.  Each of the events passes the
  metadata contract, and for every class the log ends closed.
\<close>

theorem administrative_close_complete:
  assumes "incident_object ot" and "incidents_ok ot oid previous"
    and "m = buildAdministrativeRecoveryMutation ot oid ver previous now summary"
  shows "mu_Active m = [] \<and> map ev_IncidentID (mu_Events m) = map inc_IncidentID previous \<and>
    map ev_IncidentClass (mu_Events m) = map inc_IncidentClass previous \<and>
    map ev_Severity (mu_Events m) = map inc_Severity previous \<and>
    list_all event_metadata_ok (mu_Events m) \<and>
    (\<forall>c. log_state (active_in previous c \<noteq> None) (filter (\<lambda>e. ev_IncidentClass e = c) (mu_Events m)) = Some False)"
proof -
  have m: "mu_Events m = map (closedByManagementEvent ot oid now summary) previous" "mu_Active m = []"
    by (simp_all add: assms(3) buildAdministrativeRecoveryMutation_def)
  have f: "ev_IncidentID (closedByManagementEvent ot oid now summary p) = inc_IncidentID p"
    "ev_IncidentClass (closedByManagementEvent ot oid now summary p) = inc_IncidentClass p"
    "ev_Severity (closedByManagementEvent ot oid now summary p) = inc_Severity p" for p
    by (simp_all add: closedByManagementEvent_def)
  have "list_all (\<lambda>e. event_for ot oid (ev_IncidentClass e) e) (mu_Events m)"
    using administrative_ok [OF assms(1,2)] unfolding assms(3) mutation_ok_def by blast
  hence "list_all event_metadata_ok (mu_Events m)" by (rule list.pred_mono_strong) (simp add: event_for_def)
  moreover have "distinct (map inc_IncidentClass previous)" using assms(2) by (simp add: incidents_ok_def)
  ultimately show ?thesis unfolding m(1) using log_closes m(2) by (simp add: comp_def f)
qed

section \<open>Concrete mutations\<close>

definition sample_previous :: "IncidentRecord list" where
  "sample_previous = [sample_incident IncidentMonitoringInstanceHeartbeatMissing SeverityAlert,
     sample_incident IncidentMonitoringInstanceDiskPressure SeverityNotice]"

definition sample_evaluations :: "classEvaluation list" where
  "sample_evaluations =
     [\<lparr> ce_class = IncidentMonitoringInstanceHeartbeatMissing,
        ce_result = recoverIfNeeded (active_in sample_previous IncidentMonitoringInstanceHeartbeatMissing)
          (60 * second) ''ok'' MonitoringEventProvenanceCenter False \<rparr>,
      \<lparr> ce_class = IncidentMonitoringInstanceInodePressure,
        ce_result = evaluateTransition (active_in sample_previous IncidentMonitoringInstanceInodePressure)
          ObjectTypeMonitoringInstance ''mi'' IncidentMonitoringInstanceInodePressure SeverityCritical
          (60 * second) ''inodes'' MonitoringEventProvenanceAgentSync \<rparr>]"

lemma sample_previous_ok: "incidents_ok ObjectTypeMonitoringInstance ''mi'' sample_previous"
  by code_simp

lemma sample_evaluations_ok: "evaluations_ok ObjectTypeMonitoringInstance ''mi'' sample_previous sample_evaluations"
  by code_simp

theorem buildMutation_refines_witness:
  "active_in (mu_Active (buildMutation rev ObjectTypeMonitoringInstance ''mi'' ''7'' sample_previous sample_evaluations))
     IncidentMonitoringInstanceHeartbeatMissing = None \<and>
   map_option inc_Severity (active_in (mu_Active (buildMutation rev ObjectTypeMonitoringInstance ''mi'' ''7''
     sample_previous sample_evaluations)) IncidentMonitoringInstanceInodePressure) = Some SeverityCritical \<and>
   map_option inc_Severity (active_in (mu_Active (buildMutation rev ObjectTypeMonitoringInstance ''mi'' ''7''
     sample_previous sample_evaluations)) IncidentMonitoringInstanceDiskPressure) = Some SeverityNotice"
proof -
  have act: "active_in (mu_Active (buildMutation rev ObjectTypeMonitoringInstance ''mi'' ''7'' sample_previous sample_evaluations)) c =
      (case evaluated sample_evaluations c of None \<Rightarrow> active_in sample_previous c
       | Some r \<Rightarrow> after_result (active_in sample_previous c) r)" for c
    using buildMutation_refines [OF mset_rev sample_previous_ok sample_evaluations_ok refl, of "''7''"] by blast
  show ?thesis unfolding act by code_simp
qed

theorem administrative_close_complete_witness:
  "mu_Active (buildAdministrativeRecoveryMutation ObjectTypeMonitoringInstance ''mi'' ''7'' sample_previous 90 ''x'') = [] \<and>
   map ev_IncidentClass (mu_Events (buildAdministrativeRecoveryMutation ObjectTypeMonitoringInstance ''mi'' ''7''
     sample_previous 90 ''x'')) = [IncidentMonitoringInstanceHeartbeatMissing, IncidentMonitoringInstanceDiskPressure]"
  using administrative_close_complete [OF _ sample_previous_ok refl, of "''7''" 90 "''x''"]
  by (simp add: sample_previous_def sample_incident_def)

end
