(* ===== verification/Incident_Notify.thy ===== *)
theory Incident_Notify
  imports Incident_Mutation
begin

text \<open>
  Incident notifications, from \<open>internal/center/incidents/service.go\<close>: the dispatcher that reads the
  notification settings and sends through Telegram and Feishu, the text of a notification with the
  sanitised name of the monitoring instance, and the notification records the service appends after a
  mutation was committed.  A transport is a function from the text to its error; the settings source,
  the transports, the results of a dispatch and the clock readings are arguments.
\<close>

section \<open>Dispatch\<close>

record NotificationDelivery =
  dl_Channel :: NotificationChannel
  dl_Status :: DeliveryStatus
  dl_Error :: "serviceError option"

type_synonym Notifier = "string \<Rightarrow> serviceError option"

record settingsAwareNotifier =
  sn_settingsSource :: "(serviceError + NotificationSettings) option"
  sn_newTelegramNotifier :: "(string \<Rightarrow> string \<Rightarrow> Notifier option) option"
  sn_newFeishuNotifier :: "(string \<Rightarrow> Notifier option) option"

definition notificationSettings :: "settingsAwareNotifier \<Rightarrow> serviceError + NotificationSettings" where
  "notificationSettings n =
     (case sn_settingsSource n of
        None \<Rightarrow> Inl errNotificationSettingsUnavailable
      | Some (Inl _) \<Rightarrow> Inl errNotificationSettingsUnavailable
      | Some (Inr settings) \<Rightarrow> Inr settings)"

definition dispatchWithNotifier :: "NotificationChannel \<Rightarrow> Notifier option \<Rightarrow> string \<Rightarrow> NotificationDelivery" where
  "dispatchWithNotifier channel notifier summary =
     (case notifier of
        None \<Rightarrow> \<lparr> dl_Channel = channel, dl_Status = DeliveryStatusSuppressed, dl_Error = Some errNotificationSuppressed \<rparr>
      | Some send \<Rightarrow>
          (case send summary of
             Some err \<Rightarrow>
               if errors_Is err errNotificationSuppressed
               then \<lparr> dl_Channel = channel, dl_Status = DeliveryStatusSuppressed, dl_Error = Some err \<rparr>
               else \<lparr> dl_Channel = channel, dl_Status = DeliveryStatusFailed, dl_Error = Some err \<rparr>
           | None \<Rightarrow> \<lparr> dl_Channel = channel, dl_Status = DeliveryStatusSent, dl_Error = None \<rparr>))"

definition failedDelivery :: "NotificationChannel \<Rightarrow> string \<Rightarrow> NotificationDelivery" where
  "failedDelivery channel message =
     \<lparr> dl_Channel = channel, dl_Status = DeliveryStatusFailed, dl_Error = Some (NewError message) \<rparr>"

definition dispatchTelegram :: "settingsAwareNotifier \<Rightarrow> string \<Rightarrow> TelegramSettings \<Rightarrow> NotificationDelivery" where
  "dispatchTelegram n summary telegram =
     (if \<not> Telegram_Enabled telegram then
        \<lparr> dl_Channel = NotificationChannelTelegram, dl_Status = DeliveryStatusSuppressed,
          dl_Error = Some errNotificationSuppressed \<rparr>
      else case sn_newTelegramNotifier n of
        None \<Rightarrow> failedDelivery NotificationChannelTelegram ''telegram notifier factory is nil''
      | Some factory \<Rightarrow>
          (case factory (tg_BotToken telegram) (tg_ChatID telegram) of
             None \<Rightarrow> failedDelivery NotificationChannelTelegram ''telegram notifier is nil''
           | Some notifier \<Rightarrow> dispatchWithNotifier NotificationChannelTelegram (Some notifier) summary))"

definition dispatchFeishu :: "settingsAwareNotifier \<Rightarrow> string \<Rightarrow> string \<Rightarrow> NotificationDelivery" where
  "dispatchFeishu n summary webhookURL =
     (case sn_newFeishuNotifier n of
        None \<Rightarrow> failedDelivery NotificationChannelFeishu ''feishu notifier factory is nil''
      | Some factory \<Rightarrow>
          (case factory webhookURL of
             None \<Rightarrow> failedDelivery NotificationChannelFeishu ''feishu notifier is nil''
           | Some notifier \<Rightarrow> dispatchWithNotifier NotificationChannelFeishu (Some notifier) summary))"

definition feishuConfigured :: "NotificationSettings \<Rightarrow> bool" where
  "feishuConfigured settings \<longleftrightarrow> nst_FeishuEnabled settings \<and> TrimSpace (nst_FeishuWebhookURL settings) \<noteq> []"

definition Dispatch :: "settingsAwareNotifier \<Rightarrow> string \<Rightarrow> NotificationDelivery list" where
  "Dispatch n summary =
     (case notificationSettings n of
        Inl err \<Rightarrow>
          [\<lparr> dl_Channel = NotificationChannelTelegram, dl_Status = DeliveryStatusFailed, dl_Error = Some err \<rparr>]
      | Inr settings \<Rightarrow>
          let deliveries =
                (if Telegram_Enabled (nst_Telegram settings)
                 then [dispatchTelegram n summary (nst_Telegram settings)] else []) @
                (if feishuConfigured settings
                 then [dispatchFeishu n summary (nst_FeishuWebhookURL settings)] else [])
          in if deliveries = [] then
               [\<lparr> dl_Channel = NotificationChannelTelegram, dl_Status = DeliveryStatusSuppressed,
                  dl_Error = Some errNotificationSuppressed \<rparr>]
             else deliveries)"

definition uniqueNotificationChannels :: "NotificationChannel list \<Rightarrow> NotificationChannel list" where
  "uniqueNotificationChannels channels =
     keep_first {} (filter (\<lambda>channel. channel \<noteq> NotificationChannelOther []) channels)"

definition NotificationChannels :: "settingsAwareNotifier \<Rightarrow> NotificationChannel list" where
  "NotificationChannels n =
     (case notificationSettings n of
        Inl _ \<Rightarrow> []
      | Inr settings \<Rightarrow> uniqueNotificationChannels
          ((if Telegram_Enabled (nst_Telegram settings) then [NotificationChannelTelegram] else []) @
           (if feishuConfigured settings then [NotificationChannelFeishu] else [])))"

text \<open>The loop of \<open>dispatchError\<close> over the deliveries, with its variables \<open>lastErr\<close> and \<open>sent\<close>.\<close>

fun dispatchErrorLoop ::
    "serviceError option \<Rightarrow> bool \<Rightarrow> NotificationDelivery list \<Rightarrow> serviceError option \<times> bool" where
  "dispatchErrorLoop lastErr sent [] = (lastErr, sent)"
| "dispatchErrorLoop lastErr sent (delivery # rest) =
     (case dl_Status delivery of
        DeliveryStatusFailed \<Rightarrow> dispatchErrorLoop (dl_Error delivery) sent rest
      | DeliveryStatusSent \<Rightarrow> dispatchErrorLoop lastErr True rest
      | DeliveryStatusSuppressed \<Rightarrow>
          dispatchErrorLoop (if lastErr = None then dl_Error delivery else lastErr) sent rest
      | _ \<Rightarrow> dispatchErrorLoop lastErr sent rest)"

definition dispatchError :: "NotificationDelivery list \<Rightarrow> serviceError option" where
  "dispatchError deliveries =
     (let (lastErr, sent) = dispatchErrorLoop None False deliveries in
      if sent \<and> (case lastErr of None \<Rightarrow> True | Some err \<Rightarrow> errors_Is err errNotificationSuppressed)
      then None else lastErr)"

definition Send :: "settingsAwareNotifier \<Rightarrow> string \<Rightarrow> serviceError option" where
  "Send n summary = dispatchError (Dispatch n summary)"

text \<open>The dispatcher of a single transport, used when the notifier is not a dispatcher itself.\<close>

record notifierDispatcher =
  no_channel :: NotificationChannel
  no_notifier :: "Notifier option"

definition notifierDispatcher_NotificationChannels :: "notifierDispatcher \<Rightarrow> NotificationChannel list" where
  "notifierDispatcher_NotificationChannels d = (case no_notifier d of None \<Rightarrow> [] | Some _ \<Rightarrow> [no_channel d])"

definition notifierDispatcher_Dispatch :: "notifierDispatcher \<Rightarrow> string \<Rightarrow> NotificationDelivery list" where
  "notifierDispatcher_Dispatch d summary =
     (case no_notifier d of
        None \<Rightarrow> [\<lparr> dl_Channel = no_channel d, dl_Status = DeliveryStatusSuppressed,
                  dl_Error = Some errNotificationSuppressed \<rparr>]
      | Some notifier \<Rightarrow> [dispatchWithNotifier (no_channel d) (Some notifier) summary])"

section \<open>The text of a notification\<close>

definition isBidiControl :: "nat \<Rightarrow> bool" where
  "isBidiControl r \<longleftrightarrow> r = 0x061C \<or> r = 0x200E \<or> r = 0x200F \<or> (0x202A \<le> r \<and> r \<le> 0x202E) \<or> (0x2066 \<le> r \<and> r \<le> 0x2069)"

definition maxHeartbeatNotificationDisplayNameRunes :: nat where
  "maxHeartbeatNotificationDisplayNameRunes = 80"

text \<open>
  \<open>strings.Map\<close> drops the code points the mapping sends to a negative value and encodes the others,
  which replaces bytes that are not UTF-8 by the replacement character.
\<close>

definition displayRune :: "nat \<Rightarrow> nat list" where
  "displayRune r = (if isBidiControl r then [] else if IsControl r \<or> IsSpace r then [0x20] else [r])"

definition sanitizeHeartbeatNotificationDisplayName :: "string \<Rightarrow> string" where
  "sanitizeHeartbeatNotificationDisplayName v =
     (let v = utf8 (concat (map displayRune (runes v)));
          v = utf8 (join_runes [0x20] (fields_of [] (runes v)))
      in if v = [] then []
         else
           let rs = runes v in
           if length rs \<le> maxHeartbeatNotificationDisplayNameRunes then v
           else
             let prefix = TrimSpace (utf8 (take (maxHeartbeatNotificationDisplayNameRunes - 1) rs)) in
             if prefix = [] then [] else prefix @ utf8 [0x2026])"

definition heartbeatEventLabel :: "NotificationReason \<Rightarrow> string option" where
  "heartbeatEventLabel reason =
     (case reason of
        NotificationReasonStarted \<Rightarrow> Some (utf8 [0x5FC3, 0x8DF3, 0x5931, 0x8054])
      | NotificationReasonEscalated \<Rightarrow> Some (utf8 [0x5FC3, 0x8DF3, 0x5931, 0x8054, 0x5347, 0x7EA7])
      | NotificationReasonRecovered \<Rightarrow> Some (utf8 [0x5FC3, 0x8DF3, 0x6062, 0x590D])
      | _ \<Rightarrow> None)"

definition incidentNotificationDeliverySummary ::
    "classEvaluation \<Rightarrow> ObjectType \<Rightarrow> string \<Rightarrow> NotificationDecision option \<Rightarrow>
     MonitoringInstanceRecord option \<Rightarrow> string" where
  "incidentNotificationDeliverySummary evaluation objectType objectID decision monitoringInstance =
     (case decision of
        None \<Rightarrow> []
      | Some d \<Rightarrow>
          if objectType \<noteq> ObjectTypeMonitoringInstance \<or>
             ce_class evaluation \<noteq> IncidentMonitoringInstanceHeartbeatMissing then nd_Summary d
          else case heartbeatEventLabel (nd_Reason d) of
              None \<Rightarrow> nd_Summary d
            | Some eventLabel \<Rightarrow>
                let displayName =
                      (case monitoringInstance of
                         None \<Rightarrow> (utf8 [0x672A, 0x547D, 0x540D, 0x76D1, 0x63A7, 0x5B9E, 0x4F8B])
                       | Some mi \<Rightarrow>
                           if mi_MonitoringInstanceID mi = objectID \<and>
                              sanitizeHeartbeatNotificationDisplayName (mi_DisplayName mi) \<noteq> []
                           then sanitizeHeartbeatNotificationDisplayName (mi_DisplayName mi)
                           else (utf8 [0x672A, 0x547D, 0x540D, 0x76D1, 0x63A7, 0x5B9E, 0x4F8B]))
                in (utf8 [0x56, 0x50, 0x53, 0x2F, 0x76D1, 0x63A7, 0x5B9E, 0x4F8B, 0xFF1A]) @ displayName @ (utf8 [0xFF08]) @ objectID @ (utf8 [0xFF09]) @ utf8 [0x0A] @
                   (utf8 [0x4E8B, 0x4EF6, 0xFF1A]) @ eventLabel @ utf8 [0x0A] @ (utf8 [0x8BE6, 0x60C5, 0xFF1A]) @ nd_Summary d)"

section \<open>Notification records\<close>

definition incidentIdentity :: "classEvaluation \<Rightarrow> string" where
  "incidentIdentity evaluation =
     (case er_Current (ce_result evaluation) of
        Some current \<Rightarrow> inc_IncidentID current
      | None \<Rightarrow> (case er_Event (ce_result evaluation) of Some e \<Rightarrow> ev_IncidentID e | None \<Rightarrow> []))"

definition notificationRecordBase ::
    "classEvaluation \<Rightarrow> ObjectType \<Rightarrow> string \<Rightarrow> NotificationDecision \<Rightarrow> NotificationRecordWrite" where
  "notificationRecordBase evaluation objectType objectID decision =
     \<lparr> nr_IncidentID = incidentIdentity evaluation,
       nr_ObjectType = objectType,
       nr_ObjectID = objectID,
       nr_Channel = (if nd_Channel decision = NotificationChannelOther [] then NotificationChannelTelegram
         else nd_Channel decision),
       nr_DeliveryStatus = DeliveryStatusSuppressed,
       nr_Summary = nd_Summary decision,
       nr_SentAt = None \<rparr>"

text \<open>The clock is read once for every sent delivery; \<open>clock i\<close> is its reading at delivery \<open>i\<close>.\<close>

definition notificationRecordFromDelivery ::
    "NotificationRecordWrite \<Rightarrow> time \<Rightarrow> NotificationDelivery \<Rightarrow> NotificationRecordWrite" where
  "notificationRecordFromDelivery base now delivery =
     (let record = (if dl_Channel delivery \<noteq> NotificationChannelOther []
            then base\<lparr> nr_Channel := dl_Channel delivery \<rparr> else base);
          record = record\<lparr> nr_DeliveryStatus := (if dl_Status delivery = DeliveryStatusOther []
            then DeliveryStatusFailed else dl_Status delivery) \<rparr>
      in if nr_DeliveryStatus record = DeliveryStatusSent then record\<lparr> nr_SentAt := Some now \<rparr> else record)"

definition notificationRecordsFromDeliveries ::
    "(nat \<Rightarrow> time) \<Rightarrow> NotificationRecordWrite \<Rightarrow> NotificationDelivery list \<Rightarrow> NotificationRecordWrite list" where
  "notificationRecordsFromDeliveries clock base deliveries =
     (if deliveries = [] then [base]
      else map (\<lambda>(i, delivery). notificationRecordFromDelivery base (clock i) delivery)
        (enumerate 0 deliveries))"

text \<open>
  A dispatcher as the service sees it: the deliveries of the dispatch for the evaluation with the
  given index, and the channels it resolves, if it can.
\<close>

record NotificationDispatcher =
  nd_Dispatch :: "nat \<Rightarrow> string \<Rightarrow> NotificationDelivery list"
  nd_NotificationChannels :: "(nat \<Rightarrow> NotificationChannel list) option"

definition suppressedNotificationRecords ::
    "NotificationDispatcher option \<Rightarrow> nat \<Rightarrow> NotificationRecordWrite \<Rightarrow> NotificationRecordWrite list" where
  "suppressedNotificationRecords dispatcher i base =
     (let channels =
            (case dispatcher of
               None \<Rightarrow> []
             | Some d \<Rightarrow> (case nd_NotificationChannels d of None \<Rightarrow> [] | Some resolve \<Rightarrow> resolve i));
          channels = (if channels = [] then [nr_Channel base] else channels)
      in map (\<lambda>channel. base\<lparr> nr_Channel := channel, nr_DeliveryStatus := DeliveryStatusSuppressed \<rparr>)
           (uniqueNotificationChannels channels))"

definition evaluationRecords ::
    "NotificationDispatcher option \<Rightarrow> (nat \<Rightarrow> nat \<Rightarrow> time) \<Rightarrow> ObjectType \<Rightarrow> string \<Rightarrow> notificationPolicy \<Rightarrow>
     MonitoringInstanceRecord option \<Rightarrow> nat \<Rightarrow> classEvaluation \<Rightarrow> NotificationRecordWrite list" where
  "evaluationRecords dispatcher clock objectType objectID policy monitoringInstance i evaluation =
     (case er_Notification (ce_result evaluation) of
        None \<Rightarrow> []
      | Some decision \<Rightarrow>
          let deliverySummary = incidentNotificationDeliverySummary evaluation objectType objectID
                (Some decision) monitoringInstance;
              base = (notificationRecordBase evaluation objectType objectID decision)\<lparr> nr_Summary := deliverySummary \<rparr>;
              shouldSend = (nd_ShouldSend decision \<and> notificationPolicy_enabled policy (nd_Reason decision))
          in case dispatcher of
               Some d \<Rightarrow>
                 if shouldSend
                 then notificationRecordsFromDeliveries (clock i) base (nd_Dispatch d i deliverySummary)
                 else suppressedNotificationRecords dispatcher i base
             | None \<Rightarrow> suppressedNotificationRecords dispatcher i base)"

text \<open>
  \<open>appendNotificationRecordsWithPolicy\<close>: the records it passes to the writer, and its error.  Nothing is
  written when there is no record.
\<close>

definition appendNotificationRecordsWithPolicy ::
    "NotificationDispatcher option \<Rightarrow> (nat \<Rightarrow> nat \<Rightarrow> time) \<Rightarrow> (NotificationRecordWrite list \<Rightarrow> serviceError option) \<Rightarrow>
     ObjectType \<Rightarrow> string \<Rightarrow> classEvaluation list \<Rightarrow> notificationPolicy \<Rightarrow> MonitoringInstanceRecord option \<Rightarrow>
     NotificationRecordWrite list \<times> serviceError option" where
  "appendNotificationRecordsWithPolicy dispatcher clock write objectType objectID evaluations policy monitoringInstance =
     (let records = concat (map (\<lambda>(i, evaluation). evaluationRecords dispatcher clock objectType objectID policy
            monitoringInstance i evaluation) (enumerate 0 evaluations))
      in if records = [] then ([], None)
         else (case write records of Some err \<Rightarrow> ([], Some err) | None \<Rightarrow> (records, None)))"

section \<open>The outcome of a dispatch\<close>

text \<open>Every delivery of the dispatcher says why it was not sent.\<close>

definition delivery_ok :: "NotificationDelivery \<Rightarrow> bool" where
  "delivery_ok d \<longleftrightarrow>
     (case dl_Status d of
        DeliveryStatusSent \<Rightarrow> dl_Error d = None
      | DeliveryStatusFailed \<Rightarrow> (\<exists>e. dl_Error d = Some e \<and> \<not> errors_Is e errNotificationSuppressed)
      | DeliveryStatusSuppressed \<Rightarrow> (\<exists>e. dl_Error d = Some e \<and> errors_Is e errNotificationSuppressed)
      | _ \<Rightarrow> False)"

lemma dispatchWithNotifier_ok: "delivery_ok (dispatchWithNotifier channel notifier summary)"
  by (auto simp: delivery_ok_def dispatchWithNotifier_def split: option.split)

lemma Dispatch_ok: "list_all delivery_ok (Dispatch n summary)"
proof -
  have f: "delivery_ok (failedDelivery c m)" for c m by (simp add: delivery_ok_def failedDelivery_def)
  have "delivery_ok (dispatchTelegram n summary t)" for t
    using f by (auto simp: dispatchTelegram_def dispatchWithNotifier_ok delivery_ok_def [of "\<lparr> dl_Channel = _, dl_Status = _, dl_Error = _ \<rparr>"]
        split: option.split)
  moreover have "delivery_ok (dispatchFeishu n summary u)" for u
    using f by (auto simp: dispatchFeishu_def dispatchWithNotifier_ok split: option.split)
  moreover have "delivery_ok \<lparr> dl_Channel = c, dl_Status = DeliveryStatusFailed, dl_Error = Some errNotificationSettingsUnavailable \<rparr>"
    "delivery_ok \<lparr> dl_Channel = c, dl_Status = DeliveryStatusSuppressed, dl_Error = Some errNotificationSuppressed \<rparr>" for c
    by (simp_all add: delivery_ok_def)
  moreover have "err = errNotificationSettingsUnavailable" if "notificationSettings n = Inl err" for err
    using that by (auto simp: notificationSettings_def split: option.splits sum.splits)
  ultimately show ?thesis by (auto simp: Dispatch_def Let_def split: sum.split)
qed

lemma Dispatch_nonempty: "Dispatch n summary \<noteq> []"
  by (simp add: Dispatch_def Let_def split: sum.split)

lemma dispatchErrorLoop_sent:
  "snd (dispatchErrorLoop lastErr sent ds) \<longleftrightarrow> sent \<or> (\<exists>d \<in> set ds. dl_Status d = DeliveryStatusSent)"
  by (induction ds arbitrary: lastErr sent) (auto split: DeliveryStatus.split)

lemma dispatchErrorLoop_failed:
  assumes "list_all delivery_ok ds"
    and "(\<exists>e. lastErr = Some e \<and> \<not> errors_Is e errNotificationSuppressed) \<or> (\<exists>d \<in> set ds. dl_Status d = DeliveryStatusFailed)"
  shows "\<exists>e. fst (dispatchErrorLoop lastErr sent ds) = Some e \<and> \<not> errors_Is e errNotificationSuppressed"
  using assms
proof (induction ds arbitrary: lastErr sent)
  case (Cons d ds)
  show ?case
  proof (cases "dl_Status d")
    case DeliveryStatusFailed
    then obtain e where "dl_Error d = Some e" "\<not> errors_Is e errNotificationSuppressed"
      using Cons.prems(1) by (auto simp: delivery_ok_def)
    thus ?thesis using Cons DeliveryStatusFailed by simp
  next
    case DeliveryStatusSuppressed
    thus ?thesis using Cons.prems by (auto intro!: Cons.IH)
  qed (use Cons in auto)
qed simp

lemma dispatchErrorLoop_quiet:
  assumes "list_all delivery_ok ds"
    and "\<forall>e. lastErr = Some e \<longrightarrow> errors_Is e errNotificationSuppressed"
    and "\<forall>d \<in> set ds. dl_Status d \<noteq> DeliveryStatusFailed"
    and "fst (dispatchErrorLoop lastErr sent ds) = Some e"
  shows "errors_Is e errNotificationSuppressed"
  using assms
proof (induction ds arbitrary: lastErr sent)
  case (Cons d ds)
  show ?case
  proof (cases "dl_Status d")
    case DeliveryStatusSuppressed
    then obtain e' where "dl_Error d = Some e'" "errors_Is e' errNotificationSuppressed"
      using Cons.prems(1) by (auto simp: delivery_ok_def)
    thus ?thesis using Cons DeliveryStatusSuppressed by (auto split: if_splits)
  qed (use Cons in auto)
qed simp

text \<open>
  (C29) Sending succeeds exactly when at least one configured channel delivered the notification and none
  failed.  A suppressed channel does not turn the delivery by another one into an error; without any
  delivery the caller gets the reason.
\<close>

theorem Send_succeeds_iff:
  "Send n summary = None \<longleftrightarrow>
     (\<exists>d \<in> set (Dispatch n summary). dl_Status d = DeliveryStatusSent) \<and>
     (\<forall>d \<in> set (Dispatch n summary). dl_Status d \<noteq> DeliveryStatusFailed)"
proof -
  define ds where "ds = Dispatch n summary"
  obtain lastErr sent where loop: "dispatchErrorLoop None False ds = (lastErr, sent)" by fastforce
  have ok: "list_all delivery_ok ds" unfolding ds_def by (rule Dispatch_ok)
  have sent: "sent \<longleftrightarrow> (\<exists>d \<in> set ds. dl_Status d = DeliveryStatusSent)"
    using dispatchErrorLoop_sent [of None False ds] loop by simp
  have failed: "\<exists>e. lastErr = Some e \<and> \<not> errors_Is e errNotificationSuppressed"
    if "\<exists>d \<in> set ds. dl_Status d = DeliveryStatusFailed"
    using dispatchErrorLoop_failed [OF ok, of None False] that loop by simp
  have quiet: "\<forall>e. lastErr = Some e \<longrightarrow> errors_Is e errNotificationSuppressed"
    if "\<forall>d \<in> set ds. dl_Status d \<noteq> DeliveryStatusFailed"
    using dispatchErrorLoop_quiet [OF ok _ that, of None False] loop by simp
  have result: "Send n summary = (if sent \<and> (\<forall>e. lastErr = Some e \<longrightarrow> errors_Is e errNotificationSuppressed)
      then None else lastErr)"
    unfolding Send_def dispatchError_def ds_def [symmetric] loop by (simp split: option.split)
  have "lastErr \<noteq> None" if none: "\<not> sent"
  proof (cases "\<exists>d \<in> set ds. dl_Status d = DeliveryStatusFailed")
    case True
    thus ?thesis using failed by auto
  next
    case False
    then obtain d rest where ds: "ds = d # rest" "dl_Status d = DeliveryStatusSuppressed" "dl_Error d \<noteq> None"
      using Dispatch_nonempty [of n summary] ok none sent unfolding ds_def [symmetric]
      by (cases ds) (auto simp: delivery_ok_def split: DeliveryStatus.splits)
    have "fst (dispatchErrorLoop le s xs) \<noteq> None" if "le \<noteq> None" "\<forall>x \<in> set xs. dl_Status x \<noteq> DeliveryStatusFailed" for le s xs
      using that by (induction xs arbitrary: le s) (auto split: DeliveryStatus.splits)
    from this [of "dl_Error d" rest False] show ?thesis using loop ds False by auto
  qed
  thus ?thesis unfolding ds_def [symmetric] result using sent failed quiet by auto
qed

section \<open>The display name\<close>

definition fix_rune :: "nat \<Rightarrow> nat" where
  "fix_rune c = (if valid_rune c then c else runeError)"

lemma runes_utf8_any: "runes (utf8 cs) = map fix_rune cs"
proof -
  have "encode_rune (fix_rune c) = encode_rune c" for c
    by (simp add: encode_rune_def fix_rune_def runeError_valid)
  hence "utf8 cs = utf8 (map fix_rune cs)" by (simp add: utf8_def comp_def)
  also have "runes \<dots> = map fix_rune cs"
    by (rule runes_utf8) (auto simp: fix_rune_def runeError_valid)
  finally show ?thesis .
qed

lemma utf8_append: "utf8 (xs @ ys) = utf8 xs @ utf8 ys"
  by (simp add: utf8_def)

lemma TrimSpace_utf8:
  assumes "\<forall>c \<in> set cs. valid_rune c"
  shows "TrimSpace (utf8 cs) = utf8 (trim_list IsSpace cs)"
proof -
  have "\<forall>c \<in> set (trim_list IsSpace cs). valid_rune c" using assms trim_list_subset by fastforce
  hence eq: "map encode_rune (trim_list IsSpace cs) = map rune_bytes (trim_list IsSpace cs)"
    by (simp add: encode_rune_def)
  show ?thesis
    unfolding TrimSpace_def bytes_of_utf8 [OF assms] segments_encode [OF assms]
    by (simp only: trim_list_map utf8_def eq map_map comp_def fst_conv snd_conv)
qed

lemma set_fields_of: "\<Union> (set ` set (fields_of acc rs)) \<subseteq> set acc \<union> set rs"
  by (induction acc rs rule: fields_of.induct) auto

lemma set_join_runes: "set (join_runes sep fs) \<subseteq> set sep \<union> \<Union> (set ` set fs)"
  by (induction sep fs rule: join_runes.induct) auto

definition plain_rune :: "nat \<Rightarrow> bool" where
  "plain_rune r \<longleftrightarrow> valid_rune r \<and> \<not> IsControl r \<and> \<not> isBidiControl r \<and> (IsSpace r \<longrightarrow> r = 0x20)"

lemma displayRune_plain: "r \<in> set (displayRune x) \<Longrightarrow> plain_rune (fix_rune r)"
  by (auto simp: displayRune_def plain_rune_def fix_rune_def runeError_def valid_rune_def
      IsControl_def isBidiControl_def IsSpace_def split: if_splits)

lemma utf8_Nil_iff: "utf8 cs = [] \<longleftrightarrow> cs = []"
  by (cases cs) (simp_all add: utf8_def encode_rune_def rune_bytes_nonempty)

text \<open>
  (C30) Whatever bytes a display name holds, the name put into a heartbeat notification has at most 80
  code points, none of them a control character, a line break or a bidirectional control, and no white
  space but the blank.  A display name can therefore not add lines to a notification or reorder its
  text.
\<close>

theorem display_name_safe:
  assumes "r \<in> set (runes (sanitizeHeartbeatNotificationDisplayName v))"
  shows "length (runes (sanitizeHeartbeatNotificationDisplayName v)) \<le> 80 \<and>
    \<not> IsControl r \<and> \<not> isBidiControl r \<and> (r = 0x20 \<or> \<not> IsSpace r)"
proof -
  define cs where "cs = map fix_rune (concat (map displayRune (runes v)))"
  define ds where "ds = join_runes [0x20] (fields_of [] cs)"
  have "\<forall>c \<in> set cs. plain_rune c" unfolding cs_def using displayRune_plain by auto
  moreover have "set ds \<subseteq> {0x20} \<union> set cs"
    using set_fields_of [of "[]" cs] set_join_runes [of "[0x20]" "fields_of [] cs"] unfolding ds_def
    by (simp only: list.set Un_empty_left Un_empty_right) blast
  moreover have "plain_rune 0x20"
    by (simp add: plain_rune_def valid_rune_def IsControl_def isBidiControl_def IsSpace_def)
  ultimately have plain: "\<forall>c \<in> set ds. plain_rune c" by auto
  hence valid: "\<forall>c \<in> set ds. valid_rune c" by (simp add: plain_rune_def)
  hence rds: "runes (utf8 ds) = ds" by (rule runes_utf8)
  define s where "s = sanitizeHeartbeatNotificationDisplayName v"
  have s: "s = (if utf8 ds = [] then [] else if length ds \<le> 80 then utf8 ds
      else let prefix = TrimSpace (utf8 (take 79 ds)) in if prefix = [] then [] else prefix @ utf8 [0x2026])"
    unfolding s_def sanitizeHeartbeatNotificationDisplayName_def Let_def runes_utf8_any cs_def [symmetric] ds_def [symmetric]
    using rds by (simp add: runes_utf8_any maxHeartbeatNotificationDisplayNameRunes_def)
  have ne: "s \<noteq> []" using assms unfolding s_def [symmetric] by (auto simp: runes_def bytes_of_def)
  show ?thesis
  proof (cases "length ds \<le> 80")
    case True
    hence "s = utf8 ds" using s ne by (simp split: if_splits)
    thus ?thesis using assms rds plain True unfolding s_def [symmetric] by (auto simp: plain_rune_def)
  next
    case False
    define ts where "ts = trim_list IsSpace (take 79 ds)"
    have sub: "set ts \<subseteq> set ds"
      unfolding ts_def using trim_list_subset [of IsSpace "take 79 ds"] set_take_subset [of 79 ds] by blast
    have "length ts \<le> 79"
      unfolding ts_def trim_list_def using length_dropWhile_le [of IsSpace "take 79 ds"]
        length_dropWhile_le [of IsSpace "rev (dropWhile IsSpace (take 79 ds))"] by simp
    moreover have "TrimSpace (utf8 (take 79 ds)) = utf8 ts"
      unfolding ts_def using valid set_take_subset by (intro TrimSpace_utf8) fast
    hence "s = utf8 (ts @ [0x2026])"
      using s ne False by (simp add: utf8_append Let_def split: if_splits)
    moreover have "plain_rune 0x2026"
      by (simp add: plain_rune_def valid_rune_def IsControl_def isBidiControl_def IsSpace_def)
    ultimately have "\<forall>c \<in> set (ts @ [0x2026]). plain_rune c" "length (ts @ [0x2026]) \<le> 80" "s = utf8 (ts @ [0x2026])"
      using plain sub by auto
    moreover from this(1) have "runes (utf8 (ts @ [0x2026])) = ts @ [0x2026]"
      by (intro runes_utf8) (simp add: plain_rune_def)
    ultimately show ?thesis using assms unfolding s_def [symmetric] plain_rune_def by metis
  qed
qed

section \<open>Permission to send\<close>

text \<open>
  (C28) A notification record says that the notification was sent only if an evaluation decided to send
  it, the policy of the deployment allows its reason, and the dispatcher reported the delivery of
  exactly the recorded text.  Suppressed evaluations, disabled reasons and a missing dispatcher never
  lead to a dispatch.
\<close>

theorem notification_sent_only_when_permitted:
  assumes "r \<in> set (fst (appendNotificationRecordsWithPolicy dispatcher clock write ot oid evaluations policy mi))"
    and "nr_DeliveryStatus r = DeliveryStatusSent"
  shows "\<exists>evaluation \<in> set evaluations. \<exists>decision d i delivery.
    er_Notification (ce_result evaluation) = Some decision \<and> nd_ShouldSend decision \<and>
    notificationPolicy_enabled policy (nd_Reason decision) \<and> dispatcher = Some d \<and>
    delivery \<in> set (nd_Dispatch d i (nr_Summary r)) \<and> dl_Status delivery = DeliveryStatusSent \<and>
    nr_IncidentID r = incidentIdentity evaluation"
proof -
  obtain i evaluation where ev: "evaluation \<in> set evaluations"
    and r: "r \<in> set (evaluationRecords dispatcher clock ot oid policy mi i evaluation)"
    using assms(1) unfolding appendNotificationRecordsWithPolicy_def Let_def
    by (auto simp: in_set_enumerate_eq split: if_splits option.splits) (metis nth_mem)
  then obtain decision where dec: "er_Notification (ce_result evaluation) = Some decision"
    by (cases "er_Notification (ce_result evaluation)") (auto simp: evaluationRecords_def)
  define base where "base = (notificationRecordBase evaluation ot oid decision)
    \<lparr> nr_Summary := incidentNotificationDeliverySummary evaluation ot oid (Some decision) mi \<rparr>"
  have base: "nr_DeliveryStatus base = DeliveryStatusSuppressed" "nr_IncidentID base = incidentIdentity evaluation"
    "nr_Summary base = incidentNotificationDeliverySummary evaluation ot oid (Some decision) mi"
    by (simp_all add: base_def notificationRecordBase_def)
  have not_suppressed: "r \<notin> set (suppressedNotificationRecords dispatcher i base)"
    using assms(2) by (auto simp: suppressedNotificationRecords_def Let_def)
  obtain d where d: "dispatcher = Some d" "nd_ShouldSend decision" "notificationPolicy_enabled policy (nd_Reason decision)"
    and rec: "r \<in> set (notificationRecordsFromDeliveries (clock i) base (nd_Dispatch d i (nr_Summary base)))"
    using r not_suppressed unfolding evaluationRecords_def dec base(3)
    by (auto simp: Let_def base_def split: option.splits if_splits)
  have "r \<noteq> base" using base(1) assms(2) by auto
  then obtain delivery t where del: "delivery \<in> set (nd_Dispatch d i (nr_Summary base))"
    and r: "r = notificationRecordFromDelivery base t delivery"
    using rec unfolding notificationRecordsFromDeliveries_def
    by (auto simp: in_set_enumerate_eq split: if_splits) (metis nth_mem)
  have "nr_Summary r = nr_Summary base" "nr_IncidentID r = nr_IncidentID base" "dl_Status delivery = DeliveryStatusSent"
    using assms(2) unfolding r notificationRecordFromDelivery_def Let_def by (auto split: if_splits)
  thus ?thesis using ev dec d del base(2) by auto
qed

section \<open>Concrete notifications\<close>

definition sample_notifier :: settingsAwareNotifier where
  "sample_notifier =
     \<lparr> sn_settingsSource = Some (Inr \<lparr> nst_Telegram = \<lparr> tg_BotToken = ''t'', tg_ChatID = ''c'', tg_RuntimeManaged = True \<rparr>,
         nst_FeishuEnabled = True, nst_FeishuWebhookURL = ''u'' \<rparr>),
       sn_newTelegramNotifier = Some (\<lambda>token chat. Some (\<lambda>text. Some errNotificationSuppressed)),
       sn_newFeishuNotifier = Some (\<lambda>url. Some (\<lambda>text. None)) \<rparr>"

theorem Send_succeeds_iff_witness: "Send sample_notifier ''down'' = None"
proof -
  have "(\<exists>d \<in> set (Dispatch sample_notifier ''down''). dl_Status d = DeliveryStatusSent) \<and>
      (\<forall>d \<in> set (Dispatch sample_notifier ''down''). dl_Status d \<noteq> DeliveryStatusFailed)"
    by code_simp
  thus ?thesis by (rule Send_succeeds_iff [THEN iffD2])
qed

theorem display_name_safe_witness:
  "length (runes (sanitizeHeartbeatNotificationDisplayName (utf8 [0x61, 0x0A, 0x202E, 0x62]))) \<le> 80 \<and>
   \<not> IsControl 0x62 \<and> \<not> isBidiControl 0x62 \<and> \<not> IsSpace 0x62 \<and>
   runes (sanitizeHeartbeatNotificationDisplayName (utf8 [0x61, 0x0A, 0x202E, 0x62])) = [0x61, 0x20, 0x62]"
proof -
  have s: "runes (sanitizeHeartbeatNotificationDisplayName (utf8 [0x61, 0x0A, 0x202E, 0x62])) = [0x61, 0x20, 0x62]"
    by code_simp
  hence "0x62 \<in> set (runes (sanitizeHeartbeatNotificationDisplayName (utf8 [0x61, 0x0A, 0x202E, 0x62])))" by simp
  from display_name_safe [OF this] s show ?thesis by simp
qed

definition sample_dispatcher :: NotificationDispatcher where
  "sample_dispatcher =
     \<lparr> nd_Dispatch = (\<lambda>i text. Dispatch sample_notifier text),
       nd_NotificationChannels = Some (\<lambda>i. NotificationChannels sample_notifier) \<rparr>"

definition sample_records :: "NotificationRecordWrite list" where
  "sample_records = fst (appendNotificationRecordsWithPolicy (Some sample_dispatcher) (\<lambda>i j. 99) (\<lambda>records. None)
     ObjectTypeMonitoringInstance ''mi'' sample_evaluations defaultNotificationPolicy None)"

theorem notification_sent_only_when_permitted_witness:
  "\<exists>evaluation \<in> set sample_evaluations. \<exists>decision d i delivery.
    er_Notification (ce_result evaluation) = Some decision \<and> nd_ShouldSend decision \<and>
    notificationPolicy_enabled defaultNotificationPolicy (nd_Reason decision) \<and> Some sample_dispatcher = Some d \<and>
    delivery \<in> set (nd_Dispatch d i (nr_Summary (sample_records ! 1))) \<and> dl_Status delivery = DeliveryStatusSent \<and>
    nr_IncidentID (sample_records ! 1) = incidentIdentity evaluation"
proof (rule notification_sent_only_when_permitted)
  have "length sample_records = 4" by code_simp
  thus "sample_records ! 1 \<in> set (fst (appendNotificationRecordsWithPolicy (Some sample_dispatcher) (\<lambda>i j. 99)
      (\<lambda>records. None) ObjectTypeMonitoringInstance ''mi'' sample_evaluations defaultNotificationPolicy None))"
    unfolding sample_records_def by (intro nth_mem) simp
  show "nr_DeliveryStatus (sample_records ! 1) = DeliveryStatusSent" by code_simp
qed

end
