(* ===== verification/Incident_Store.thy ===== *)
theory Incident_Store
  imports Incident_Notify
begin

text \<open>
  The incident tables and the transaction that applies a mutation, from
  \<open>internal/center/store/incidents.go\<close> and \<open>monitoring_event_payload.go\<close>.  The database is a state of four
  tables; what PostgreSQL decides at run time is an environment: the outcome of every statement, the
  fresh identifiers, the clock, the row version an update assigns, the scan order of rows that compare
  equal, and how the commit ends.  A transaction that returns an error leaves the state it started
  from, except when the commit took effect and only its confirmation was lost.  Rows keep the instants
  they are given; the columns of PostgreSQL keep microseconds.
\<close>

section \<open>Event payloads\<close>

record task4MonitoringEventPayload =
  pl_ClosureKind :: string
  pl_ClosureReason :: string
  pl_NaturalRecovery :: "bool option"
  pl_ObjectType :: ObjectType
  pl_EventType :: EventType
  pl_Severity :: Severity
  pl_EventAt :: time
  pl_RecordedAt :: time
  pl_IsBackfilled :: bool
  pl_Provenance :: string
  pl_ProducerVersion :: string
  pl_RuleVersion :: string
  pl_PriorState :: string
  pl_ResultingState :: string
  pl_Reason :: string
  pl_CorrectionOfEventID :: string
  pl_IncidentID :: string
  pl_IncidentClass :: string
  pl_BindingStatus :: string
  pl_LifecycleStatus :: string
  pl_MonitoringStatus :: string
  pl_RunStatus :: string
  pl_RetirementMonitoringStatusReconciled :: bool
  pl_RetirementBindingStatusReconciled :: bool
  pl_RetirementEnrollmentCredentialsRevoked :: bool
  pl_RetirementSyncCredentialRevoked :: bool
  pl_RetirementPendingBindingCleared :: bool
  pl_RetirementPendingActionCleared :: bool

text \<open>
  Instants of the model have no location and no monotonic reading, so of the check only the zero
  instant and the microsecond remain; the timestamps the incident events carry are in UTC.
\<close>

definition validMonitoringEventTimestamp :: "time \<Rightarrow> bool" where
  "validMonitoringEventTimestamp v \<longleftrightarrow> \<not> IsZero v \<and> v mod 1000 = 0"

definition validMonitoringEventText :: "string \<Rightarrow> int \<Rightarrow> bool" where
  "validMonitoringEventText v maximum \<longleftrightarrow>
     v \<noteq> [] \<and> int (length v) \<le> maximum \<and> TrimSpace v = v \<and>
     list_all (\<lambda>r. \<not> (r < 0x20 \<or> r = 0x7F)) (runes v)"

definition validMonitoringEventState :: "string \<Rightarrow> bool" where
  "validMonitoringEventState v = validMonitoringEventText v 128"

definition identifierRune :: "nat \<Rightarrow> bool" where
  "identifierRune r \<longleftrightarrow>
     (0x61 \<le> r \<and> r \<le> 0x7A) \<or> (0x30 \<le> r \<and> r \<le> 0x39) \<or> r = 0x5F \<or> r = 0x2D \<or> r = 0x2E \<or> r = 0x2F"

definition validMonitoringEventIdentifier :: "string \<Rightarrow> bool" where
  "validMonitoringEventIdentifier v \<longleftrightarrow>
     v \<noteq> [] \<and> length v \<le> 128 \<and> TrimSpace v = v \<and> list_all identifierRune (runes v)"

text \<open>
  The loop over the four status fields: \<open>None\<close> when a field does not fit its rule, otherwise the
  number of families counted.
\<close>

fun statusFamilies :: "string \<Rightarrow> nat \<Rightarrow> (string \<times> string) list \<Rightarrow> nat option" where
  "statusFamilies ruleVersion families [] = Some families"
| "statusFamilies ruleVersion families ((v, rule) # rest) =
     (if v = [] then statusFamilies ruleVersion families rest
      else if ruleVersion \<noteq> rule \<or> \<not> validMonitoringEventState v then None
      else statusFamilies ruleVersion (families + 1) rest)"

definition validMonitoringEventLegacyFields :: "task4MonitoringEventPayload \<Rightarrow> bool" where
  "validMonitoringEventLegacyFields p =
     (let incidentFields = (pl_IncidentID p \<noteq> [] \<or> pl_IncidentClass p \<noteq> []) in
      if incidentFields \<and> (pl_RuleVersion p \<noteq> MonitoringEventIncidentRuleVersion \<or>
           \<not> validMonitoringEventIdentifier (pl_IncidentID p) \<or>
           \<not> validMonitoringEventIdentifier (pl_IncidentClass p)) then False
      else case statusFamilies (pl_RuleVersion p) (if incidentFields then 1 else 0)
            [(pl_BindingStatus p, MonitoringEventBindingRuleVersion),
             (pl_LifecycleStatus p, MonitoringEventLifecycleRuleVersion),
             (pl_MonitoringStatus p, MonitoringEventRuntimeRuleVersion),
             (pl_RunStatus p, MonitoringEventTargetRuleVersion)] of
          None \<Rightarrow> False
        | Some families \<Rightarrow>
            let hasReconciliation =
                  (pl_RetirementMonitoringStatusReconciled p \<or> pl_RetirementBindingStatusReconciled p \<or>
                   pl_RetirementEnrollmentCredentialsRevoked p \<or> pl_RetirementSyncCredentialRevoked p \<or>
                   pl_RetirementPendingBindingCleared p \<or> pl_RetirementPendingActionCleared p) in
            if pl_EventType p = EventMonitoringInstanceRetirementReconciled \<and>
               (pl_PriorState p \<noteq> LifecycleRetired \<or> pl_ResultingState p \<noteq> LifecycleRetired \<or> \<not> hasReconciliation)
            then False
            else if pl_EventType p \<noteq> EventMonitoringInstanceRetirementReconciled \<and> hasReconciliation then False
            else if families \<noteq> 1 \<or> (pl_Reason p \<noteq> [] \<and> \<not> validMonitoringEventText (pl_Reason p) 2048) then False
            else if pl_RuleVersion p = MonitoringEventBindingRuleVersion then pl_BindingStatus p = pl_ResultingState p
            else if pl_RuleVersion p = MonitoringEventLifecycleRuleVersion then
              pl_LifecycleStatus p = pl_ResultingState p \<or>
              (pl_EventType p = EventMonitoringInstanceLifecycleUpdated \<and> pl_PriorState p = ''unarchived'' \<and>
               pl_ResultingState p = ''archived'') \<or>
              (pl_EventType p = EventMonitoringInstanceRestoredFromArchive \<and> pl_PriorState p = ''archived'' \<and>
               pl_ResultingState p = ''unarchived'' \<and> pl_LifecycleStatus p = LifecycleObserving)
            else if pl_RuleVersion p = MonitoringEventRuntimeRuleVersion then pl_MonitoringStatus p = pl_ResultingState p
            else if pl_RuleVersion p = MonitoringEventTargetRuleVersion then
              (if pl_EventType p = EventTargetArchived \<or> pl_EventType p = EventTargetRestoredToPaused
               then pl_RunStatus p = RunStatusPaused
               else pl_RunStatus p = pl_ResultingState p)
            else True)"

text \<open>The checks of \<open>marshalTask4MonitoringEventPayload\<close>; the encoded document is the payload itself.\<close>

definition marshalTask4MonitoringEventPayload ::
    "task4MonitoringEventPayload \<Rightarrow> serviceError + task4MonitoringEventPayload" where
  "marshalTask4MonitoringEventPayload p =
     (if \<not> validMonitoringEventTimestamp (pl_EventAt p) \<or> \<not> validMonitoringEventTimestamp (pl_RecordedAt p) \<or>
         time_Before (pl_RecordedAt p) (pl_EventAt p)
      then Inl (NewError ''invalid monitoring event chronology'')
      else if pl_CorrectionOfEventID p \<noteq> [] \<and> \<not> validMonitoringEventIdentifier (pl_CorrectionOfEventID p)
      then Inl (NewError ''invalid monitoring event correction identity'')
      else if \<not> ValidMonitoringEventMetadata (pl_ObjectType p) (pl_EventType p) (pl_Severity p) (pl_IsBackfilled p)
        (pl_Provenance p) (pl_ProducerVersion p) (pl_RuleVersion p) (pl_PriorState p) (pl_ResultingState p)
        (pl_CorrectionOfEventID p)
      then Inl (NewError ''invalid monitoring event metadata'')
      else if \<not> validMonitoringEventLegacyFields p
      then Inl (NewError ''invalid monitoring event legacy payload'')
      else Inr p)"

definition incidentEventPayload :: "StateChangeEventRecord \<Rightarrow> time \<Rightarrow> task4MonitoringEventPayload" where
  "incidentEventPayload event recordedAt =
     (let closed = (ev_EventType event = EventIncidentClosedByManagement) in
      \<lparr> pl_ClosureKind = (if closed then ''management'' else []),
        pl_ClosureReason = ev_ClosureReason event,
        pl_NaturalRecovery = (if closed then Some False else None),
        pl_ObjectType = ev_ObjectType event,
        pl_EventType = ev_EventType event,
        pl_Severity = ev_Severity event,
        pl_EventAt = ev_CreatedAt event,
        pl_RecordedAt = recordedAt,
        pl_IsBackfilled = ev_IsBackfilled event,
        pl_Provenance = ev_Provenance event,
        pl_ProducerVersion = ev_ProducerVersion event,
        pl_RuleVersion = ev_RuleVersion event,
        pl_PriorState = ev_PriorState event,
        pl_ResultingState = ev_ResultingState event,
        pl_Reason = [],
        pl_CorrectionOfEventID = ev_CorrectionOfEventID event,
        pl_IncidentID = ev_IncidentID event,
        pl_IncidentClass = ev_IncidentClass event,
        pl_BindingStatus = [], pl_LifecycleStatus = [], pl_MonitoringStatus = [], pl_RunStatus = [],
        pl_RetirementMonitoringStatusReconciled = False, pl_RetirementBindingStatusReconciled = False,
        pl_RetirementEnrollmentCredentialsRevoked = False, pl_RetirementSyncCredentialRevoked = False,
        pl_RetirementPendingBindingCleared = False, pl_RetirementPendingActionCleared = False \<rparr>)"

section \<open>Tables\<close>

text \<open>
  A row of \<open>monitoring_instances\<close> or \<open>targets\<close> as far as the incident projection reads and writes it.
  \<open>ow_boundSample\<close> is the subquery for a host sample of the current binding.
\<close>

record objectRow =
  ow_version :: string
  ow_lifecycleStatus :: string
  ow_status :: string
  ow_bindingStatus :: string
  ow_lastTrustedOnlineAt :: "time option"
  ow_boundSample :: bool
  ow_currentHealthStatus :: string
  ow_currentActiveIncidentCount :: int
  ow_currentPrimaryIssueSummary :: string

record eventRow =
  er_EventID :: string
  er_Record :: StateChangeEventRecord
  er_Payload :: task4MonitoringEventPayload
  er_CreatedAt :: time

record incidentStore =
  st_objects :: "(ObjectType \<times> string, objectRow) gomap"
  st_active :: "IncidentRecord list"
  st_events :: "eventRow list"
  st_notifications :: "(string \<times> NotificationRecordWrite) list"

datatype commitOutcome = CommitOK | CommitFailed serviceError | CommitLost serviceError

record dbEnv =
  env_begin :: "serviceError option"
  env_guard :: "serviceError option"
  env_delete :: "serviceError option"
  env_upsert :: "nat \<Rightarrow> serviceError option"
  env_newID :: "nat \<Rightarrow> serviceError + string"
  env_clock :: "nat \<Rightarrow> time"
  env_insert :: "nat \<Rightarrow> serviceError option"
  env_query :: "serviceError option"
  env_update :: "serviceError option"
  env_commit :: commitOutcome
  env_newVersion :: string
  env_scan :: "IncidentRecord list \<Rightarrow> IncidentRecord list"

section \<open>Applying a mutation\<close>

definition guardIncidentObjectRowVersion ::
    "dbEnv \<Rightarrow> IncidentMutation \<Rightarrow> incidentStore \<Rightarrow> serviceError option" where
  "guardIncidentObjectRowVersion env mutation s =
     (if mu_ObjectType mutation \<noteq> ObjectTypeMonitoringInstance \<and> mu_ObjectType mutation \<noteq> ObjectTypeTarget
      then Some (NewError ''unsupported incident mutation object type'')
      else case env_guard env of
        Some err \<Rightarrow> Some (WrapError ''query incident mutation object row version'' err)
      | None \<Rightarrow>
          (case map_of (st_objects s) (mu_ObjectType mutation, mu_ObjectID mutation) of
             None \<Rightarrow> Some (WrapErrors ''incident mutation object not found''
               ErrIncidentProjectionObjectNotFound ErrNoRows)
           | Some row \<Rightarrow>
               if ow_version row \<noteq> mu_ExpectedObjectRowVersion mutation then Some ErrIncidentProjectionConflict
               else None))"

text \<open>\<open>insert ... on conflict (incident_id) do update\<close>.\<close>

definition upsertActive :: "IncidentRecord \<Rightarrow> IncidentRecord list \<Rightarrow> IncidentRecord list" where
  "upsertActive incident rows =
     (if \<exists>row \<in> set rows. inc_IncidentID row = inc_IncidentID incident
      then map (\<lambda>row. if inc_IncidentID row = inc_IncidentID incident
        then incident\<lparr> inc_StartedAt := min (inc_StartedAt row) (inc_StartedAt incident) \<rparr> else row) rows
      else rows @ [incident])"

fun upsertLoop :: "dbEnv \<Rightarrow> nat \<Rightarrow> IncidentRecord list \<Rightarrow> IncidentRecord list \<Rightarrow>
    serviceError + IncidentRecord list" where
  "upsertLoop env i [] rows = Inr rows"
| "upsertLoop env i (incident # rest) rows =
     (case env_upsert env i of
        Some err \<Rightarrow> Inl (WrapError ''insert active incident'' err)
      | None \<Rightarrow> upsertLoop env (i + 1) rest (upsertActive incident rows))"

definition belongs :: "ObjectType \<Rightarrow> string \<Rightarrow> IncidentRecord \<Rightarrow> bool" where
  "belongs objectType objectID row \<longleftrightarrow> inc_ObjectType row = objectType \<and> inc_ObjectID row = objectID"

definition replaceActiveIncidents ::
    "dbEnv \<Rightarrow> IncidentMutation \<Rightarrow> incidentStore \<Rightarrow> serviceError + incidentStore" where
  "replaceActiveIncidents env mutation s =
     (case env_delete env of
        Some err \<Rightarrow> Inl (WrapError ''delete active incidents'' err)
      | None \<Rightarrow>
          (case upsertLoop env 0 (mu_Active mutation)
              (filter (\<lambda>row. \<not> belongs (mu_ObjectType mutation) (mu_ObjectID mutation) row) (st_active s)) of
             Inl err \<Rightarrow> Inl err
           | Inr rows \<Rightarrow> Inr (s\<lparr> st_active := rows \<rparr>)))"

fun insertEventLoop :: "dbEnv \<Rightarrow> nat \<Rightarrow> StateChangeEventRecord list \<Rightarrow> eventRow list \<Rightarrow>
    serviceError + eventRow list" where
  "insertEventLoop env i [] rows = Inr rows"
| "insertEventLoop env i (event # rest) rows =
     (case env_newID env i of
        Inl err \<Rightarrow> Inl (WrapError ''generate event id'' err)
      | Inr eventID \<Rightarrow>
          let recordedAt = time_Truncate (env_clock env i) microsecond in
          (case marshalTask4MonitoringEventPayload (incidentEventPayload event recordedAt) of
             Inl err \<Rightarrow> Inl (WrapError ''build event payload'' err)
           | Inr payload \<Rightarrow>
               (case env_insert env i of
                  Some err \<Rightarrow> Inl (WrapError ''insert state change event'' err)
                | None \<Rightarrow> insertEventLoop env (i + 1) rest
                    (rows @ [\<lparr> er_EventID = eventID, er_Record = event, er_Payload = payload,
                      er_CreatedAt = recordedAt \<rparr>]))))"

definition insertStateChangeEvents ::
    "dbEnv \<Rightarrow> StateChangeEventRecord list \<Rightarrow> incidentStore \<Rightarrow> serviceError + incidentStore" where
  "insertStateChangeEvents env events s =
     (case insertEventLoop env 0 events (st_events s) of
        Inl err \<Rightarrow> Inl err
      | Inr rows \<Rightarrow> Inr (s\<lparr> st_events := rows \<rparr>))"

definition severity_string :: "Severity \<Rightarrow> string" where
  "severity_string s =
     (case s of
        SeverityNormal \<Rightarrow> (utf8 [0x6B63, 0x5E38]) | SeverityNotice \<Rightarrow> (utf8 [0x5173, 0x6CE8]) | SeverityAlert \<Rightarrow> (utf8 [0x544A, 0x8B66])
      | SeverityCritical \<Rightarrow> (utf8 [0x4E25, 0x91CD]) | SeverityOther t \<Rightarrow> t)"

text \<open>The row \<open>order by severity desc, started_at desc limit 1\<close> selects, rows in scan order.\<close>

definition summary_before :: "IncidentRecord \<Rightarrow> IncidentRecord \<Rightarrow> bool" where
  "summary_before a b \<longleftrightarrow>
     severityRank (inc_Severity b) < severityRank (inc_Severity a) \<or>
     (severityRank (inc_Severity b) = severityRank (inc_Severity a) \<and> inc_StartedAt b < inc_StartedAt a)"

definition primaryIncident :: "IncidentRecord list \<Rightarrow> IncidentRecord option" where
  "primaryIncident rows = (case SliceStable summary_before rows of [] \<Rightarrow> None | row # _ \<Rightarrow> Some row)"

definition observableRow :: "ObjectType \<Rightarrow> objectRow \<Rightarrow> bool" where
  "observableRow objectType row =
     (if objectType = ObjectTypeMonitoringInstance then
        \<not> (ow_lifecycleStatus row \<noteq> LifecycleInUse \<or> ow_bindingStatus row \<noteq> BindingBound \<or>
           ow_status row \<noteq> MonitoringEnabled \<or> ow_lastTrustedOnlineAt row = None \<or> \<not> ow_boundSample row)
      else \<not> (ow_lifecycleStatus row \<noteq> TargetLifecycleActive \<or> ow_status row \<noteq> RunStatusEnabled))"

text \<open>The three summary columns of the object; every update gives the row a new version.\<close>

definition summaryRow :: "dbEnv \<Rightarrow> ObjectType \<Rightarrow> IncidentRecord list \<Rightarrow> objectRow \<Rightarrow> objectRow" where
  "summaryRow env objectType rows row =
     (let primary = primaryIncident (env_scan env rows);
          severity = (case primary of None \<Rightarrow> severity_string SeverityNormal | Some r \<Rightarrow> severity_string (inc_Severity r));
          summary = (case primary of None \<Rightarrow> [] | Some r \<Rightarrow> inc_SourceSummary r)
      in row\<lparr> ow_version := env_newVersion env,
           ow_currentHealthStatus := (if observableRow objectType row then severity else ''unknown''),
           ow_currentActiveIncidentCount := int (length rows),
           ow_currentPrimaryIssueSummary := summary \<rparr>)"

definition projectObjectSummary ::
    "dbEnv \<Rightarrow> ObjectType \<Rightarrow> string \<Rightarrow> incidentStore \<Rightarrow> serviceError + incidentStore" where
  "projectObjectSummary env objectType objectID s =
     (case env_query env of
        Some err \<Rightarrow> Inl (WrapError ''query incident summary'' err)
      | None \<Rightarrow>
          if objectType \<noteq> ObjectTypeMonitoringInstance \<and> objectType \<noteq> ObjectTypeTarget
          then Inl (NewError ''unsupported object type'')
          else case env_update env of
            Some err \<Rightarrow> Inl (WrapError ''update object summary'' err)
          | None \<Rightarrow>
              (case map_of (st_objects s) (objectType, objectID) of
                 None \<Rightarrow> Inl (NewError ''update object summary: not found'')
               | Some row \<Rightarrow> Inr (s\<lparr> st_objects := AList.update (objectType, objectID)
                   (summaryRow env objectType (filter (belongs objectType objectID) (st_active s)) row)
                   (st_objects s) \<rparr>)))"

text \<open>The statements of the transaction, in order; the first error ends it.\<close>

definition incidentMutationTx :: "dbEnv \<Rightarrow> IncidentMutation \<Rightarrow> incidentStore \<Rightarrow> serviceError + incidentStore" where
  "incidentMutationTx env mutation s =
     (case guardIncidentObjectRowVersion env mutation s of
        Some err \<Rightarrow> Inl err
      | None \<Rightarrow>
          (case replaceActiveIncidents env mutation s of
             Inl err \<Rightarrow> Inl err
           | Inr s \<Rightarrow>
               (case insertStateChangeEvents env (mu_Events mutation) s of
                  Inl err \<Rightarrow> Inl err
                | Inr s \<Rightarrow> projectObjectSummary env (mu_ObjectType mutation) (mu_ObjectID mutation) s)))"

definition commitTx :: "string \<Rightarrow> dbEnv \<Rightarrow> incidentStore \<Rightarrow> incidentStore \<Rightarrow> serviceError option \<times> incidentStore" where
  "commitTx message env before after =
     (case env_commit env of
        CommitOK \<Rightarrow> (None, after)
      | CommitFailed err \<Rightarrow> (Some (WrapError message err), before)
      | CommitLost err \<Rightarrow> (Some (WrapError message err), after))"

definition ApplyIncidentMutation ::
    "dbEnv \<Rightarrow> IncidentMutation \<Rightarrow> incidentStore \<Rightarrow> serviceError option \<times> incidentStore" where
  "ApplyIncidentMutation env mutation s =
     (if mu_ExpectedObjectRowVersion mutation = []
      then (Some (NewError ''incident mutation object row version is required''), s)
      else case env_begin env of
        Some err \<Rightarrow> (Some (WrapError ''begin incident mutation tx'' err), s)
      | None \<Rightarrow>
          (case incidentMutationTx env mutation s of
             Inl err \<Rightarrow> (Some err, s)
           | Inr s' \<Rightarrow> commitTx ''commit incident mutation tx'' env s s'))"

text \<open>
  The other writer: closing the incidents of an object that is archived or retired, inside the
  transaction of that action.  It closes first and then deletes, and it updates the object row, which
  gives the row a new version.
\<close>

definition priorStateOf :: "Severity \<Rightarrow> string" where
  "priorStateOf severity =
     (case severity of
        SeverityNotice \<Rightarrow> ''notice'' | SeverityAlert \<Rightarrow> ''alert'' | SeverityCritical \<Rightarrow> ''critical'' | _ \<Rightarrow> [])"

definition archiveCloseEvent ::
    "ObjectType \<Rightarrow> string \<Rightarrow> string \<Rightarrow> time \<Rightarrow> IncidentRecord \<Rightarrow> StateChangeEventRecord" where
  "archiveCloseEvent objectType objectID reason now row =
     (closedByManagementEvent objectType objectID now ((utf8 [0x7BA1, 0x7406, 0x52A8, 0x4F5C, 0x5173, 0x95ED, 0x8FD0, 0x884C, 0x5F02, 0x5E38, 0xFF1A]) @ reason) row)
       \<lparr> ev_ClosureReason := reason, ev_PriorState := priorStateOf (inc_Severity row) \<rparr>"

definition incident_id_less :: "IncidentRecord \<Rightarrow> IncidentRecord \<Rightarrow> bool" where
  "incident_id_less a b \<longleftrightarrow> inc_IncidentID a < inc_IncidentID b"

definition closeArchiveIncidents ::
    "dbEnv \<Rightarrow> ObjectType \<Rightarrow> string \<Rightarrow> string \<Rightarrow> (nat \<Rightarrow> time) \<Rightarrow> incidentStore \<Rightarrow> serviceError + incidentStore" where
  "closeArchiveIncidents env objectType objectID reason now s =
     (case env_query env of
        Some err \<Rightarrow> Inl err
      | None \<Rightarrow>
          let rows = SliceStable incident_id_less (filter (belongs objectType objectID) (st_active s));
              events = map (\<lambda>(i, row). archiveCloseEvent objectType objectID reason (now i) row) (enumerate 0 rows)
          in (case insertStateChangeEvents env events s of
                Inl err \<Rightarrow> Inl err
              | Inr s \<Rightarrow>
                  (case env_delete env of
                     Some err \<Rightarrow> Inl err
                   | None \<Rightarrow>
                       (case env_update env of
                          Some err \<Rightarrow> Inl err
                        | None \<Rightarrow> Inr (s\<lparr>
                            st_active := filter (\<lambda>row. \<not> belongs objectType objectID row) (st_active s),
                            st_objects := (case map_of (st_objects s) (objectType, objectID) of
                                None \<Rightarrow> st_objects s
                              | Some row \<Rightarrow> AList.update (objectType, objectID)
                                  (row\<lparr> ow_version := env_newVersion env, ow_currentActiveIncidentCount := 0,
                                    ow_currentPrimaryIssueSummary := [], ow_currentHealthStatus := ''unknown'' \<rparr>)
                                  (st_objects s)) \<rparr>)))))"

fun insertNotificationLoop :: "dbEnv \<Rightarrow> nat \<Rightarrow> NotificationRecordWrite list \<Rightarrow>
    (string \<times> NotificationRecordWrite) list \<Rightarrow> serviceError + (string \<times> NotificationRecordWrite) list" where
  "insertNotificationLoop env i [] rows = Inr rows"
| "insertNotificationLoop env i (notification # rest) rows =
     (case env_newID env i of
        Inl err \<Rightarrow> Inl (WrapError ''generate notification id'' err)
      | Inr notificationID \<Rightarrow>
          (case env_insert env i of
             Some err \<Rightarrow> Inl (WrapError ''insert notification record'' err)
           | None \<Rightarrow> insertNotificationLoop env (i + 1) rest (rows @ [(notificationID, notification)])))"

definition AppendNotificationRecords ::
    "dbEnv \<Rightarrow> NotificationRecordWrite list \<Rightarrow> incidentStore \<Rightarrow> serviceError option \<times> incidentStore" where
  "AppendNotificationRecords env notifications s =
     (case env_begin env of
        Some err \<Rightarrow> (Some (WrapError ''begin notification append tx'' err), s)
      | None \<Rightarrow>
          (case insertNotificationLoop env 0 notifications (st_notifications s) of
             Inl err \<Rightarrow> (Some err, s)
           | Inr rows \<Rightarrow> commitTx ''commit notification append tx'' env s (s\<lparr> st_notifications := rows \<rparr>)))"

section \<open>Identities of incidents\<close>

definition known_classes :: "IncidentClass list" where
  "known_classes = [IncidentMonitoringInstanceHeartbeatMissing, IncidentMonitoringInstanceDiskPressure,
     IncidentMonitoringInstanceInodePressure, IncidentMonitoringInstanceResourcePressure,
     IncidentMonitoringInstanceTrendDegradation, IncidentTargetProbeFailure, IncidentTargetTLSExpiry,
     IncidentTargetLatencyTrendDegradation]"

text \<open>No class with its separator is a suffix of another one.\<close>

lemma known_suffix:
  "\<forall>c \<in> set known_classes. \<forall>d \<in> set known_classes.
     drop (length d - length c) (''_'' @ d) = ''_'' @ c \<longrightarrow> c = d"
  by code_simp

lemma known_suffix_append:
  assumes "c \<in> set known_classes" and "d \<in> set known_classes" and "us @ ''_'' @ c = ''_'' @ d"
  shows "c = d"
proof -
  have "length us = length d - length c" using arg_cong [OF assms(3), of length] by simp
  moreover have "drop (length us) (''_'' @ d) = ''_'' @ c" unfolding assms(3) [symmetric] by simp
  ultimately have "drop (length d - length c) (''_'' @ d) = ''_'' @ c" by simp
  thus ?thesis using known_suffix assms(1,2) by blast
qed

lemma class_split:
  assumes "c \<in> set known_classes" and "d \<in> set known_classes" and "a @ ''_'' @ c = b @ ''_'' @ d"
  shows "a = b \<and> c = d"
proof -
  obtain us where "(a = b @ us \<and> us @ ''_'' @ c = ''_'' @ d) \<or> (a @ us = b \<and> ''_'' @ c = us @ ''_'' @ d)"
    using assms(3) unfolding append_eq_append_conv2 by blast
  hence "c = d" using known_suffix_append assms(1,2) by metis
  thus ?thesis using assms(3) by simp
qed

lemma incidentID_inj:
  assumes "incident_object ot" and "incident_object ot'" and "c \<in> set known_classes" and "d \<in> set known_classes"
    and "incidentID ot oid c = incidentID ot' oid' d"
  shows "ot = ot' \<and> oid = oid' \<and> c = d"
proof -
  have ot: "ot = ot'"
  proof (rule ccontr)
    assume "ot \<noteq> ot'"
    thus False using assms(1,2,5) by (auto simp: incidentID_def)
  qed
  hence "oid @ ''_'' @ c = oid' @ ''_'' @ d" using assms(5) by (simp add: incidentID_def)
  thus ?thesis using ot class_split [OF assms(3,4)] by blast
qed

section \<open>Well-formed tables\<close>

definition row_ok :: "IncidentRecord \<Rightarrow> bool" where
  "row_ok r \<longleftrightarrow> incident_object (inc_ObjectType r) \<and> inc_IncidentClass r \<in> set known_classes \<and>
     incident_ok (inc_ObjectType r) (inc_ObjectID r) (inc_IncidentClass r) r"

definition store_ok :: "incidentStore \<Rightarrow> bool" where
  "store_ok s \<longleftrightarrow> list_all row_ok (st_active s) \<and> distinct (map inc_IncidentID (st_active s))"

definition rows_of :: "ObjectType \<Rightarrow> string \<Rightarrow> incidentStore \<Rightarrow> IncidentRecord list" where
  "rows_of ot oid s = filter (belongs ot oid) (st_active s)"

lemma row_id: "row_ok r \<Longrightarrow> inc_IncidentID r = incidentID (inc_ObjectType r) (inc_ObjectID r) (inc_IncidentClass r)"
  by (simp add: row_ok_def incident_ok_def)

lemma row_id_inj:
  assumes "row_ok r" and "row_ok r'" and "inc_IncidentID r = inc_IncidentID r'"
  shows "inc_ObjectType r = inc_ObjectType r' \<and> inc_ObjectID r = inc_ObjectID r' \<and>
    inc_IncidentClass r = inc_IncidentClass r'"
  using assms row_id [OF assms(1)] row_id [OF assms(2)] unfolding row_ok_def by (intro incidentID_inj) auto

text \<open>The incidents of one object are well formed in the sense of the evaluators.\<close>

lemma rows_of_ok:
  assumes "store_ok s"
  shows "incidents_ok ot oid (rows_of ot oid s)"
proof -
  have rows: "row_ok r \<and> belongs ot oid r" if "r \<in> set (rows_of ot oid s)" for r
    using assms that by (auto simp: store_ok_def rows_of_def list_all_iff)
  have "distinct (map inc_IncidentID (rows_of ot oid s))"
    using assms by (simp add: store_ok_def rows_of_def distinct_map_filter)
  moreover have "map inc_IncidentID (rows_of ot oid s) = map (incidentID ot oid) (map inc_IncidentClass (rows_of ot oid s))"
    using rows row_id by (auto simp: belongs_def)
  ultimately have "distinct (map inc_IncidentClass (rows_of ot oid s))" by (metis distinct_map)
  thus ?thesis using rows by (auto simp: incidents_ok_def list_all_iff row_ok_def belongs_def)
qed

text \<open>What the service passes as active incidents of an object.\<close>

definition active_ok :: "ObjectType \<Rightarrow> string \<Rightarrow> IncidentRecord list \<Rightarrow> bool" where
  "active_ok ot oid rows \<longleftrightarrow> incident_object ot \<and> incidents_ok ot oid rows \<and>
     list_all (\<lambda>r. inc_IncidentClass r \<in> set known_classes) rows"

lemma active_ok_rows:
  assumes "active_ok ot oid rows" and "r \<in> set rows"
  shows "row_ok r" and "belongs ot oid r"
  using assms by (auto simp: active_ok_def incidents_ok_def row_ok_def belongs_def list_all_iff incident_ok_def)

lemma active_ok_ids:
  assumes "active_ok ot oid rows"
  shows "distinct (map inc_IncidentID rows)"
proof -
  have "inj_on inc_IncidentID (set rows)"
  proof (rule inj_onI)
    fix a b assume ab: "a \<in> set rows" "b \<in> set rows" "inc_IncidentID a = inc_IncidentID b"
    hence "inc_IncidentClass a = inc_IncidentClass b"
      using row_id_inj active_ok_rows [OF assms] by blast
    moreover have "inj_on inc_IncidentClass (set rows)"
      using assms by (simp add: active_ok_def incidents_ok_def distinct_map)
    ultimately show "a = b" using ab by (auto dest: inj_onD)
  qed
  thus ?thesis using assms by (simp add: active_ok_def incidents_ok_def distinct_map)
qed

section \<open>The statements of the transaction\<close>

lemma upsertLoop_append:
  assumes "upsertLoop env i incidents rows = Inr rows'"
    and "distinct (map inc_IncidentID incidents)"
    and "\<forall>r \<in> set rows. inc_IncidentID r \<notin> inc_IncidentID ` set incidents"
  shows "rows' = rows @ incidents"
  using assms
proof (induction incidents arbitrary: i rows)
  case (Cons x xs)
  have "upsertActive x rows = rows @ [x]" using Cons.prems(3) by (auto simp: upsertActive_def)
  moreover have "upsertLoop env (i + 1) xs (upsertActive x rows) = Inr rows'"
    using Cons.prems(1) by (simp split: option.splits)
  ultimately show ?case using Cons.IH [of "i + 1" "rows @ [x]"] Cons.prems(2,3) by auto
qed simp

lemma replaceActiveIncidents_effect:
  assumes "replaceActiveIncidents env m s = Inr s'" and "store_ok s"
    and "active_ok (mu_ObjectType m) (mu_ObjectID m) (mu_Active m)"
  shows "s' = s\<lparr> st_active :=
    filter (\<lambda>r. \<not> belongs (mu_ObjectType m) (mu_ObjectID m) r) (st_active s) @ mu_Active m \<rparr>"
proof -
  let ?rest = "filter (\<lambda>r. \<not> belongs (mu_ObjectType m) (mu_ObjectID m) r) (st_active s)"
  obtain rows where loop: "upsertLoop env 0 (mu_Active m) ?rest = Inr rows" and s': "s' = s\<lparr> st_active := rows \<rparr>"
    using assms(1) by (auto simp: replaceActiveIncidents_def split: option.splits sum.splits)
  have "inc_IncidentID r \<notin> inc_IncidentID ` set (mu_Active m)" if "r \<in> set ?rest" for r
  proof
    assume "inc_IncidentID r \<in> inc_IncidentID ` set (mu_Active m)"
    then obtain a where "a \<in> set (mu_Active m)" "inc_IncidentID r = inc_IncidentID a" by auto
    moreover have "row_ok r" "\<not> belongs (mu_ObjectType m) (mu_ObjectID m) r"
      using that assms(2) by (auto simp: store_ok_def list_all_iff)
    ultimately show False
      using row_id_inj [of r a] active_ok_rows [OF assms(3)] by (metis belongs_def)
  qed
  thus ?thesis using upsertLoop_append [OF loop active_ok_ids [OF assms(3)]] s' by blast
qed

lemma insertEventLoop_effect:
  assumes "insertEventLoop env i events rows = Inr rows'"
  shows "\<exists>new. rows' = rows @ new \<and> map er_Record new = events \<and>
    list_all (\<lambda>r. ev_CreatedAt (er_Record r) \<le> er_CreatedAt r) new"
  using assms
proof (induction events arbitrary: i rows)
  case (Cons e es)
  let ?t = "time_Truncate (env_clock env i) microsecond"
  obtain eid p where loop: "insertEventLoop env (i + 1) es
      (rows @ [\<lparr> er_EventID = eid, er_Record = e, er_Payload = p, er_CreatedAt = ?t \<rparr>]) = Inr rows'"
    and m: "marshalTask4MonitoringEventPayload (incidentEventPayload e ?t) = Inr p"
    using Cons.prems by (auto simp: Let_def split: sum.splits option.splits)
  have "ev_CreatedAt e \<le> ?t"
    using m by (auto simp: marshalTask4MonitoringEventPayload_def incidentEventPayload_def Let_def time_Before_def
        split: if_splits)
  thus ?case using Cons.IH [OF loop] by auto
qed simp

lemma insertStateChangeEvents_effect:
  assumes "insertStateChangeEvents env events s = Inr s'"
  shows "\<exists>new. s' = s\<lparr> st_events := st_events s @ new \<rparr> \<and> map er_Record new = events \<and>
    list_all (\<lambda>r. ev_CreatedAt (er_Record r) \<le> er_CreatedAt r) new"
  using assms insertEventLoop_effect unfolding insertStateChangeEvents_def
  by (fastforce split: sum.splits)

lemma guard_passed:
  assumes "guardIncidentObjectRowVersion env m s = None"
  shows "incident_object (mu_ObjectType m) \<and>
    (\<exists>row. map_of (st_objects s) (mu_ObjectType m, mu_ObjectID m) = Some row \<and>
       ow_version row = mu_ExpectedObjectRowVersion m)"
  using assms by (auto simp: guardIncidentObjectRowVersion_def split: if_splits option.splits)

lemma projectObjectSummary_effect:
  assumes "projectObjectSummary env ot oid s = Inr s'"
  shows "\<exists>row. map_of (st_objects s) (ot, oid) = Some row \<and>
    s' = s\<lparr> st_objects := AList.update (ot, oid) (summaryRow env ot (rows_of ot oid s) row) (st_objects s) \<rparr>"
  using assms unfolding projectObjectSummary_def rows_of_def
  by (auto split: option.splits if_splits)

interpretation summary_order: go_less summary_before
  by unfold_locales (auto simp: summary_before_def)

lemma primaryIncident_worst:
  assumes "mset rows' = mset rows"
  shows "primaryIncident rows' = None \<longleftrightarrow> rows = []"
    and "primaryIncident rows' = Some r \<Longrightarrow>
      r \<in> set rows \<and> (\<forall>q \<in> set rows. severityRank (inc_Severity q) \<le> severityRank (inc_Severity r))"
proof -
  have s: "set rows' = set rows" using assms by (rule mset_eq_setD)
  have sorted: "in_order summary_before (SliceStable summary_before rows')"
    by (rule summary_order.in_order_SliceStable)
  show "primaryIncident rows' = None \<longleftrightarrow> rows = []"
  proof -
    have "SliceStable summary_before rows' = [] \<longleftrightarrow> rows = []" using s by (metis SliceStable_Nil_iff set_empty)
    thus ?thesis by (auto simp: primaryIncident_def simp del: SliceStable_Nil_iff split: list.split)
  qed
  assume "primaryIncident rows' = Some r"
  then obtain rest where c: "SliceStable summary_before rows' = r # rest"
    by (auto simp: primaryIncident_def split: list.splits)
  hence "set rows = set (r # rest)" using s by (metis set_SliceStable)
  thus "r \<in> set rows \<and> (\<forall>q \<in> set rows. severityRank (inc_Severity q) \<le> severityRank (inc_Severity r))"
    using sorted unfolding c by (auto simp: in_order_def summary_before_def)
qed

lemma incidentMutationTx_effect:
  assumes "incidentMutationTx env m s = Inr s'" and "store_ok s"
    and "active_ok (mu_ObjectType m) (mu_ObjectID m) (mu_Active m)"
  obtains row new where "map_of (st_objects s) (mu_ObjectType m, mu_ObjectID m) = Some row"
    and "ow_version row = mu_ExpectedObjectRowVersion m" and "map er_Record new = mu_Events m"
    and "list_all (\<lambda>r. ev_CreatedAt (er_Record r) \<le> er_CreatedAt r) new"
    and "s' = s\<lparr> st_active := filter (\<lambda>r. \<not> belongs (mu_ObjectType m) (mu_ObjectID m) r) (st_active s) @ mu_Active m,
      st_events := st_events s @ new,
      st_objects := AList.update (mu_ObjectType m, mu_ObjectID m)
        (summaryRow env (mu_ObjectType m) (mu_Active m) row) (st_objects s) \<rparr>"
proof -
  let ?ot = "mu_ObjectType m" and ?oid = "mu_ObjectID m"
  obtain s1 s2 where g: "guardIncidentObjectRowVersion env m s = None"
    and r: "replaceActiveIncidents env m s = Inr s1" and e: "insertStateChangeEvents env (mu_Events m) s1 = Inr s2"
    and p: "projectObjectSummary env ?ot ?oid s2 = Inr s'"
    using assms(1) unfolding incidentMutationTx_def by (auto split: option.splits sum.splits)
  obtain row where row: "map_of (st_objects s) (?ot, ?oid) = Some row" "ow_version row = mu_ExpectedObjectRowVersion m"
    using guard_passed [OF g] by blast
  have s1: "s1 = s\<lparr> st_active := filter (\<lambda>r. \<not> belongs ?ot ?oid r) (st_active s) @ mu_Active m \<rparr>"
    using replaceActiveIncidents_effect [OF r assms(2,3)] .
  obtain new where s2: "s2 = s1\<lparr> st_events := st_events s1 @ new \<rparr>" "map er_Record new = mu_Events m"
    "list_all (\<lambda>r. ev_CreatedAt (er_Record r) \<le> er_CreatedAt r) new"
    using insertStateChangeEvents_effect [OF e] by blast
  have "filter (belongs ?ot ?oid) (mu_Active m) = mu_Active m"
    using active_ok_rows(2) [OF assms(3)] by (simp add: filter_id_conv)
  hence "rows_of ?ot ?oid s2 = mu_Active m" by (simp add: rows_of_def s2(1) s1 filter_empty_conv)
  moreover obtain row' where "map_of (st_objects s2) (?ot, ?oid) = Some row'"
    "s' = s2\<lparr> st_objects := AList.update (?ot, ?oid) (summaryRow env ?ot (rows_of ?ot ?oid s2) row') (st_objects s2) \<rparr>"
    using projectObjectSummary_effect [OF p] by blast
  moreover from this(1) have "row' = row" using row(1) by (simp add: s2(1) s1)
  ultimately have "s' = s2\<lparr> st_objects := AList.update (?ot, ?oid) (summaryRow env ?ot (mu_Active m) row) (st_objects s2) \<rparr>"
    by simp
  thus thesis using that [OF row s2(2,3)] by (simp add: s2(1) s1)
qed

lemma applied_effect:
  assumes "snd (ApplyIncidentMutation env m s) \<noteq> s"
  shows "incidentMutationTx env m s = Inr (snd (ApplyIncidentMutation env m s))"
  using assms
  by (auto simp: ApplyIncidentMutation_def commitTx_def split: if_splits option.splits sum.splits commitOutcome.splits)

lemma success_effect:
  assumes "ApplyIncidentMutation env m s = (None, s')"
  shows "incidentMutationTx env m s = Inr s'"
  using assms
  by (auto simp: ApplyIncidentMutation_def commitTx_def split: if_splits option.splits sum.splits commitOutcome.splits)

lemma replaced_store_ok:
  assumes "store_ok s" and "active_ok ot oid rows"
    and "st_active s' = filter (\<lambda>r. \<not> belongs ot oid r) (st_active s) @ rows"
  shows "store_ok s'"
proof -
  let ?rest = "filter (\<lambda>r. \<not> belongs ot oid r) (st_active s)"
  have "inc_IncidentID ` set ?rest \<inter> inc_IncidentID ` set rows = {}"
  proof (rule ccontr)
    assume "\<not> ?thesis"
    then obtain r a where "r \<in> set ?rest" "a \<in> set rows" "inc_IncidentID r = inc_IncidentID a" by force
    moreover from this have "row_ok r" "\<not> belongs ot oid r" using assms(1) by (auto simp: store_ok_def list_all_iff)
    ultimately show False using row_id_inj [of r a] active_ok_rows [OF assms(2)] by (metis belongs_def)
  qed
  thus ?thesis
    using assms(1) active_ok_ids [OF assms(2)] active_ok_rows(1) [OF assms(2)]
    by (auto simp: store_ok_def assms(3) list_all_iff distinct_map_filter)
qed

section \<open>What the transaction guarantees\<close>

text \<open>
  (C31) A mutation computed from an object row that has changed since, or that is gone, is rejected, in
  every environment: the call returns an error and the tables are as before, down to the last row.
  Without a database fault the error is the conflict, respectively the missing object, that the service
  recognises.
\<close>

theorem stale_version_rejected:
  assumes "\<forall>row. map_of (st_objects s) (mu_ObjectType m, mu_ObjectID m) = Some row \<longrightarrow>
      ow_version row \<noteq> mu_ExpectedObjectRowVersion m"
  shows "snd (ApplyIncidentMutation env m s) = s \<and> fst (ApplyIncidentMutation env m s) \<noteq> None \<and>
    (mu_ExpectedObjectRowVersion m \<noteq> [] \<and> incident_object (mu_ObjectType m) \<and> env_begin env = None \<and> env_guard env = None \<longrightarrow>
      (\<exists>err. fst (ApplyIncidentMutation env m s) = Some err \<and>
        errors_Is err (if map_of (st_objects s) (mu_ObjectType m, mu_ObjectID m) = None
          then ErrIncidentProjectionObjectNotFound else ErrIncidentProjectionConflict)))"
  using assms
  by (auto simp: ApplyIncidentMutation_def incidentMutationTx_def guardIncidentObjectRowVersion_def
      split: option.splits)

text \<open>
  (C32) A mutation that is applied replaces exactly the incidents of its object: afterwards the object
  has the active incidents of the mutation and no others, the rows and incidents of every other object
  are untouched, the tables are well formed, the events are appended in order with a recording time
  that is not before the event, and the object row has a new version, the number of its incidents, and
  the worst of their severities as health unless the object cannot be observed.
\<close>

theorem apply_replaces_exactly:
  assumes "ApplyIncidentMutation env m s = (None, s')" and "store_ok s"
    and "active_ok (mu_ObjectType m) (mu_ObjectID m) (mu_Active m)"
    and "\<And>rows. mset (env_scan env rows) = mset rows"
  shows "rows_of (mu_ObjectType m) (mu_ObjectID m) s' = mu_Active m \<and>
    (\<forall>ot oid. (ot, oid) = (mu_ObjectType m, mu_ObjectID m) \<or>
       (rows_of ot oid s' = rows_of ot oid s \<and> map_of (st_objects s') (ot, oid) = map_of (st_objects s) (ot, oid))) \<and>
    store_ok s' \<and>
    (\<exists>new. st_events s' = st_events s @ new \<and> map er_Record new = mu_Events m \<and>
       list_all (\<lambda>r. ev_CreatedAt (er_Record r) \<le> er_CreatedAt r) new) \<and>
    (\<exists>row row'. map_of (st_objects s) (mu_ObjectType m, mu_ObjectID m) = Some row \<and>
       map_of (st_objects s') (mu_ObjectType m, mu_ObjectID m) = Some row' \<and>
       ow_version row = mu_ExpectedObjectRowVersion m \<and> ow_version row' = env_newVersion env \<and>
       ow_currentActiveIncidentCount row' = int (length (mu_Active m)) \<and>
       (if \<not> observableRow (mu_ObjectType m) row then ow_currentHealthStatus row' = ''unknown''
        else if mu_Active m = [] then ow_currentHealthStatus row' = severity_string SeverityNormal
        else \<exists>p \<in> set (mu_Active m). ow_currentHealthStatus row' = severity_string (inc_Severity p) \<and>
          (\<forall>q \<in> set (mu_Active m). severityRank (inc_Severity q) \<le> severityRank (inc_Severity p))))"
proof -
  let ?ot = "mu_ObjectType m" and ?oid = "mu_ObjectID m"
  obtain row new where row: "map_of (st_objects s) (?ot, ?oid) = Some row" "ow_version row = mu_ExpectedObjectRowVersion m"
    and new: "map er_Record new = mu_Events m" "list_all (\<lambda>r. ev_CreatedAt (er_Record r) \<le> er_CreatedAt r) new"
    and s': "s' = s\<lparr> st_active := filter (\<lambda>r. \<not> belongs ?ot ?oid r) (st_active s) @ mu_Active m,
      st_events := st_events s @ new,
      st_objects := AList.update (?ot, ?oid) (summaryRow env ?ot (mu_Active m) row) (st_objects s) \<rparr>"
    by (rule incidentMutationTx_effect [OF success_effect [OF assms(1)] assms(2,3)])
  have own: "rows_of ?ot ?oid s' = mu_Active m"
    using active_ok_rows(2) [OF assms(3)] by (simp add: rows_of_def s' filter_empty_conv filter_id_conv)
  have other: "rows_of ot oid s' = rows_of ot oid s \<and> map_of (st_objects s') (ot, oid) = map_of (st_objects s) (ot, oid)"
    if "(ot, oid) \<noteq> (?ot, ?oid)" for ot oid
  proof -
    have "filter (belongs ot oid) (mu_Active m) = []"
      using active_ok_rows(2) [OF assms(3)] that by (auto simp: filter_empty_conv belongs_def)
    moreover have "filter (belongs ot oid) (filter (\<lambda>r. \<not> belongs ?ot ?oid r) (st_active s)) = filter (belongs ot oid) (st_active s)"
      using that by (auto simp: belongs_def intro!: filter_cong)
    ultimately show ?thesis using that by (auto simp: rows_of_def s' update_conv')
  qed
  let ?row' = "summaryRow env ?ot (mu_Active m) row"
  have row': "map_of (st_objects s') (?ot, ?oid) = Some ?row'" by (simp add: s' update_conv')
  note worst = primaryIncident_worst [OF assms(4) [of "mu_Active m"]]
  have health: "if \<not> observableRow ?ot row then ow_currentHealthStatus ?row' = ''unknown''
      else if mu_Active m = [] then ow_currentHealthStatus ?row' = severity_string SeverityNormal
      else \<exists>p \<in> set (mu_Active m). ow_currentHealthStatus ?row' = severity_string (inc_Severity p) \<and>
        (\<forall>q \<in> set (mu_Active m). severityRank (inc_Severity q) \<le> severityRank (inc_Severity p))"
    using worst by (cases "primaryIncident (env_scan env (mu_Active m))") (auto simp: summaryRow_def Let_def)
  have "ow_version ?row' = env_newVersion env" "ow_currentActiveIncidentCount ?row' = int (length (mu_Active m))"
    by (simp_all add: summaryRow_def Let_def)
  moreover have "store_ok s'" by (rule replaced_store_ok [OF assms(2,3)]) (simp add: s')
  moreover have "st_events s' = st_events s @ new" by (simp add: s')
  ultimately show ?thesis using own other row row' new health by (intro conjI allI) blast+
qed

section \<open>Applying succeeds\<close>

text \<open>An environment without faults.\<close>

definition quiet_env :: "dbEnv \<Rightarrow> bool" where
  "quiet_env env \<longleftrightarrow> env_begin env = None \<and> env_guard env = None \<and> env_delete env = None \<and>
     (\<forall>i. env_upsert env i = None) \<and> (\<forall>i. \<exists>x. env_newID env i = Inr x) \<and> (\<forall>i. env_insert env i = None) \<and>
     env_query env = None \<and> env_update env = None \<and> env_commit env = CommitOK"

lemma known_classes_valid: "list_all validMonitoringEventIdentifier known_classes"
  by code_simp

abbreviation incident_event_type :: "EventType \<Rightarrow> bool" where
  "incident_event_type t \<equiv> t \<in> {EventIncidentStarted, EventIncidentEscalated, EventIncidentRecovered,
     EventIncidentClosedByManagement}"

lemma metadata_incident_rule:
  assumes "event_metadata_ok e" and "incident_event_type (ev_EventType e)"
  shows "ev_RuleVersion e = MonitoringEventIncidentRuleVersion" and "ev_CorrectionOfEventID e = []"
proof -
  have "ev_EventType e \<noteq> EventCorrected" using assms(2) by auto
  hence m: "ev_CorrectionOfEventID e = []" "eventTransitionAllowed (ev_RuleVersion e) (ev_EventType e) (ev_Severity e)
      (ev_PriorState e) (ev_ResultingState e)"
    using assms(1) unfolding event_metadata_ok_def ValidMonitoringEventMetadata_def
    by (auto split: if_splits option.splits)
  show "ev_CorrectionOfEventID e = []" by (rule m(1))
  show "ev_RuleVersion e = MonitoringEventIncidentRuleVersion"
    using m(2) assms(2) unfolding eventTransitionAllowed_def by (auto split: if_splits)
qed

lemma truncate_microsecond: "time_Truncate t microsecond = t - t mod 1000"
  by (simp add: time_Truncate_def microsecond_def)

lemma recorded_not_before:
  fixes e t :: int
  assumes "e mod 1000 = 0" and "e \<le> t"
  shows "e \<le> t - t mod 1000" and "(t - t mod 1000) mod 1000 = 0"
proof -
  have t: "t - t mod 1000 = 1000 * (t div 1000)" by (rule minus_mod_eq_mult_div)
  thus "(t - t mod 1000) mod 1000 = 0" by simp
  have "e = 1000 * (e div 1000)" using assms(1) minus_mod_eq_mult_div [of e 1000] by simp
  moreover have "e div 1000 \<le> t div 1000" using assms(2) by (intro zdiv_mono1) simp_all
  ultimately show "e \<le> t - t mod 1000" unfolding t by linarith
qed

lemma payload_fields:
  "pl_ObjectType (incidentEventPayload e t) = ev_ObjectType e"
  "pl_EventType (incidentEventPayload e t) = ev_EventType e"
  "pl_Severity (incidentEventPayload e t) = ev_Severity e"
  "pl_EventAt (incidentEventPayload e t) = ev_CreatedAt e"
  "pl_RecordedAt (incidentEventPayload e t) = t"
  "pl_IsBackfilled (incidentEventPayload e t) = ev_IsBackfilled e"
  "pl_Provenance (incidentEventPayload e t) = ev_Provenance e"
  "pl_ProducerVersion (incidentEventPayload e t) = ev_ProducerVersion e"
  "pl_RuleVersion (incidentEventPayload e t) = ev_RuleVersion e"
  "pl_PriorState (incidentEventPayload e t) = ev_PriorState e"
  "pl_ResultingState (incidentEventPayload e t) = ev_ResultingState e"
  "pl_Reason (incidentEventPayload e t) = []"
  "pl_CorrectionOfEventID (incidentEventPayload e t) = ev_CorrectionOfEventID e"
  "pl_IncidentID (incidentEventPayload e t) = ev_IncidentID e"
  "pl_IncidentClass (incidentEventPayload e t) = ev_IncidentClass e"
  "pl_BindingStatus (incidentEventPayload e t) = []" "pl_LifecycleStatus (incidentEventPayload e t) = []"
  "pl_MonitoringStatus (incidentEventPayload e t) = []" "pl_RunStatus (incidentEventPayload e t) = []"
  "pl_RetirementMonitoringStatusReconciled (incidentEventPayload e t) = False"
  "pl_RetirementBindingStatusReconciled (incidentEventPayload e t) = False"
  "pl_RetirementEnrollmentCredentialsRevoked (incidentEventPayload e t) = False"
  "pl_RetirementSyncCredentialRevoked (incidentEventPayload e t) = False"
  "pl_RetirementPendingBindingCleared (incidentEventPayload e t) = False"
  "pl_RetirementPendingActionCleared (incidentEventPayload e t) = False"
  by (simp_all add: incidentEventPayload_def Let_def)

lemma incident_payload_ok:
  assumes "event_for ot oid cls e" and "incident_event_type (ev_EventType e)" and "cls \<in> set known_classes"
    and "validMonitoringEventIdentifier (incidentID ot oid cls)"
    and "0 < ev_CreatedAt e" and "ev_CreatedAt e mod 1000 = 0" and "ev_CreatedAt e \<le> t"
  shows "marshalTask4MonitoringEventPayload (incidentEventPayload e (time_Truncate t microsecond)) =
    Inr (incidentEventPayload e (time_Truncate t microsecond))"
proof -
  define p where "p = incidentEventPayload e (time_Truncate t microsecond)"
  note fields = p_def payload_fields
  have meta: "event_metadata_ok e" and id: "ev_IncidentID e = incidentID ot oid cls" "ev_IncidentClass e = cls"
    using assms(1) by (simp_all add: event_for_def)
  note rule = metadata_incident_rule [OF meta assms(2)]
  have le: "ev_CreatedAt e \<le> t - t mod 1000" using assms(6,7) by (rule recorded_not_before(1))
  have times: "pl_EventAt p = ev_CreatedAt e" "pl_RecordedAt p = t - t mod 1000"
    by (simp_all add: fields truncate_microsecond)
  have "(t - t mod 1000) mod 1000 = 0" using assms(6,7) by (rule recorded_not_before(2))
  hence "validMonitoringEventTimestamp (pl_EventAt p)" "validMonitoringEventTimestamp (pl_RecordedAt p)"
    "\<not> time_Before (pl_RecordedAt p) (pl_EventAt p)"
    using assms(5,6) le unfolding times validMonitoringEventTimestamp_def IsZero_def zeroTime_def time_Before_def
    by (simp_all add: not_less)
  moreover have "pl_CorrectionOfEventID p = []" by (simp add: fields rule)
  moreover have "ValidMonitoringEventMetadata (pl_ObjectType p) (pl_EventType p) (pl_Severity p) (pl_IsBackfilled p)
      (pl_Provenance p) (pl_ProducerVersion p) (pl_RuleVersion p) (pl_PriorState p) (pl_ResultingState p)
      (pl_CorrectionOfEventID p)"
    using meta by (simp add: event_metadata_ok_def fields)
  moreover have legacy: "validMonitoringEventLegacyFields p"
  proof -
    have "validMonitoringEventIdentifier cls" using assms(3) known_classes_valid by (simp add: list_all_iff)
    moreover have "incidentID ot oid cls \<noteq> []" by (simp add: incidentID_def)
    moreover have "pl_IncidentID p = incidentID ot oid cls" "pl_IncidentClass p = cls"
      "pl_RuleVersion p = MonitoringEventIncidentRuleVersion" "pl_Reason p = []"
      "pl_BindingStatus p = []" "pl_LifecycleStatus p = []" "pl_MonitoringStatus p = []" "pl_RunStatus p = []"
      "\<not> pl_RetirementMonitoringStatusReconciled p" "\<not> pl_RetirementBindingStatusReconciled p"
      "\<not> pl_RetirementEnrollmentCredentialsRevoked p" "\<not> pl_RetirementSyncCredentialRevoked p"
      "\<not> pl_RetirementPendingBindingCleared p" "\<not> pl_RetirementPendingActionCleared p"
      "pl_EventType p \<noteq> EventMonitoringInstanceRetirementReconciled"
      using assms(2) by (auto simp only: fields rule id insert_iff empty_iff EventType.distinct simp_thms)
    ultimately show ?thesis
      unfolding validMonitoringEventLegacyFields_def Let_def using assms(4) by simp
  qed
  ultimately have "marshalTask4MonitoringEventPayload p = Inr p"
    using legacy unfolding marshalTask4MonitoringEventPayload_def by simp
  thus ?thesis by (simp add: p_def)
qed

lemma insertEventLoop_succeeds:
  assumes "quiet_env env"
    and "\<And>e i. e \<in> set events \<Longrightarrow> marshalTask4MonitoringEventPayload (incidentEventPayload e
        (time_Truncate (env_clock env i) microsecond)) = Inr (incidentEventPayload e (time_Truncate (env_clock env i) microsecond))"
  shows "\<exists>rows'. insertEventLoop env i events rows = Inr rows'"
  using assms(2)
proof (induction events arbitrary: i rows)
  case (Cons e es)
  obtain x where "env_newID env i = Inr x" using assms(1) unfolding quiet_env_def by blast
  moreover have "env_insert env i = None" using assms(1) by (simp add: quiet_env_def)
  ultimately show ?case using Cons by (simp add: Let_def)
qed simp

lemma upsertLoop_succeeds: "quiet_env env \<Longrightarrow> \<exists>rows'. upsertLoop env i incidents rows = Inr rows'"
  by (induction incidents arbitrary: i rows) (auto simp: quiet_env_def)

text \<open>
  (C33) Without database faults a mutation whose expected version is current is applied: the events of the
  incident rules pass every check of the payload, given that the object identifier is one the contract
  allows and that the clock of the center is not behind the times of the events.
\<close>

theorem apply_succeeds:
  assumes "quiet_env env" and "incident_object (mu_ObjectType m)" and "mu_ExpectedObjectRowVersion m \<noteq> []"
    and "map_of (st_objects s) (mu_ObjectType m, mu_ObjectID m) = Some row"
    and "ow_version row = mu_ExpectedObjectRowVersion m"
    and "\<And>e. e \<in> set (mu_Events m) \<Longrightarrow> event_for (mu_ObjectType m) (mu_ObjectID m) (ev_IncidentClass e) e \<and>
      incident_event_type (ev_EventType e) \<and> ev_IncidentClass e \<in> set known_classes \<and>
      validMonitoringEventIdentifier (incidentID (mu_ObjectType m) (mu_ObjectID m) (ev_IncidentClass e)) \<and>
      0 < ev_CreatedAt e \<and> ev_CreatedAt e mod 1000 = 0 \<and> (\<forall>i. ev_CreatedAt e \<le> env_clock env i)"
  shows "fst (ApplyIncidentMutation env m s) = None"
proof -
  have g: "guardIncidentObjectRowVersion env m s = None"
    using assms(1,2,4,5) by (auto simp: guardIncidentObjectRowVersion_def quiet_env_def)
  have d: "env_delete env = None" using assms(1) by (simp add: quiet_env_def)
  obtain rows where "upsertLoop env 0 (mu_Active m)
      (filter (\<lambda>r. \<not> belongs (mu_ObjectType m) (mu_ObjectID m) r) (st_active s)) = Inr rows"
    using upsertLoop_succeeds [OF assms(1)] by blast
  hence r: "replaceActiveIncidents env m s = Inr (s\<lparr> st_active := rows \<rparr>)"
    by (simp add: replaceActiveIncidents_def d)
  have "\<exists>rows'. insertEventLoop env 0 (mu_Events m) (st_events s) = Inr rows'"
    using assms(6) by (intro insertEventLoop_succeeds [OF assms(1)] incident_payload_ok) auto
  then obtain rows' where e: "insertStateChangeEvents env (mu_Events m) (s\<lparr> st_active := rows \<rparr>) =
      Inr (s\<lparr> st_active := rows, st_events := rows' \<rparr>)"
    by (auto simp: insertStateChangeEvents_def)
  have p: "\<exists>s'. projectObjectSummary env (mu_ObjectType m) (mu_ObjectID m) (s\<lparr> st_active := rows, st_events := rows' \<rparr>) = Inr s'"
    using assms(1,2,4) by (auto simp: projectObjectSummary_def quiet_env_def)
  show ?thesis
    using assms(1,3) g r e p unfolding ApplyIncidentMutation_def incidentMutationTx_def commitTx_def quiet_env_def
    by auto
qed

section \<open>Events from the future\<close>

lemma insertEventLoop_clock:
  assumes "insertEventLoop env i events rows = Inr rows'" and "e \<in> set events"
  shows "\<exists>j. ev_CreatedAt e \<le> env_clock env j"
  using assms
proof (induction events arbitrary: i rows)
  case (Cons x xs)
  let ?t = "time_Truncate (env_clock env i) microsecond"
  obtain eid p where loop: "insertEventLoop env (i + 1) xs
      (rows @ [\<lparr> er_EventID = eid, er_Record = x, er_Payload = p, er_CreatedAt = ?t \<rparr>]) = Inr rows'"
    and m: "marshalTask4MonitoringEventPayload (incidentEventPayload x ?t) = Inr p"
    using Cons.prems(1) by (auto simp: Let_def split: sum.splits option.splits)
  have "ev_CreatedAt x \<le> ?t"
    using m by (auto simp: marshalTask4MonitoringEventPayload_def payload_fields time_Before_def split: if_splits)
  hence "ev_CreatedAt x \<le> env_clock env i" using time_Truncate_le by (rule order_trans)
  thus ?case using Cons.IH [OF loop] Cons.prems(2) by auto
qed simp

lemma marshal_error:
  "marshalTask4MonitoringEventPayload p = Inl err \<Longrightarrow> \<exists>msg. err = NewError msg"
  by (auto simp: marshalTask4MonitoringEventPayload_def split: if_splits)

lemma insertEventLoop_error:
  assumes "quiet_env env" and "insertEventLoop env i events rows = Inl err"
  shows "\<exists>msg. err = WrapError ''build event payload'' (NewError msg)"
  using assms(2)
proof (induction events arbitrary: i rows)
  case (Cons x xs)
  obtain eid where eid: "env_newID env i = Inr eid" using assms(1) unfolding quiet_env_def by blast
  have ins: "env_insert env i = None" using assms(1) by (simp add: quiet_env_def)
  show ?case
    using Cons.prems Cons.IH eid ins by (auto simp: Let_def split: sum.splits dest: marshal_error)
qed simp

text \<open>
  An event that lies after the clock of the center makes the whole mutation fail, in every
  environment, and nothing of it is stored.  When no database fault occurs and the mutation is based on
  the current row version, the error is neither the conflict nor the missing object, the two errors the
  service retries or ignores.
\<close>

lemma future_event_blocks_mutation:
  assumes "e \<in> set (mu_Events m)" and "\<And>i. env_clock env i < ev_CreatedAt e"
  shows "fst (ApplyIncidentMutation env m s) \<noteq> None \<and> snd (ApplyIncidentMutation env m s) = s \<and>
    (quiet_env env \<and> incident_object (mu_ObjectType m) \<and> mu_ExpectedObjectRowVersion m \<noteq> [] \<and>
       (\<exists>row. map_of (st_objects s) (mu_ObjectType m, mu_ObjectID m) = Some row \<and>
         ow_version row = mu_ExpectedObjectRowVersion m) \<longrightarrow>
     (\<exists>err. fst (ApplyIncidentMutation env m s) = Some err \<and> \<not> errors_Is err ErrIncidentProjectionConflict \<and>
        \<not> errors_Is err ErrIncidentProjectionObjectNotFound))"
proof -
  have no: "insertStateChangeEvents env (mu_Events m) s1 \<noteq> Inr s2" for s1 s2
  proof
    assume "insertStateChangeEvents env (mu_Events m) s1 = Inr s2"
    then obtain rows where "insertEventLoop env 0 (mu_Events m) (st_events s1) = Inr rows"
      by (auto simp: insertStateChangeEvents_def split: sum.splits)
    from insertEventLoop_clock [OF this assms(1)] show False using assms(2) by (meson not_less)
  qed
  hence tx: "\<exists>err. incidentMutationTx env m s = Inl err"
    unfolding incidentMutationTx_def by (auto split: option.split sum.split)
  have "\<exists>msg. incidentMutationTx env m s = Inl (WrapError ''build event payload'' (NewError msg))"
    if q: "quiet_env env" and "incident_object (mu_ObjectType m)"
      and "map_of (st_objects s) (mu_ObjectType m, mu_ObjectID m) = Some row" "ow_version row = mu_ExpectedObjectRowVersion m"
    for row
  proof -
    have g: "guardIncidentObjectRowVersion env m s = None"
      using that by (auto simp: guardIncidentObjectRowVersion_def quiet_env_def)
    obtain s1 where r: "replaceActiveIncidents env m s = Inr s1"
      using upsertLoop_succeeds [OF q, of 0 "mu_Active m"
          "filter (\<lambda>r. \<not> belongs (mu_ObjectType m) (mu_ObjectID m) r) (st_active s)"] q
      by (auto simp: replaceActiveIncidents_def quiet_env_def)
    obtain err where e: "insertStateChangeEvents env (mu_Events m) s1 = Inl err"
      using no by (cases "insertStateChangeEvents env (mu_Events m) s1") auto
    hence "insertEventLoop env 0 (mu_Events m) (st_events s1) = Inl err"
      by (auto simp: insertStateChangeEvents_def split: sum.splits)
    with insertEventLoop_error [OF q] g r e show ?thesis by (auto simp: incidentMutationTx_def)
  qed
  with tx show ?thesis by (auto simp: ApplyIncidentMutation_def quiet_env_def split: option.split)
qed

section \<open>Concrete transactions\<close>

definition sample_row :: objectRow where
  "sample_row = \<lparr> ow_version = ''7'', ow_lifecycleStatus = LifecycleInUse, ow_status = MonitoringEnabled,
     ow_bindingStatus = BindingBound, ow_lastTrustedOnlineAt = Some 1, ow_boundSample = True,
     ow_currentHealthStatus = [], ow_currentActiveIncidentCount = 2, ow_currentPrimaryIssueSummary = [] \<rparr>"

definition sample_store :: incidentStore where
  "sample_store = \<lparr> st_objects = [((ObjectTypeMonitoringInstance, ''mi''), sample_row)], st_active = sample_previous,
     st_events = [], st_notifications = [] \<rparr>"

definition sample_env :: dbEnv where
  "sample_env = \<lparr> env_begin = None, env_guard = None, env_delete = None, env_upsert = (\<lambda>i. None),
     env_newID = (\<lambda>i. Inr (''evt'' @ itoa (int i))), env_clock = (\<lambda>i. 90 * second), env_insert = (\<lambda>i. None), env_query = None,
     env_update = None, env_commit = CommitOK, env_newVersion = ''8'', env_scan = rev \<rparr>"

definition sample_mutation :: IncidentMutation where
  "sample_mutation = buildMutation rev ObjectTypeMonitoringInstance ''mi'' ''7'' sample_previous sample_evaluations"

lemma sample_mutation_fields:
  "mu_ObjectType sample_mutation = ObjectTypeMonitoringInstance" "mu_ObjectID sample_mutation = ''mi''"
  "mu_ExpectedObjectRowVersion sample_mutation = ''7''"
  by (simp_all add: sample_mutation_def buildMutation_fields)

lemma sample_store_ok: "store_ok sample_store"
  by code_simp

lemma sample_active_ok: "active_ok (mu_ObjectType sample_mutation) (mu_ObjectID sample_mutation) (mu_Active sample_mutation)"
  by code_simp

lemma sample_quiet: "quiet_env sample_env"
  by (simp add: quiet_env_def sample_env_def)

lemma sample_apply: "fst (ApplyIncidentMutation sample_env sample_mutation sample_store) = None"
  by code_simp

theorem stale_version_rejected_witness:
  "snd (ApplyIncidentMutation sample_env (sample_mutation\<lparr> mu_ExpectedObjectRowVersion := ''6'' \<rparr>) sample_store) = sample_store \<and>
   (\<exists>err. fst (ApplyIncidentMutation sample_env (sample_mutation\<lparr> mu_ExpectedObjectRowVersion := ''6'' \<rparr>) sample_store) = Some err \<and>
     errors_Is err ErrIncidentProjectionConflict)"
  using stale_version_rejected [of sample_store "sample_mutation\<lparr> mu_ExpectedObjectRowVersion := ''6'' \<rparr>" sample_env]
  by (simp add: sample_store_def sample_mutation_fields sample_row_def sample_env_def)

theorem apply_replaces_exactly_witness:
  "rows_of ObjectTypeMonitoringInstance ''mi'' (snd (ApplyIncidentMutation sample_env sample_mutation sample_store)) =
     mu_Active sample_mutation \<and>
   map inc_IncidentClass (mu_Active sample_mutation) =
     [IncidentMonitoringInstanceDiskPressure, IncidentMonitoringInstanceInodePressure]"
proof -
  have "ApplyIncidentMutation sample_env sample_mutation sample_store =
      (None, snd (ApplyIncidentMutation sample_env sample_mutation sample_store))"
    using sample_apply by (metis prod.collapse)
  from apply_replaces_exactly [OF this sample_store_ok sample_active_ok]
  have "rows_of ObjectTypeMonitoringInstance ''mi'' (snd (ApplyIncidentMutation sample_env sample_mutation sample_store)) =
      mu_Active sample_mutation"
    unfolding sample_mutation_fields by (simp add: sample_env_def)
  moreover have "map inc_IncidentClass (mu_Active sample_mutation) =
      [IncidentMonitoringInstanceDiskPressure, IncidentMonitoringInstanceInodePressure]" by code_simp
  ultimately show ?thesis by simp
qed

lemma sample_events:
  "list_all (\<lambda>e. event_for ObjectTypeMonitoringInstance ''mi'' (ev_IncidentClass e) e \<and>
      incident_event_type (ev_EventType e) \<and> ev_IncidentClass e \<in> set known_classes \<and>
      validMonitoringEventIdentifier (incidentID ObjectTypeMonitoringInstance ''mi'' (ev_IncidentClass e)) \<and>
      0 < ev_CreatedAt e \<and> ev_CreatedAt e mod 1000 = 0 \<and> ev_CreatedAt e \<le> 90 * second) (mu_Events sample_mutation)"
  by code_simp

theorem apply_succeeds_witness:
  "fst (ApplyIncidentMutation sample_env sample_mutation sample_store) = None"
proof (rule apply_succeeds [where row = sample_row])
  show "quiet_env sample_env" by (rule sample_quiet)
  show "event_for (mu_ObjectType sample_mutation) (mu_ObjectID sample_mutation) (ev_IncidentClass e) e \<and>
      incident_event_type (ev_EventType e) \<and> ev_IncidentClass e \<in> set known_classes \<and>
      validMonitoringEventIdentifier (incidentID (mu_ObjectType sample_mutation) (mu_ObjectID sample_mutation) (ev_IncidentClass e)) \<and>
      0 < ev_CreatedAt e \<and> ev_CreatedAt e mod 1000 = 0 \<and> (\<forall>i. ev_CreatedAt e \<le> env_clock sample_env i)"
    if "e \<in> set (mu_Events sample_mutation)" for e
    using sample_events that unfolding sample_mutation_fields list_all_iff by (simp add: sample_env_def)
qed (simp_all add: sample_mutation_fields sample_store_def sample_row_def)

end
