(* ===== verification/Incident_Attempts.thy ===== *)
theory Incident_Attempts
  imports Incident_Store
begin

text \<open>
  The evaluation attempts of \<open>internal/center/incidents/service.go\<close>: what an attempt reads, the mutation
  it builds from what it read, the call of the writer, the retry after a conflict, and the entry points
  after a sync and for the periodic sweep.  Everything an attempt reads from the repositories is a
  record of read results, one field per call, so that two reads of the settings may differ; the orders
  in which the runtime ranges over maps are part of it.  Identifiers that the source formats into error
  messages are left out.
\<close>

section \<open>Reads\<close>

record attemptReads =
  rd_rowVersion :: "serviceError + string"
  rd_instance :: "serviceError + MonitoringInstanceRecord"
  rd_target :: "serviceError + TargetRecord"
  rd_active :: "serviceError + IncidentRecord list"
  rd_settings :: "SettingsRepo option"
  rd_resourceSettings :: "SettingsRepo option"
  rd_receipts :: "time \<Rightarrow> serviceError + LiveHeartbeatReceipt list"
  rd_windowSamples :: "time \<Rightarrow> serviceError + HostSample list"
  rd_hostSamples :: "time \<Rightarrow> serviceError + HostSample list"
  rd_hostDaily :: "time \<Rightarrow> time \<Rightarrow> serviceError + MonitoringInstanceHostDailyAggregate list"
  rd_probeObservations :: "time \<Rightarrow> serviceError + ProbeObservation list"
  rd_probeDaily :: "time \<Rightarrow> time \<Rightarrow> serviceError + TargetProbeDailyAggregate list"
  rd_rangeOrder :: "(IncidentClass, IncidentRecord) gomap \<Rightarrow> (IncidentClass, IncidentRecord) gomap"
  rd_scanOrder :: "(string, ProbeObservation list) gomap \<Rightarrow> (string, ProbeObservation list) gomap"
  rd_recoveryOrder :: "(string, ProbeObservation list) gomap \<Rightarrow> (string, ProbeObservation list) gomap"

text \<open>\<open>GetObjectRowVersion\<close> of the snapshot reader wraps a missing row; here its result is given.\<close>

definition objectRowVersion :: "attemptReads \<Rightarrow> serviceError + string" where
  "objectRowVersion reads =
     (case rd_rowVersion reads of
        Inl err \<Rightarrow> Inl (WrapError ''get incident projection row version'' err)
      | Inr rowVersion \<Rightarrow>
          if rowVersion = [] then Inl (NewError ''get incident projection row version: empty row version'')
          else Inr rowVersion)"

section \<open>Attempts\<close>

record evaluationAttemptResult =
  ar_evaluations :: "classEvaluation list"
  ar_appendNotification :: bool
  ar_notificationPolicy :: "notificationPolicy option"
  ar_monitoringInstance :: "MonitoringInstanceRecord option"
  ar_conflict :: bool
  ar_err :: "serviceError option"

definition emptyAttempt :: evaluationAttemptResult where
  "emptyAttempt = \<lparr> ar_evaluations = [], ar_appendNotification = False, ar_notificationPolicy = None,
     ar_monitoringInstance = None, ar_conflict = False, ar_err = None \<rparr>"

definition failedAttempt :: "serviceError \<Rightarrow> evaluationAttemptResult" where
  "failedAttempt err = emptyAttempt\<lparr> ar_err := Some err \<rparr>"

text \<open>The writer: \<open>ApplyIncidentMutation\<close> in an environment, on the current tables.\<close>

type_synonym writer = "IncidentMutation \<Rightarrow> incidentStore \<Rightarrow> serviceError option \<times> incidentStore"

definition applyEvaluationAttempt ::
    "writer \<Rightarrow> IncidentMutation \<Rightarrow> classEvaluation list \<Rightarrow> bool \<Rightarrow> incidentStore \<Rightarrow>
     evaluationAttemptResult \<times> incidentStore" where
  "applyEvaluationAttempt write mutation evaluations appendNotification s =
     (let (err, s') = write mutation s in
      (\<lparr> ar_evaluations = evaluations, ar_appendNotification = appendNotification,
         ar_notificationPolicy = None, ar_monitoringInstance = None,
         ar_conflict = (case err of None \<Rightarrow> False | Some e \<Rightarrow> errors_Is e ErrIncidentProjectionConflict),
         ar_err = err \<rparr>, s'))"

text \<open>
  What an attempt decides before it calls the writer: to stop with an error, to do nothing, to close
  everything, or to apply the evaluations.
\<close>

datatype attemptPlan =
  PlanFailed serviceError
| PlanNothing
| PlanClose IncidentMutation
| PlanApply IncidentMutation "classEvaluation list" "notificationPolicy option" "MonitoringInstanceRecord option"

definition runPlan ::
    "writer \<Rightarrow> attemptPlan \<Rightarrow> incidentStore \<Rightarrow> evaluationAttemptResult \<times> incidentStore" where
  "runPlan write plan s =
     (case plan of
        PlanFailed err \<Rightarrow> (failedAttempt err, s)
      | PlanNothing \<Rightarrow> (emptyAttempt, s)
      | PlanClose mutation \<Rightarrow> applyEvaluationAttempt write mutation [] False s
      | PlanApply mutation evaluations policy monitoringInstance \<Rightarrow>
          let (result, s') = applyEvaluationAttempt write mutation evaluations True s in
          (result\<lparr> ar_notificationPolicy := policy, ar_monitoringInstance := monitoringInstance \<rparr>, s'))"

definition getMonitoringInstance :: "attemptReads \<Rightarrow> serviceError + MonitoringInstanceRecord" where
  "getMonitoringInstance reads =
     (case rd_instance reads of
        Inl err \<Rightarrow>
          if errors_Is err ErrMonitoringInstanceNotFound then Inl ErrIncidentProjectionObjectNotFound
          else Inl (WrapError ''get monitoring instance for incident evaluation'' err)
      | Inr r \<Rightarrow> Inr r)"

definition getTarget :: "attemptReads \<Rightarrow> serviceError + TargetRecord" where
  "getTarget reads =
     (case rd_target reads of
        Inl err \<Rightarrow>
          if errors_Is err ErrTargetNotFound then Inl ErrIncidentProjectionObjectNotFound
          else Inl (WrapError ''get target for incident evaluation'' err)
      | Inr r \<Rightarrow> Inr r)"

definition listPrevious :: "string \<Rightarrow> attemptReads \<Rightarrow> serviceError + IncidentRecord list" where
  "listPrevious message reads =
     (case rd_active reads of Inl err \<Rightarrow> Inl (WrapError message err) | Inr previous \<Rightarrow> Inr previous)"

definition heartbeatEvaluation ::
    "attemptReads \<Rightarrow> IncidentRecord list \<Rightarrow> incidentPolicySnapshot \<Rightarrow> MonitoringInstanceRecord \<Rightarrow> string \<Rightarrow> time \<Rightarrow>
     serviceError + EvaluationResult" where
  "heartbeatEvaluation reads previous policySnapshot r monitoringInstanceID now =
     (let heartbeatPrevious = active_in previous IncidentMonitoringInstanceHeartbeatMissing in
      case heartbeatRecoveryReceipts now (mi_LastHeartbeatAt r) heartbeatPrevious (ps_heartbeat policySnapshot)
          (rd_receipts reads) of
        Inl err \<Rightarrow> Inl err
      | Inr recoveryReceipts \<Rightarrow> Inr (EvaluateMonitoringInstanceHeartbeatMissing heartbeatPrevious monitoringInstanceID now
          (mi_LastHeartbeatAt r) (ps_heartbeat policySnapshot) recoveryReceipts))"

definition heartbeatOnlyPlan :: "attemptReads \<Rightarrow> duration \<Rightarrow> string \<Rightarrow> time \<Rightarrow> attemptPlan" where
  "heartbeatOnlyPlan reads fallbackHeartbeatInterval monitoringInstanceID now =
     (case objectRowVersion reads of
        Inl err \<Rightarrow> PlanFailed err
      | Inr rowVersion \<Rightarrow>
     (case getMonitoringInstance reads of
        Inl err \<Rightarrow> PlanFailed err
      | Inr r \<Rightarrow>
     (case listPrevious ''list previous monitoring instance incidents'' reads of
        Inl err \<Rightarrow> PlanFailed err
      | Inr previous \<Rightarrow>
          if isInactiveMonitoringInstance r then
            if previous = [] then PlanNothing
            else PlanClose (buildAdministrativeRecoveryMutation ObjectTypeMonitoringInstance monitoringInstanceID rowVersion
              previous now (administrativeRecoverySummaryForMonitoringInstance r))
          else
     (case resolveIncidentPolicySnapshot (rd_settings reads) fallbackHeartbeatInterval of
        Inl err \<Rightarrow> PlanFailed err
      | Inr policySnapshot \<Rightarrow>
     (case heartbeatEvaluation reads previous policySnapshot r monitoringInstanceID now of
        Inl err \<Rightarrow> PlanFailed err
      | Inr heartbeat \<Rightarrow>
          let evaluations = [\<lparr> ce_class = IncidentMonitoringInstanceHeartbeatMissing, ce_result = heartbeat \<rparr>]
          in PlanApply (buildMutation (rd_rangeOrder reads) ObjectTypeMonitoringInstance monitoringInstanceID rowVersion
               previous evaluations) evaluations (Some (ps_notification policySnapshot)) (Some r))))))"

definition instanceEvaluations ::
    "IncidentRecord list \<Rightarrow> string \<Rightarrow> EvaluationResult \<Rightarrow> HostSample list \<Rightarrow> HostSample list \<Rightarrow> HostSample list \<Rightarrow>
     MonitoringInstanceHostDailyAggregate list \<Rightarrow> MetricThresholds \<Rightarrow> ResourcePressurePolicy \<Rightarrow> classEvaluation list" where
  "instanceEvaluations previous oid heartbeat windowSamples hostSamples trendSamples baselines thresholds resourcePolicy =
     [\<lparr> ce_class = IncidentMonitoringInstanceHeartbeatMissing, ce_result = heartbeat \<rparr>] @
     (case hostSamples of
        [] \<Rightarrow> []
      | latest # _ \<Rightarrow>
          [\<lparr> ce_class = IncidentMonitoringInstanceDiskPressure,
             ce_result = EvaluateMonitoringInstanceDiskPressure (active_in previous IncidentMonitoringInstanceDiskPressure)
               oid (Some latest) thresholds \<rparr>,
           \<lparr> ce_class = IncidentMonitoringInstanceInodePressure,
             ce_result = EvaluateMonitoringInstanceInodePressure (active_in previous IncidentMonitoringInstanceInodePressure)
               oid (Some latest) thresholds \<rparr>]) @
     [\<lparr> ce_class = IncidentMonitoringInstanceResourcePressure,
        ce_result = EvaluateMonitoringInstanceResourcePressure (active_in previous IncidentMonitoringInstanceResourcePressure)
          oid (monitoringInstanceResourceSamplesFromHostSamples windowSamples) thresholds resourcePolicy \<rparr>,
      \<lparr> ce_class = IncidentMonitoringInstanceTrendDegradation,
        ce_result = EvaluateMonitoringInstanceTrendDegradation (active_in previous IncidentMonitoringInstanceTrendDegradation)
          oid (monitoringInstanceResourceSamplesFromHostSamples trendSamples) baselines \<rparr>]"

definition instancePlan ::
    "attemptReads \<Rightarrow> duration \<Rightarrow> string \<Rightarrow> time \<Rightarrow> heartbeatEvaluationTrigger \<Rightarrow> attemptPlan" where
  "instancePlan reads fallbackHeartbeatInterval monitoringInstanceID now trigger =
     (case objectRowVersion reads of
        Inl err \<Rightarrow> PlanFailed err
      | Inr rowVersion \<Rightarrow>
     (case getMonitoringInstance reads of
        Inl err \<Rightarrow> PlanFailed err
      | Inr r \<Rightarrow>
     (case listPrevious ''list previous monitoring instance incidents'' reads of
        Inl err \<Rightarrow> PlanFailed err
      | Inr previous \<Rightarrow>
          if isInactiveMonitoringInstance r then
            if previous = [] then PlanNothing
            else PlanClose (buildAdministrativeRecoveryMutation ObjectTypeMonitoringInstance monitoringInstanceID rowVersion
              previous now (administrativeRecoverySummaryForMonitoringInstance r))
          else
     (case resolveIncidentPolicySnapshot (rd_settings reads) fallbackHeartbeatInterval of
        Inl err \<Rightarrow> PlanFailed err
      | Inr policySnapshot \<Rightarrow>
     (case (if ht_suppressTransitions trigger
            then Inr (skip (active_in previous IncidentMonitoringInstanceHeartbeatMissing))
            else heartbeatEvaluation reads previous policySnapshot r monitoringInstanceID now) of
        Inl err \<Rightarrow> PlanFailed err
      | Inr heartbeat \<Rightarrow>
     (case resourcePressurePolicy (rd_resourceSettings reads) (mi_Labels r) now of
        Inl err \<Rightarrow> PlanFailed err
      | Inr resourcePolicy \<Rightarrow>
     (case rd_windowSamples reads now of
        Inl err \<Rightarrow> PlanFailed (WrapError ''list resource window host samples'' err)
      | Inr windowSamples \<Rightarrow>
     (case rd_hostSamples reads (now - 30 * minute) of
        Inl err \<Rightarrow> PlanFailed (WrapError ''list recent host samples'' err)
      | Inr hostSamples \<Rightarrow>
     (case rd_hostSamples reads (now - 24 * hour) of
        Inl err \<Rightarrow> PlanFailed (WrapError ''list trend host samples'' err)
      | Inr trendSamples \<Rightarrow>
     (case rd_hostDaily reads (fst (trendBaselineWindow now)) (snd (trendBaselineWindow now)) of
        Inl err \<Rightarrow> PlanFailed (WrapError ''list monitoring instance trend baselines'' err)
      | Inr baselines \<Rightarrow>
          let evaluations = instanceEvaluations previous monitoringInstanceID heartbeat windowSamples hostSamples
                trendSamples baselines (ps_metrics policySnapshot) resourcePolicy
          in PlanApply (buildMutation (rd_rangeOrder reads) ObjectTypeMonitoringInstance monitoringInstanceID rowVersion
               previous evaluations) evaluations (Some (ps_notification policySnapshot)) (Some r)))))))))))"

definition targetEvaluations ::
    "attemptReads \<Rightarrow> IncidentRecord list \<Rightarrow> string \<Rightarrow> ProbeObservation list \<Rightarrow> ProbeObservation list \<Rightarrow>
     TargetProbeDailyAggregate list \<Rightarrow> classEvaluation list" where
  "targetEvaluations reads previous targetID obs trendObservations baselines =
     [\<lparr> ce_class = IncidentTargetProbeFailure,
        ce_result = evaluateTargetProbeFailureAcrossSeries (active_in previous IncidentTargetProbeFailure) targetID obs \<rparr>,
      \<lparr> ce_class = IncidentTargetTLSExpiry,
        ce_result = evaluateTargetTLSExpiryAcrossSeries (active_in previous IncidentTargetTLSExpiry) targetID obs \<rparr>,
      \<lparr> ce_class = IncidentTargetLatencyTrendDegradation,
        ce_result = EvaluateTargetLatencyTrendDegradationAcrossSeries (rd_scanOrder reads) (rd_recoveryOrder reads)
          (active_in previous IncidentTargetLatencyTrendDegradation) targetID trendObservations baselines \<rparr>]"

definition targetPlan :: "attemptReads \<Rightarrow> string \<Rightarrow> time \<Rightarrow> attemptPlan" where
  "targetPlan reads targetID now =
     (case objectRowVersion reads of
        Inl err \<Rightarrow> PlanFailed err
      | Inr rowVersion \<Rightarrow>
     (case getTarget reads of
        Inl err \<Rightarrow> PlanFailed err
      | Inr target \<Rightarrow>
     (case listPrevious ''list previous target incidents'' reads of
        Inl err \<Rightarrow> PlanFailed err
      | Inr previous \<Rightarrow>
          if shouldRecoverIncidentsForTarget target then
            if previous = [] then PlanNothing
            else PlanClose (buildAdministrativeRecoveryMutation ObjectTypeTarget targetID rowVersion previous now
              (administrativeRecoverySummaryForTarget target))
          else
     (case rd_probeObservations reads (now - 6 * hour) of
        Inl err \<Rightarrow> PlanFailed (WrapError ''list recent probe observations'' err)
      | Inr obs \<Rightarrow>
     (case rd_probeObservations reads (now - 24 * hour) of
        Inl err \<Rightarrow> PlanFailed (WrapError ''list trend probe observations'' err)
      | Inr trendObservations \<Rightarrow>
     (case rd_probeDaily reads (fst (trendBaselineWindow now)) (snd (trendBaselineWindow now)) of
        Inl err \<Rightarrow> PlanFailed (WrapError ''list target trend baselines'' err)
      | Inr baselines \<Rightarrow>
          let evaluations = targetEvaluations reads previous targetID obs trendObservations baselines
          in PlanApply (buildMutation (rd_rangeOrder reads) ObjectTypeTarget targetID rowVersion previous evaluations)
               evaluations None None))))))"

definition evaluateMonitoringInstanceHeartbeatOnlyAttempt ::
    "writer \<Rightarrow> attemptReads \<Rightarrow> duration \<Rightarrow> string \<Rightarrow> time \<Rightarrow> incidentStore \<Rightarrow> evaluationAttemptResult \<times> incidentStore" where
  "evaluateMonitoringInstanceHeartbeatOnlyAttempt write reads fallback oid now s =
     runPlan write (heartbeatOnlyPlan reads fallback oid now) s"

definition evaluateMonitoringInstanceAttempt ::
    "writer \<Rightarrow> attemptReads \<Rightarrow> duration \<Rightarrow> string \<Rightarrow> time \<Rightarrow> heartbeatEvaluationTrigger \<Rightarrow> incidentStore \<Rightarrow>
     evaluationAttemptResult \<times> incidentStore" where
  "evaluateMonitoringInstanceAttempt write reads fallback oid now trigger s =
     runPlan write (instancePlan reads fallback oid now trigger) s"

definition evaluateTargetAttempt ::
    "writer \<Rightarrow> attemptReads \<Rightarrow> string \<Rightarrow> time \<Rightarrow> incidentStore \<Rightarrow> evaluationAttemptResult \<times> incidentStore" where
  "evaluateTargetAttempt write reads targetID now s = runPlan write (targetPlan reads targetID now) s"

section \<open>Retry\<close>

definition warnProjectionConflictRetryExhausted ::
    "time \<Rightarrow> ObjectType \<Rightarrow> (ObjectType, time) gomap \<Rightarrow> (ObjectType, time) gomap \<times> bool" where
  "warnProjectionConflictRetryExhausted now objectType warnAt =
     (let lastAt = (case map_of warnAt objectType of None \<Rightarrow> zeroTime | Some t \<Rightarrow> t) in
      if \<not> IsZero lastAt \<and> time_Before now (lastAt + minute) then (warnAt, False)
      else (AList.update objectType now warnAt, True))"

text \<open>
  The loop of \<open>evaluateObjectWithRetry\<close>.  \<open>attempt i now w\<close> is attempt number \<open>i\<close> on the state \<open>w\<close>;
  \<open>notify\<close> appends the notification records of its result, \<open>warn\<close> is the warning about an exhausted
  retry, and \<open>freshNow\<close> the clock read after a conflict.
\<close>

function retryLoop ::
    "time \<Rightarrow> time \<Rightarrow> (nat \<Rightarrow> time \<Rightarrow> 'w \<Rightarrow> evaluationAttemptResult \<times> 'w) \<Rightarrow>
     (evaluationAttemptResult \<Rightarrow> 'w \<Rightarrow> serviceError option \<times> 'w) \<Rightarrow> ('w \<Rightarrow> 'w) \<Rightarrow> nat \<Rightarrow> time \<Rightarrow> 'w \<Rightarrow>
     serviceError option \<times> 'w" where
  "retryLoop triggerNow freshNow attempt notify warn attemptNumber attemptNow w =
     (if 2 \<le> attemptNumber then (None, w)
      else case attempt attemptNumber attemptNow w of (result, w') \<Rightarrow>
        (case ar_err result of
           None \<Rightarrow> if \<not> ar_appendNotification result then (None, w') else notify result w'
         | Some err \<Rightarrow>
             if errors_Is err ErrIncidentProjectionObjectNotFound then (None, w')
             else if \<not> ar_conflict result then (Some err, w')
             else if attemptNumber = 0
             then retryLoop triggerNow freshNow attempt notify warn (attemptNumber + 1)
                    (if time_After freshNow triggerNow then freshNow else triggerNow) w'
             else (None, warn w')))"
  by pat_completeness auto
termination by (relation "measure (\<lambda>(_, _, _, _, _, n, _, _). 2 - n)") auto

declare retryLoop.simps [simp del]

text \<open>
  What the service runs on: the tables and its own record of warnings.  The environment of one object
  evaluation gives, per attempt, the reads, the outcome of the database statements and the effect of
  the other transactions that committed since the previous attempt.
\<close>

record serviceState =
  sv_store :: incidentStore
  sv_projectionConflictWarnAt :: "(ObjectType, time) gomap"

record serviceEnv =
  se_reads :: "nat \<Rightarrow> attemptReads"
  se_db :: "nat \<Rightarrow> dbEnv"
  se_others :: "nat \<Rightarrow> incidentStore \<Rightarrow> incidentStore"
  se_now :: time
  se_warnNow :: time
  se_dispatcher :: "NotificationDispatcher option"
  se_sentAt :: "nat \<Rightarrow> nat \<Rightarrow> time"
  se_notificationSettings :: "SettingsRepo option"
  se_notificationDb :: dbEnv
  se_fallbackHeartbeatInterval :: duration

text \<open>The notification records of a result, with the policy of the attempt when it has one.\<close>

definition appendAttemptNotifications ::
    "serviceEnv \<Rightarrow> ObjectType \<Rightarrow> string \<Rightarrow> evaluationAttemptResult \<Rightarrow> serviceState \<Rightarrow>
     serviceError option \<times> serviceState" where
  "appendAttemptNotifications se objectType objectID result w =
     (let (policy, monitoringInstance) =
            (case ar_notificationPolicy result of
               Some policy \<Rightarrow> (policy, ar_monitoringInstance result)
             | None \<Rightarrow> (notificationPolicyFor (se_notificationSettings se), None));
          records = fst (appendNotificationRecordsWithPolicy (se_dispatcher se) (se_sentAt se) (\<lambda>_. None)
            objectType objectID (ar_evaluations result) policy monitoringInstance)
      in if records = [] then (None, w)
         else let (err, s) = AppendNotificationRecords (se_notificationDb se) records (sv_store w)
              in (err, w\<lparr> sv_store := s \<rparr>))"

definition evaluateObjectWithRetry ::
    "serviceEnv \<Rightarrow> ObjectType \<Rightarrow> string \<Rightarrow> time \<Rightarrow>
     (writer \<Rightarrow> attemptReads \<Rightarrow> time \<Rightarrow> incidentStore \<Rightarrow> evaluationAttemptResult \<times> incidentStore) \<Rightarrow>
     serviceState \<Rightarrow> serviceError option \<times> serviceState" where
  "evaluateObjectWithRetry se objectType objectID triggerNow attempt w =
     retryLoop triggerNow (se_now se)
       (\<lambda>i now w. let (result, s) = attempt (ApplyIncidentMutation (se_db se i)) (se_reads se i) now
                        (se_others se i (sv_store w))
                  in (result, w\<lparr> sv_store := s \<rparr>))
       (appendAttemptNotifications se objectType objectID)
       (\<lambda>w. w\<lparr> sv_projectionConflictWarnAt := fst (warnProjectionConflictRetryExhausted (se_warnNow se) objectType
          (sv_projectionConflictWarnAt w)) \<rparr>)
       0 triggerNow w"

definition evaluateMonitoringInstanceHeartbeatOnly ::
    "serviceEnv \<Rightarrow> string \<Rightarrow> time \<Rightarrow> serviceState \<Rightarrow> serviceError option \<times> serviceState" where
  "evaluateMonitoringInstanceHeartbeatOnly se oid now =
     evaluateObjectWithRetry se ObjectTypeMonitoringInstance oid now
       (\<lambda>write reads attemptNow. evaluateMonitoringInstanceHeartbeatOnlyAttempt write reads
          (se_fallbackHeartbeatInterval se) oid attemptNow)"

definition evaluateMonitoringInstanceWithTrigger ::
    "serviceEnv \<Rightarrow> string \<Rightarrow> time \<Rightarrow> heartbeatEvaluationTrigger \<Rightarrow> serviceState \<Rightarrow>
     serviceError option \<times> serviceState" where
  "evaluateMonitoringInstanceWithTrigger se oid now trigger =
     evaluateObjectWithRetry se ObjectTypeMonitoringInstance oid now
       (\<lambda>write reads attemptNow. evaluateMonitoringInstanceAttempt write reads
          (se_fallbackHeartbeatInterval se) oid attemptNow trigger)"

definition evaluateTarget ::
    "serviceEnv \<Rightarrow> string \<Rightarrow> time \<Rightarrow> serviceState \<Rightarrow> serviceError option \<times> serviceState" where
  "evaluateTarget se targetID now =
     evaluateObjectWithRetry se ObjectTypeTarget targetID now
       (\<lambda>write reads attemptNow. evaluateTargetAttempt write reads targetID attemptNow)"

section \<open>Entry points\<close>

text \<open>
  The environments of the evaluations of a sweep are given per object.  The sweeps stop at the first
  error; a sync evaluates its instance and its targets, logs their errors and reports none.
\<close>

fun sweepLoop :: "(string \<Rightarrow> 'w \<Rightarrow> serviceError option \<times> 'w) \<Rightarrow> string list \<Rightarrow> 'w \<Rightarrow> serviceError option \<times> 'w" where
  "sweepLoop evaluate [] w = (None, w)"
| "sweepLoop evaluate (oid # oids) w =
     (case evaluate oid w of
        (Some err, w') \<Rightarrow> (Some err, w')
      | (None, w') \<Rightarrow> sweepLoop evaluate oids w')"

definition EvaluateStaleMonitoringInstances ::
    "(string \<Rightarrow> serviceEnv) \<Rightarrow> serviceError + string list \<Rightarrow> time \<Rightarrow> serviceState \<Rightarrow>
     serviceError option \<times> serviceState" where
  "EvaluateStaleMonitoringInstances envs listed now w =
     (case listed of
        Inl err \<Rightarrow> (Some (WrapError ''list monitoring instances for stale sweep'' err), w)
      | Inr oids \<Rightarrow> sweepLoop (\<lambda>oid. evaluateMonitoringInstanceHeartbeatOnly (envs oid) oid now) oids w)"

record sweepEnv =
  sw_instanceEnv :: "string \<Rightarrow> serviceEnv"
  sw_targetEnv :: "string \<Rightarrow> serviceEnv"
  sw_instances :: "serviceError + string list"
  sw_targets :: "(serviceError + string list) option"

definition EvaluatePeriodicState ::
    "sweepEnv \<Rightarrow> time \<Rightarrow> serviceState \<Rightarrow> serviceError option \<times> serviceState" where
  "EvaluatePeriodicState sw now w =
     (case EvaluateStaleMonitoringInstances (sw_instanceEnv sw) (sw_instances sw) now w of
        (Some err, w') \<Rightarrow> (Some err, w')
      | (None, w') \<Rightarrow>
          (case sw_targets sw of
             None \<Rightarrow> (None, w')
           | Some (Inl err) \<Rightarrow> (Some (WrapError ''list targets for periodic sweep'' err), w')
           | Some (Inr oids) \<Rightarrow> sweepLoop (\<lambda>oid. evaluateTarget (sw_targetEnv sw oid) oid now) oids w'))"

text \<open>
  \<open>Run\<close> over the timer ticks that arrive before the context is done, each with the environment of its
  sweep; \<open>nextDelay\<close> is the time it then waits.
\<close>

fun Run :: "(time \<times> sweepEnv) list \<Rightarrow> serviceState \<Rightarrow> serviceError option \<times> serviceState" where
  "Run [] w = (None, w)"
| "Run ((tick, sw) # ticks) w =
     (case EvaluatePeriodicState sw tick w of
        (Some err, w') \<Rightarrow> (Some err, w')
      | (None, w') \<Rightarrow> Run ticks w')"

definition nextDelay :: "SettingsRepo option \<Rightarrow> duration \<Rightarrow> time \<Rightarrow> time \<Rightarrow> duration" where
  "nextDelay settingsRepo fallbackSweepInterval tick now =
     (let nextTick = tick + sweepIntervalFor settingsRepo fallbackSweepInterval;
          delay = time_Sub nextTick now
      in if delay < 0 then 0 else delay)"

fun syncTargets :: "(string \<Rightarrow> 'w \<Rightarrow> serviceError option \<times> 'w) \<Rightarrow> string list \<Rightarrow> 'w \<Rightarrow> 'w" where
  "syncTargets evaluate [] w = w"
| "syncTargets evaluate (oid # oids) w = syncTargets evaluate oids (snd (evaluate oid w))"

definition AfterSuccessfulSync ::
    "serviceEnv \<Rightarrow> (string \<Rightarrow> serviceEnv) \<Rightarrow> time \<Rightarrow> time \<Rightarrow> string \<Rightarrow> HeartbeatPayload list \<Rightarrow> string list \<Rightarrow>
     serviceState \<Rightarrow> serviceError option \<times> serviceState" where
  "AfterSuccessfulSync instanceEnv targetEnv acceptedAt clock monitoringInstanceID heartbeats targetIDs w =
     (let now = (if IsZero acceptedAt then clock else acceptedAt);
          w = snd (evaluateMonitoringInstanceWithTrigger instanceEnv monitoringInstanceID now
                (heartbeatEvaluationTriggerForSync heartbeats) w)
      in (None, syncTargets (\<lambda>oid. evaluateTarget (targetEnv oid) oid now) (uniqueTargetIDs targetIDs) w))"

section \<open>What an attempt hands to the writer\<close>

text \<open>
  What the attempts rely on: the active incidents they read are well formed incidents of the object, of
  classes the evaluators know, and ranging over the map of active incidents visits every entry once.
\<close>

definition reads_ok :: "ObjectType \<Rightarrow> string \<Rightarrow> attemptReads \<Rightarrow> bool" where
  "reads_ok ot oid reads \<longleftrightarrow>
     (\<forall>m. mset (rd_rangeOrder reads m) = mset m) \<and>
     (case rd_active reads of Inl _ \<Rightarrow> True | Inr previous \<Rightarrow> active_ok ot oid previous)"

text \<open>The mutation of a plan: based on the version and the incidents read, and well formed.\<close>

definition mutation_from ::
    "ObjectType \<Rightarrow> string \<Rightarrow> attemptReads \<Rightarrow> IncidentMutation \<Rightarrow> bool" where
  "mutation_from ot oid reads m \<longleftrightarrow>
     rd_rowVersion reads = Inr (mu_ExpectedObjectRowVersion m) \<and> mu_ExpectedObjectRowVersion m \<noteq> [] \<and>
     active_ok ot oid (mu_Active m) \<and>
     (\<exists>previous. rd_active reads = Inr previous \<and> mutation_ok ot oid previous m)"

definition plan_ok :: "ObjectType \<Rightarrow> string \<Rightarrow> attemptReads \<Rightarrow> attemptPlan \<Rightarrow> bool" where
  "plan_ok ot oid reads plan \<longleftrightarrow>
     (case plan of
        PlanClose m \<Rightarrow> mutation_from ot oid reads m
      | PlanApply m _ _ _ \<Rightarrow> mutation_from ot oid reads m
      | _ \<Rightarrow> True)"

lemma objectRowVersion_read:
  "objectRowVersion reads = Inr v \<Longrightarrow> rd_rowVersion reads = Inr v \<and> v \<noteq> []"
  by (auto simp: objectRowVersion_def split: sum.splits if_splits)

lemma listPrevious_read: "listPrevious msg reads = Inr previous \<Longrightarrow> rd_active reads = Inr previous"
  by (auto simp: listPrevious_def split: sum.splits)

lemma built_active_ok:
  assumes order: "\<And>m. mset (ord m) = mset m" and prev: "active_ok ot oid previous"
    and evs: "evaluations_ok ot oid previous es"
    and known: "list_all (\<lambda>e. ce_class e \<in> set known_classes) es"
  shows "active_ok ot oid (mu_Active (buildMutation ord ot oid ver previous es))"
proof -
  have inc: "incidents_ok ot oid previous" using prev by (simp add: active_ok_def)
  let ?a = "mu_Active (buildMutation ord ot oid ver previous es)"
  have "incidents_ok ot oid ?a"
    using buildMutation_ok [OF order inc evs] by (simp add: mutation_ok_def)
  moreover have "inc_IncidentClass r \<in> set known_classes" if "r \<in> set ?a" for r
  proof -
    have "class_after previous es (inc_IncidentClass r) = Some r"
      using that buildMutation_active(4) [OF order inc evs] by auto
    thus ?thesis
    proof (cases "evaluated es (inc_IncidentClass r)")
      case None
      hence "active_in previous (inc_IncidentClass r) = Some r"
        using \<open>class_after previous es (inc_IncidentClass r) = Some r\<close> by (simp add: class_after_def)
      hence "r \<in> set previous" using active_in_iff inc by (auto simp: incidents_ok_def)
      thus ?thesis using prev by (auto simp: active_ok_def list_all_iff)
    next
      case (Some x)
      then obtain e where "e \<in> set es" "ce_class e = inc_IncidentClass r"
        using map_of_SomeD unfolding evaluated_def by fastforce
      thus ?thesis using known by (metis list_all_iff)
    qed
  qed
  ultimately show ?thesis using prev by (simp add: active_ok_def list_all_iff)
qed

lemma built_mutation_from:
  assumes "reads_ok ot oid reads" and "rd_rowVersion reads = Inr ver" and "ver \<noteq> []"
    and "rd_active reads = Inr previous" and "evaluations_ok ot oid previous es"
    and "list_all (\<lambda>e. ce_class e \<in> set known_classes) es"
  shows "mutation_from ot oid reads (buildMutation (rd_rangeOrder reads) ot oid ver previous es)"
proof -
  have o: "\<And>m. mset (rd_rangeOrder reads m) = mset m" and p: "active_ok ot oid previous"
    using assms(1,4) by (auto simp: reads_ok_def)
  have "mutation_ok ot oid previous (buildMutation (rd_rangeOrder reads) ot oid ver previous es)"
    using p by (intro buildMutation_ok o assms(5)) (simp add: active_ok_def)
  thus ?thesis
    using built_active_ok [OF o p assms(5,6)] assms(2-4) by (simp add: mutation_from_def buildMutation_fields)
qed

lemma closing_mutation_from:
  assumes "reads_ok ot oid reads" and "rd_rowVersion reads = Inr ver" and "ver \<noteq> []"
    and "rd_active reads = Inr previous"
  shows "mutation_from ot oid reads (buildAdministrativeRecoveryMutation ot oid ver previous now summary)"
proof -
  have p: "incident_object ot" "incidents_ok ot oid previous"
    using assms(1,4) by (auto simp: reads_ok_def active_ok_def)
  thus ?thesis
    using administrative_ok [OF p, of ver now summary] assms(2-4)
    by (simp add: mutation_from_def active_ok_def incidents_ok_def buildAdministrativeRecoveryMutation_def)
qed

subsection \<open>The evaluations of an object\<close>

lemmas instance_contracts =
  disk.contract [where i = "(x, y)" for x y, simplified]
  inode.contract [where i = "(x, y)" for x y, simplified]
  resource.contract [where i = "(x, y, z)" for x y z, simplified]
  trend.contract [where i = "(x, y)" for x y, simplified]

lemma heartbeatEvaluation_ok:
  assumes "incidents_ok ObjectTypeMonitoringInstance oid previous"
    and "heartbeatEvaluation reads previous snapshot r oid now = Inr h"
  shows "result_ok ObjectTypeMonitoringInstance oid IncidentMonitoringInstanceHeartbeatMissing
    (active_in previous IncidentMonitoringInstanceHeartbeatMissing) h"
  using assms heartbeat.contract [OF active_in_ok [OF assms(1)], where i = "(a, b, c, d)" for a b c d]
  by (auto simp: heartbeatEvaluation_def Let_def split: sum.splits)

lemma known_class_names:
  "IncidentMonitoringInstanceHeartbeatMissing \<in> set known_classes"
  "IncidentMonitoringInstanceDiskPressure \<in> set known_classes"
  "IncidentMonitoringInstanceInodePressure \<in> set known_classes"
  "IncidentMonitoringInstanceResourcePressure \<in> set known_classes"
  "IncidentMonitoringInstanceTrendDegradation \<in> set known_classes"
  "IncidentTargetProbeFailure \<in> set known_classes" "IncidentTargetTLSExpiry \<in> set known_classes"
  "IncidentTargetLatencyTrendDegradation \<in> set known_classes"
  by (simp_all add: known_classes_def)

lemma class_names_distinct: "distinct known_classes"
  by code_simp

lemma instanceEvaluations_ok:
  assumes "incidents_ok ObjectTypeMonitoringInstance oid previous"
    and "result_ok ObjectTypeMonitoringInstance oid IncidentMonitoringInstanceHeartbeatMissing
      (active_in previous IncidentMonitoringInstanceHeartbeatMissing) h"
  shows "evaluations_ok ObjectTypeMonitoringInstance oid previous
      (instanceEvaluations previous oid h windowSamples hostSamples trendSamples baselines thresholds policy)"
    and "list_all (\<lambda>e. ce_class e \<in> set known_classes)
      (instanceEvaluations previous oid h windowSamples hostSamples trendSamples baselines thresholds policy)"
  using class_names_distinct assms active_in_ok [OF assms(1)]
  by (auto simp: evaluations_ok_def instanceEvaluations_def known_classes_def instance_contracts split: list.split)

lemma targetEvaluations_ok:
  assumes "incidents_ok ObjectTypeTarget oid previous"
  shows "evaluations_ok ObjectTypeTarget oid previous (targetEvaluations reads previous oid obs trendObs baselines)"
    and "list_all (\<lambda>e. ce_class e \<in> set known_classes) (targetEvaluations reads previous oid obs trendObs baselines)"
  using class_names_distinct active_in_ok [OF assms] probe_series.contract tls_series.contract
    latency.contract [where i = "(a, b, c, d)" for a b c d, simplified]
  by (auto simp: evaluations_ok_def targetEvaluations_def known_classes_def)

lemmas plan_reads = objectRowVersion_read listPrevious_read

lemma plan_case:
  assumes "\<And>y. x = Inr y \<Longrightarrow> plan_ok ot oid reads (g y)"
  shows "plan_ok ot oid reads (case x of Inl err \<Rightarrow> PlanFailed (f err) | Inr y \<Rightarrow> g y)"
  using assms by (cases x) (simp_all add: plan_ok_def)

lemma plan_mutation:
  "mutation_from ot oid reads m \<Longrightarrow> plan_ok ot oid reads (PlanClose m)"
  "mutation_from ot oid reads m \<Longrightarrow> plan_ok ot oid reads (PlanApply m evaluations policy r)"
  by (simp_all add: plan_ok_def)

lemma plan_close:
  assumes "reads_ok ot oid reads" and "objectRowVersion reads = Inr ver" and "listPrevious msg reads = Inr previous"
  shows "plan_ok ot oid reads (if previous = [] then PlanNothing
    else PlanClose (buildAdministrativeRecoveryMutation ot oid ver previous now summary))"
  using closing_mutation_from [OF assms(1)] objectRowVersion_read [OF assms(2)] listPrevious_read [OF assms(3)]
  by (simp add: plan_ok_def)

lemma plan_choice:
  "(b \<Longrightarrow> plan_ok ot oid reads x) \<Longrightarrow> (\<not> b \<Longrightarrow> plan_ok ot oid reads y) \<Longrightarrow> plan_ok ot oid reads (if b then x else y)"
  by simp

lemma heartbeatOnlyPlan_ok:
  assumes "reads_ok ObjectTypeMonitoringInstance oid reads"
  shows "plan_ok ObjectTypeMonitoringInstance oid reads (heartbeatOnlyPlan reads fallback oid now)"
proof -
  let ?ot = ObjectTypeMonitoringInstance
  have key: "mutation_from ?ot oid reads (buildMutation (rd_rangeOrder reads) ?ot oid ver previous
      [\<lparr> ce_class = IncidentMonitoringInstanceHeartbeatMissing, ce_result = h \<rparr>])"
    if "objectRowVersion reads = Inr ver" "listPrevious msg reads = Inr previous"
      "heartbeatEvaluation reads previous snapshot r oid now = Inr h" for ver msg previous snapshot r h
  proof (rule built_mutation_from [OF assms])
    have "incidents_ok ?ot oid previous"
      using assms listPrevious_read [OF that(2)] by (simp add: reads_ok_def active_ok_def)
    from heartbeatEvaluation_ok [OF this that(3)]
    show "evaluations_ok ?ot oid previous [\<lparr> ce_class = IncidentMonitoringInstanceHeartbeatMissing, ce_result = h \<rparr>]"
      by (simp add: evaluations_ok_def)
  qed (use plan_reads that in \<open>auto simp: known_class_names\<close>)
  show ?thesis
    unfolding heartbeatOnlyPlan_def Let_def
    apply (intro plan_case plan_choice [where b = "isInactiveMonitoringInstance r" for r] plan_close [OF assms] plan_mutation(2))
    apply (assumption | rule key)+
    done
qed

lemma instancePlan_ok:
  assumes "reads_ok ObjectTypeMonitoringInstance oid reads"
  shows "plan_ok ObjectTypeMonitoringInstance oid reads (instancePlan reads fallback oid now trigger)"
proof -
  let ?ot = ObjectTypeMonitoringInstance
  have key: "mutation_from ?ot oid reads (buildMutation (rd_rangeOrder reads) ?ot oid ver previous
      (instanceEvaluations previous oid h windowSamples hostSamples trendSamples baselines thresholds policy))"
    if "objectRowVersion reads = Inr ver" "listPrevious msg reads = Inr previous"
      "(if ht_suppressTransitions trigger then Inr (skip (active_in previous IncidentMonitoringInstanceHeartbeatMissing))
        else heartbeatEvaluation reads previous snapshot r oid now) = Inr h"
    for ver msg previous snapshot r h windowSamples hostSamples trendSamples baselines thresholds policy
  proof -
    have inc: "incidents_ok ?ot oid previous"
      using assms listPrevious_read [OF that(2)] by (simp add: reads_ok_def active_ok_def)
    have "result_ok ?ot oid IncidentMonitoringInstanceHeartbeatMissing
        (active_in previous IncidentMonitoringInstanceHeartbeatMissing) h"
      using that(3) skip_ok heartbeatEvaluation_ok [OF inc] by (auto split: if_splits)
    from instanceEvaluations_ok [OF inc this] show ?thesis
      using plan_reads that by (intro built_mutation_from [OF assms]) auto
  qed
  show ?thesis
    unfolding instancePlan_def Let_def
    apply (intro plan_case plan_choice [where b = "isInactiveMonitoringInstance r" for r] plan_close [OF assms] plan_mutation(2))
    apply (assumption | rule key)+
    done
qed

lemma targetPlan_ok:
  assumes "reads_ok ObjectTypeTarget oid reads"
  shows "plan_ok ObjectTypeTarget oid reads (targetPlan reads oid now)"
proof -
  have key: "mutation_from ObjectTypeTarget oid reads (buildMutation (rd_rangeOrder reads) ObjectTypeTarget oid ver previous
      (targetEvaluations reads previous oid obs trendObs baselines))"
    if "objectRowVersion reads = Inr ver" "listPrevious msg reads = Inr previous"
    for ver msg previous obs trendObs baselines
  proof -
    have "incidents_ok ObjectTypeTarget oid previous"
      using assms listPrevious_read [OF that(2)] by (simp add: reads_ok_def active_ok_def)
    from targetEvaluations_ok [OF this] show ?thesis
      using plan_reads that by (intro built_mutation_from [OF assms]) auto
  qed
  show ?thesis
    unfolding targetPlan_def Let_def
    apply (intro plan_case plan_choice [where b = "shouldRecoverIncidentsForTarget r" for r] plan_close [OF assms] plan_mutation(2))
    apply (assumption | rule key)+
    done
qed

section \<open>The retry\<close>

lemma retryLoop_unfold:
  "retryLoop triggerNow freshNow attempt notify warn 0 now w =
     (case attempt 0 now w of (result, w1) \<Rightarrow>
        (case ar_err result of
           None \<Rightarrow> if \<not> ar_appendNotification result then (None, w1) else notify result w1
         | Some err \<Rightarrow>
             if errors_Is err ErrIncidentProjectionObjectNotFound then (None, w1)
             else if \<not> ar_conflict result then (Some err, w1)
             else case attempt 1 (if time_After freshNow triggerNow then freshNow else triggerNow) w1 of (result, w2) \<Rightarrow>
               (case ar_err result of
                  None \<Rightarrow> if \<not> ar_appendNotification result then (None, w2) else notify result w2
                | Some err \<Rightarrow>
                    if errors_Is err ErrIncidentProjectionObjectNotFound then (None, w2)
                    else if \<not> ar_conflict result then (Some err, w2)
                    else (None, warn w2))))"
  by (subst retryLoop.simps, subst retryLoop.simps) (simp split: prod.split option.split)

text \<open>The number of attempts, counted in the state the attempts run on.\<close>

definition retried :: "evaluationAttemptResult \<Rightarrow> bool" where
  "retried result \<longleftrightarrow> (case ar_err result of None \<Rightarrow> False
     | Some err \<Rightarrow> \<not> errors_Is err ErrIncidentProjectionObjectNotFound \<and> ar_conflict result)"

definition counted :: "(nat \<Rightarrow> time \<Rightarrow> 'w \<Rightarrow> evaluationAttemptResult \<times> 'w) \<Rightarrow> nat \<Rightarrow> time \<Rightarrow> 'w \<times> time list \<Rightarrow>
    evaluationAttemptResult \<times> 'w \<times> time list" where
  "counted attempt i now wl = (case attempt i now (fst wl) of (result, w) \<Rightarrow> (result, w, snd wl @ [now]))"

text \<open>
  (C37) The retry ends after one attempt, or after two when the first one lost the race for the object
  row, for every behaviour of the attempts.  The second attempt runs at the newer of the trigger time
  and the clock, so that its time never goes back, and a lost race is never reported as an error.
\<close>

theorem retry_at_most_once:
  assumes "attempt 0 triggerNow w = (r1, w1)" and "attempt 1 (max triggerNow freshNow) w1 = (r2, w2)"
  shows "snd (snd (retryLoop triggerNow freshNow (counted attempt) (\<lambda>result wl. (fst (notify result (fst wl)), snd (notify result (fst wl)), snd wl))
      (\<lambda>wl. (warn (fst wl), snd wl)) 0 triggerNow (w, []))) =
     (if retried r1 then [triggerNow, max triggerNow freshNow] else [triggerNow]) \<and>
   (\<not> (retried r1 \<and> retried r2) \<or>
     retryLoop triggerNow freshNow attempt notify warn 0 triggerNow w = (None, warn w2))"
proof -
  have now: "(if time_After freshNow triggerNow then freshNow else triggerNow) = max triggerNow freshNow"
    by (simp add: time_After_def max_def)
  have c: "counted attempt 0 triggerNow (w, []) = (r1, w1, [triggerNow])"
    "counted attempt 1 (max triggerNow freshNow) (w1, [triggerNow]) = (r2, w2, [triggerNow, max triggerNow freshNow])"
    using assms by (simp_all add: counted_def)
  show ?thesis
    unfolding retryLoop_unfold now c assms(1) prod.case
    by (cases "ar_err r1"; cases "ar_err r2") (simp_all add: retried_def assms(2) [simplified] c(2) [simplified])
qed

section \<open>A sweep\<close>

lemma sweepLoop_append:
  "sweepLoop evaluate (xs @ ys) w =
     (case sweepLoop evaluate xs w of (Some err, w') \<Rightarrow> (Some err, w') | (None, w') \<Rightarrow> sweepLoop evaluate ys w')"
  by (induction xs arbitrary: w) (auto split: prod.split option.split)

text \<open>A mutation the writer refuses for another reason than a conflict or a missing object ends the retry.\<close>

lemma refused_attempt:
  assumes "attempt (ApplyIncidentMutation (se_db se 0)) (se_reads se 0) now (se_others se 0 (sv_store w)) =
      runPlan (ApplyIncidentMutation (se_db se 0)) (PlanApply m evaluations policy r) (se_others se 0 (sv_store w))"
    and "ApplyIncidentMutation (se_db se 0) m (se_others se 0 (sv_store w)) = (Some err, se_others se 0 (sv_store w))"
    and "\<not> errors_Is err ErrIncidentProjectionConflict" and "\<not> errors_Is err ErrIncidentProjectionObjectNotFound"
  shows "evaluateObjectWithRetry se ot oid now attempt w = (Some err, w\<lparr> sv_store := se_others se 0 (sv_store w) \<rparr>)"
  using assms by (simp add: evaluateObjectWithRetry_def retryLoop_unfold runPlan_def applyEvaluationAttempt_def)

text \<open>
  (C35) One target with an observation from the future stops the incident evaluation of the whole center.
  If the first attempt for a target of a periodic sweep computes, from the current row version, a
  mutation with an event dated after the clock of the center, then without any database fault the
  evaluation loop ends with an error: the targets after it are not evaluated, no later sweep runs, and
  the tables stay as they were.
\<close>

theorem future_event_ends_the_service:
  assumes "EvaluateStaleMonitoringInstances (sw_instanceEnv sw) (sw_instances sw) tick w = (None, w1)"
    and "sw_targets sw = Some (Inr (before @ oid # after))"
    and "sweepLoop (\<lambda>oid. evaluateTarget (sw_targetEnv sw oid) oid tick) before w1 = (None, w2)"
    and "targetPlan (se_reads (sw_targetEnv sw oid) 0) oid tick = PlanApply m evaluations policy r"
    and "mu_ObjectType m = ObjectTypeTarget" and "mu_ExpectedObjectRowVersion m \<noteq> []"
    and "s = se_others (sw_targetEnv sw oid) 0 (sv_store w2)"
    and "map_of (st_objects s) (ObjectTypeTarget, mu_ObjectID m) = Some row"
    and "ow_version row = mu_ExpectedObjectRowVersion m"
    and "quiet_env (se_db (sw_targetEnv sw oid) 0)"
    and "e \<in> set (mu_Events m)" and "\<And>i. env_clock (se_db (sw_targetEnv sw oid) 0) i < ev_CreatedAt e"
  shows "\<exists>err. Run ((tick, sw) # ticks) w = (Some err, w2\<lparr> sv_store := s \<rparr>)"
proof -
  let ?env = "se_db (sw_targetEnv sw oid) 0"
  obtain err where err: "fst (ApplyIncidentMutation ?env m s) = Some err"
    "\<not> errors_Is err ErrIncidentProjectionConflict" "\<not> errors_Is err ErrIncidentProjectionObjectNotFound"
    and "snd (ApplyIncidentMutation ?env m s) = s"
    using future_event_blocks_mutation [OF assms(11,12), of s] assms(5,6,8-10) by auto
  hence "ApplyIncidentMutation ?env m s = (Some err, s)" by (metis prod.collapse)
  hence "evaluateTarget (sw_targetEnv sw oid) oid tick w2 = (Some err, w2\<lparr> sv_store := s \<rparr>)"
    unfolding evaluateTarget_def assms(7) using assms(4) err(2,3)
    by (intro refused_attempt) (simp_all add: evaluateTargetAttempt_def)
  hence "EvaluatePeriodicState sw tick w = (Some err, w2\<lparr> sv_store := s \<rparr>)"
    by (simp add: EvaluatePeriodicState_def assms(1-3) sweepLoop_append)
  thus ?thesis by simp
qed

section \<open>Well-formed mutations\<close>

text \<open>
  (C36) Whatever an attempt reads from facts and settings, the mutation it hands to the writer is well
  formed: it carries the row version and continues the incidents it read, its active incidents are
  incidents of the object of known classes, one per class, each of its events passes the metadata
  contract, and for every class the events lead from the incidents read to the incidents written.
\<close>

theorem attempts_well_formed:
  assumes "reads_ok ObjectTypeMonitoringInstance oid reads" and "reads_ok ObjectTypeTarget tid treads"
  shows "plan_ok ObjectTypeMonitoringInstance oid reads (heartbeatOnlyPlan reads fallback oid now) \<and>
    plan_ok ObjectTypeMonitoringInstance oid reads (instancePlan reads fallback oid now trigger) \<and>
    plan_ok ObjectTypeTarget tid treads (targetPlan treads tid now)"
  using heartbeatOnlyPlan_ok [OF assms(1)] instancePlan_ok [OF assms(1)] targetPlan_ok [OF assms(2)] by blast

section \<open>Concrete evaluations\<close>

text \<open>A target without incidents whose probe has failed three times, the last time at second 90.\<close>

definition sample_reads :: attemptReads where
  "sample_reads = \<lparr> rd_rowVersion = Inr ''7'', rd_instance = Inl ErrMonitoringInstanceNotFound,
     rd_target = Inr \<lparr> tr_LifecycleStatus = ''active'', tr_TargetID = ''t'', tr_RunStatus = RunStatusEnabled \<rparr>,
     rd_active = Inr [], rd_settings = None, rd_resourceSettings = None, rd_receipts = (\<lambda>t. Inr []),
     rd_windowSamples = (\<lambda>t. Inr []), rd_hostSamples = (\<lambda>t. Inr []), rd_hostDaily = (\<lambda>t u. Inr []),
     rd_probeObservations = (\<lambda>t. Inr [series_probe ''p'' ''a'' ProbeResultFailure (90 * second),
       series_probe ''p'' ''a'' ProbeResultFailure (80 * second), series_probe ''p'' ''a'' ProbeResultFailure (70 * second)]),
     rd_probeDaily = (\<lambda>t u. Inr []), rd_rangeOrder = rev, rd_scanOrder = rev, rd_recoveryOrder = rev \<rparr>"

definition plan_mutations :: "attemptPlan \<Rightarrow> IncidentMutation list" where
  "plan_mutations plan = (case plan of PlanClose m \<Rightarrow> [m] | PlanApply m _ _ _ \<Rightarrow> [m] | _ \<Rightarrow> [])"

definition sample_target_mutation :: IncidentMutation where
  "sample_target_mutation = hd (plan_mutations (targetPlan sample_reads ''t'' (60 * second)))"

lemma sample_target_plan:
  "\<exists>evaluations policy r. targetPlan sample_reads ''t'' (60 * second) = PlanApply sample_target_mutation evaluations policy r"
proof -
  have "(case targetPlan sample_reads ''t'' (60 * second) of PlanApply _ _ _ _ \<Rightarrow> True | _ \<Rightarrow> False)" by code_simp
  thus ?thesis by (auto simp: sample_target_mutation_def plan_mutations_def split: attemptPlan.splits)
qed

lemma sample_target_mutation_facts:
  "mu_ObjectType sample_target_mutation = ObjectTypeTarget" "mu_ObjectID sample_target_mutation = ''t''"
  "mu_ExpectedObjectRowVersion sample_target_mutation = ''7''"
  "map ev_CreatedAt (mu_Events sample_target_mutation) = [90 * second]"
  by code_simp+

lemma sample_reads_ok: "reads_ok ObjectTypeTarget ''t'' sample_reads" "reads_ok ObjectTypeMonitoringInstance ''mi'' sample_reads"
  by (simp_all add: reads_ok_def sample_reads_def active_ok_def incidents_ok_def)

theorem attempts_well_formed_witness:
  "active_ok ObjectTypeTarget ''t'' (mu_Active sample_target_mutation) \<and>
   map inc_IncidentClass (mu_Active sample_target_mutation) = [IncidentTargetProbeFailure]"
proof -
  have "plan_ok ObjectTypeTarget ''t'' sample_reads (targetPlan sample_reads ''t'' (60 * second))"
    using attempts_well_formed [OF sample_reads_ok(2,1)] by blast
  hence "active_ok ObjectTypeTarget ''t'' (mu_Active sample_target_mutation)"
    using sample_target_plan by (auto simp: plan_ok_def mutation_from_def)
  moreover have "map inc_IncidentClass (mu_Active sample_target_mutation) = [IncidentTargetProbeFailure]" by code_simp
  ultimately show ?thesis by blast
qed

definition sample_service_env :: serviceEnv where
  "sample_service_env = \<lparr> se_reads = (\<lambda>i. sample_reads), se_db = (\<lambda>i. sample_env\<lparr> env_clock := (\<lambda>i. 60 * second) \<rparr>),
     se_others = (\<lambda>i s. s), se_now = 60 * second, se_warnNow = 60 * second, se_dispatcher = None,
     se_sentAt = (\<lambda>i j. 60 * second), se_notificationSettings = None, se_notificationDb = sample_env,
     se_fallbackHeartbeatInterval = 60 * second \<rparr>"

definition sample_sweep :: sweepEnv where
  "sample_sweep = \<lparr> sw_instanceEnv = (\<lambda>oid. sample_service_env), sw_targetEnv = (\<lambda>oid. sample_service_env),
     sw_instances = Inr [], sw_targets = Some (Inr [''t'', ''u'']) \<rparr>"

definition sample_service :: serviceState where
  "sample_service = \<lparr> sv_store = sample_store\<lparr> st_objects := [((ObjectTypeTarget, ''t''), sample_row)] \<rparr>,
     sv_projectionConflictWarnAt = [] \<rparr>"

theorem future_event_ends_the_service_witness:
  "\<exists>err. Run [(60 * second, sample_sweep), (65 * second, sample_sweep)] sample_service = (Some err, sample_service)"
proof -
  obtain evaluations policy r where plan:
    "targetPlan sample_reads ''t'' (60 * second) = PlanApply sample_target_mutation evaluations policy r"
    using sample_target_plan by blast
  obtain e where e: "e \<in> set (mu_Events sample_target_mutation)" "ev_CreatedAt e = 90 * second"
    using sample_target_mutation_facts(4) by (cases "mu_Events sample_target_mutation") auto
  have q: "quiet_env (sample_env\<lparr> env_clock := (\<lambda>i. 60 * second) \<rparr>)"
    using sample_quiet by (simp add: quiet_env_def)
  show ?thesis
    using future_event_ends_the_service [where sw = sample_sweep and before = "[]" and oid = "''t''" and after = "[''u'']"
        and w = sample_service and ?w1.0 = sample_service and ?w2.0 = sample_service and tick = "60 * second"
        and m = sample_target_mutation and row = sample_row and e = e and s = "sv_store sample_service"
        and ticks = "[(65 * second, sample_sweep)]"] plan e q
    by (simp add: sample_sweep_def sample_service_env_def sample_service_def EvaluateStaleMonitoringInstances_def
        sample_target_mutation_facts sample_row_def second_def)
qed

text \<open>Two lost races: the service makes two attempts, warns and reports no error.\<close>

theorem retry_at_most_once_witness:
  "retryLoop 5 7 (\<lambda>i now w. (emptyAttempt\<lparr> ar_err := Some ErrIncidentProjectionConflict, ar_conflict := True \<rparr>, w + i + 1))
     (\<lambda>result w. (None, w)) (\<lambda>w. w + 100) 0 5 (0 :: nat) = (None, 103)"
  using retry_at_most_once [where attempt = "\<lambda>i now w. (emptyAttempt\<lparr> ar_err := Some ErrIncidentProjectionConflict,
        ar_conflict := True \<rparr>, w + i + 1)" and triggerNow = 5 and freshNow = 7 and w = "0 :: nat"
      and warn = "\<lambda>w. w + 100" and notify = "\<lambda>result w. (None, w)"]
  by (simp add: retried_def)

end
