(* ===== verification/Incident_Loop.thy ===== *)
theory Incident_Loop
  imports Incident_Attempts
begin

text \<open>
  The incident tables under concurrency.  Evaluations run after syncs and in the periodic sweep, while
  other transactions retire, archive, edit and delete the objects they evaluate.  An evaluation reads
  the row version of its object, then its active incidents, then facts, and writes in one transaction
  that checks the row version.  The step relation interleaves the reads and writes of any number of
  evaluations with the other writers of the tables.  The invariant is that for every object and class
  the events of the log tell exactly whether the incident is active.
\<close>

section \<open>Reading the tables\<close>

definition GetObjectRowVersion :: "ObjectType \<Rightarrow> string \<Rightarrow> incidentStore \<Rightarrow> serviceError + string" where
  "GetObjectRowVersion objectType objectID s =
     (if TrimSpace objectID = [] then Inl (NewError ''incident object id is required for row-version read'')
      else if objectType \<noteq> ObjectTypeMonitoringInstance \<and> objectType \<noteq> ObjectTypeTarget
      then Inl (NewError ''incident object type does not support row-version reads'')
      else case map_of (st_objects s) (objectType, objectID) of
        None \<Rightarrow> Inl (WrapErrors ''incident object row version not found'' ErrIncidentProjectionObjectNotFound ErrNoRows)
      | Some row \<Rightarrow>
          if ow_version row = [] then Inl (NewError ''incident object row version is empty'')
          else Inr (ow_version row))"

definition ListActiveIncidents :: "ObjectType \<Rightarrow> string \<Rightarrow> incidentStore \<Rightarrow> IncidentRecord list" where
  "ListActiveIncidents objectType objectID s =
     SliceStable incident_class_less (filter (belongs objectType objectID) (st_active s))"

section \<open>Steps\<close>

datatype evaluationPhase =
  VersionRead ObjectType string string
| PreviousRead ObjectType string string "IncidentRecord list"

record system =
  sy_store :: incidentStore
  sy_versions :: "string list"
  sy_running :: "nat \<Rightarrow> evaluationPhase option"

text \<open>
  The plans an evaluation may have made from its reads: for an instance the full or the heartbeat
  evaluation, for a target its evaluation, at any time and with any facts and settings.
\<close>

definition planned :: "ObjectType \<Rightarrow> string \<Rightarrow> attemptReads \<Rightarrow> attemptPlan \<Rightarrow> bool" where
  "planned ot oid reads plan \<longleftrightarrow>
     (ot = ObjectTypeMonitoringInstance \<and>
       ((\<exists>fallback now. plan = heartbeatOnlyPlan reads fallback oid now) \<or>
        (\<exists>fallback now trigger. plan = instancePlan reads fallback oid now trigger))) \<or>
     (ot = ObjectTypeTarget \<and> (\<exists>now. plan = targetPlan reads oid now))"

text \<open>
  A row version is the transaction that wrote the row, so a new version differs from all earlier ones;
  \<open>sy_versions\<close> records the versions used so far.  In the order of the rules: the two reads of an
  evaluation, its write or its end without one, the closing of incidents when an object is retired or
  archived, any other change or creation of an object row, its deletion, other events of the log, and
  notification records.
\<close>

inductive step :: "system \<Rightarrow> system \<Rightarrow> bool" where
  read_version: "GetObjectRowVersion ot oid (sy_store S) = Inr v \<Longrightarrow>
    step S (S\<lparr> sy_running := (sy_running S)(i := Some (VersionRead ot oid v)) \<rparr>)"
| read_previous: "sy_running S i = Some (VersionRead ot oid v) \<Longrightarrow>
    step S (S\<lparr> sy_running := (sy_running S)(i := Some (PreviousRead ot oid v (ListActiveIncidents ot oid (sy_store S)))) \<rparr>)"
| evaluate: "sy_running S i = Some (PreviousRead ot oid v previous) \<Longrightarrow>
    rd_rowVersion reads = Inr v \<Longrightarrow> rd_active reads = Inr previous \<Longrightarrow>
    (\<And>m. mset (rd_rangeOrder reads m) = mset m) \<Longrightarrow> planned ot oid reads plan \<Longrightarrow>
    env_newVersion env \<notin> set (sy_versions S) \<Longrightarrow>
    step S (S\<lparr> sy_store := snd (runPlan (ApplyIncidentMutation env) plan (sy_store S)),
      sy_versions := env_newVersion env # sy_versions S, sy_running := (sy_running S)(i := None) \<rparr>)"
| abandon: "step S (S\<lparr> sy_running := (sy_running S)(i := None) \<rparr>)"
| archive: "closeArchiveIncidents env ot oid reason now (sy_store S) = Inr s \<Longrightarrow> incident_object ot \<Longrightarrow>
    env_newVersion env \<notin> set (sy_versions S) \<Longrightarrow>
    step S (S\<lparr> sy_store := s, sy_versions := env_newVersion env # sy_versions S \<rparr>)"
| change_object: "ow_version row \<notin> set (sy_versions S) \<Longrightarrow>
    step S (S\<lparr> sy_store := (sy_store S)\<lparr> st_objects := AList.update k row (st_objects (sy_store S)) \<rparr>,
      sy_versions := ow_version row # sy_versions S \<rparr>)"
| delete_object: "step S (S\<lparr> sy_store := (sy_store S)\<lparr> st_objects := AList.delete k (st_objects (sy_store S)) \<rparr> \<rparr>)"
| other_event: "ev_IncidentClass (er_Record r) \<notin> set known_classes \<Longrightarrow>
    step S (S\<lparr> sy_store := (sy_store S)\<lparr> st_events := st_events (sy_store S) @ [r] \<rparr> \<rparr>)"
| notify: "step S (S\<lparr> sy_store := snd (AppendNotificationRecords env records (sy_store S)) \<rparr>)"

definition empty_system :: system where
  "empty_system = \<lparr> sy_store = \<lparr> st_objects = [], st_active = [], st_events = [], st_notifications = [] \<rparr>,
     sy_versions = [], sy_running = (\<lambda>i. None) \<rparr>"

inductive reachable :: "system \<Rightarrow> bool" where
  initial: "reachable empty_system"
| next_step: "reachable S \<Longrightarrow> step S S' \<Longrightarrow> reachable S'"

section \<open>The log and the table\<close>

definition log_of :: "ObjectType \<Rightarrow> string \<Rightarrow> IncidentClass \<Rightarrow> StateChangeEventRecord list \<Rightarrow> StateChangeEventRecord list" where
  "log_of ot oid c events =
     filter (\<lambda>e. ev_ObjectType e = ot \<and> ev_ObjectID e = oid \<and> ev_IncidentClass e = c) events"

definition consistent :: "incidentStore \<Rightarrow> bool" where
  "consistent s \<longleftrightarrow> (\<forall>ot oid c. incident_object ot \<and> c \<in> set known_classes \<longrightarrow>
     log_state False (log_of ot oid c (map er_Record (st_events s))) = Some (active_in (rows_of ot oid s) c \<noteq> None))"

text \<open>What is known of a running evaluation: unless the row changed, what it read is still there.\<close>

definition running_ok :: "system \<Rightarrow> evaluationPhase \<Rightarrow> bool" where
  "running_ok S p \<longleftrightarrow>
     (case p of
        VersionRead ot oid v \<Rightarrow> incident_object ot \<and> v \<in> set (sy_versions S)
      | PreviousRead ot oid v previous \<Rightarrow> incident_object ot \<and> v \<in> set (sy_versions S) \<and> active_ok ot oid previous \<and>
          (\<forall>row. map_of (st_objects (sy_store S)) (ot, oid) = Some row \<and> ow_version row = v \<longrightarrow>
            mset previous = mset (rows_of ot oid (sy_store S))))"

definition system_ok :: "system \<Rightarrow> bool" where
  "system_ok S \<longleftrightarrow> store_ok (sy_store S) \<and> consistent (sy_store S) \<and>
     (\<forall>k row. map_of (st_objects (sy_store S)) k = Some row \<longrightarrow> ow_version row \<in> set (sy_versions S)) \<and>
     (\<forall>i p. sy_running S i = Some p \<longrightarrow> running_ok S p)"

lemma log_state_append:
  "log_state b (xs @ ys) = (case log_state b xs of None \<Rightarrow> None | Some b' \<Rightarrow> log_state b' ys)"
  by (induction xs arbitrary: b) (auto split: EventType.split)

lemma log_state_types: "map ev_EventType xs = map ev_EventType ys \<Longrightarrow> log_state b xs = log_state b ys"
proof (induction xs arbitrary: ys b)
  case (Cons x xs)
  then obtain y ys' where y: "ys = y # ys'" "ev_EventType x = ev_EventType y" "map ev_EventType xs = map ev_EventType ys'"
    by (cases ys) auto
  show ?case unfolding y(1) log_state.simps y(2) Cons.IH [OF y(3)] ..
qed simp

lemma active_in_mset:
  assumes "mset xs = mset ys" and "distinct (map inc_IncidentClass xs)"
  shows "active_in xs c = active_in ys c"
proof -
  have "mset (map inc_IncidentClass xs) = mset (map inc_IncidentClass ys)" using assms(1) by (simp add: mset_map)
  hence "distinct (map inc_IncidentClass ys)" using assms(2) mset_eq_imp_distinct_iff by blast
  moreover have "set xs = set ys" using assms(1) by (rule mset_eq_setD)
  ultimately have "active_in xs c = Some r \<longleftrightarrow> active_in ys c = Some r" for r
    using assms(2) by (simp add: active_in_iff)
  thus ?thesis by (metis option.exhaust)
qed

lemma log_of_append: "log_of ot oid c (xs @ ys) = log_of ot oid c xs @ log_of ot oid c ys"
  by (simp add: log_of_def)

text \<open>
  A write to the tables that replaces the incidents of one object: the effect of both writers.
\<close>

definition replaces ::
    "ObjectType \<Rightarrow> string \<Rightarrow> IncidentRecord list \<Rightarrow> StateChangeEventRecord list \<Rightarrow> incidentStore \<Rightarrow> incidentStore \<Rightarrow> bool" where
  "replaces ot oid rows events s s' \<longleftrightarrow>
     active_ok ot oid rows \<and> st_active s' = filter (\<lambda>r. \<not> belongs ot oid r) (st_active s) @ rows \<and>
     map er_Record (st_events s') = map er_Record (st_events s) @ events \<and>
     list_all (\<lambda>e. ev_ObjectType e = ot \<and> ev_ObjectID e = oid) events \<and>
     (\<forall>c. log_state (active_in (rows_of ot oid s) c \<noteq> None) (filter (\<lambda>e. ev_IncidentClass e = c) events) =
        Some (active_in rows c \<noteq> None))"

lemma replaces_rows:
  assumes "replaces ot oid rows events s s'"
  shows "rows_of ot oid s' = rows"
    and "(ot', oid') \<noteq> (ot, oid) \<Longrightarrow> rows_of ot' oid' s' = rows_of ot' oid' s"
proof -
  have a: "st_active s' = filter (\<lambda>r. \<not> belongs ot oid r) (st_active s) @ rows" "active_ok ot oid rows"
    using assms by (auto simp: replaces_def)
  have b: "belongs ot oid r" if "r \<in> set rows" for r using active_ok_rows(2) [OF a(2) that] .
  show "rows_of ot oid s' = rows" using b by (simp add: rows_of_def a(1) filter_id_conv)
  assume ne: "(ot', oid') \<noteq> (ot, oid)"
  hence "filter (belongs ot' oid') rows = []" using b by (auto simp: filter_empty_conv belongs_def)
  moreover have "(\<not> belongs ot oid r \<and> belongs ot' oid' r) = belongs ot' oid' r" for r
    using ne by (auto simp: belongs_def)
  ultimately show "rows_of ot' oid' s' = rows_of ot' oid' s" by (simp add: rows_of_def a(1))
qed

lemma replaces_consistent:
  assumes "replaces ot oid rows events s s'" and "store_ok s" and "consistent s"
  shows "store_ok s'" and "consistent s'"
proof -
  have r: "active_ok ot oid rows" "st_active s' = filter (\<lambda>r. \<not> belongs ot oid r) (st_active s) @ rows"
    "map er_Record (st_events s') = map er_Record (st_events s) @ events"
    "list_all (\<lambda>e. ev_ObjectType e = ot \<and> ev_ObjectID e = oid) events"
    and l: "\<And>c. log_state (active_in (rows_of ot oid s) c \<noteq> None) (filter (\<lambda>e. ev_IncidentClass e = c) events) =
        Some (active_in rows c \<noteq> None)"
    using assms(1) by (auto simp: replaces_def)
  show "store_ok s'" by (rule replaced_store_ok [OF assms(2) r(1,2)])
  have "log_state False (log_of ot' oid' c (map er_Record (st_events s'))) = Some (active_in (rows_of ot' oid' s') c \<noteq> None)"
    if "incident_object ot'" "c \<in> set known_classes" for ot' oid' c
  proof (cases "(ot', oid') = (ot, oid)")
    case True
    have "log_of ot oid c events = filter (\<lambda>e. ev_IncidentClass e = c) events"
      using r(4) by (auto simp: log_of_def list_all_iff intro!: filter_cong)
    hence e: "log_of ot oid c (map er_Record (st_events s')) =
        log_of ot oid c (map er_Record (st_events s)) @ filter (\<lambda>e. ev_IncidentClass e = c) events"
      by (simp only: r(3) log_of_append)
    have before: "log_state False (log_of ot oid c (map er_Record (st_events s))) = Some (active_in (rows_of ot oid s) c \<noteq> None)"
      using assms(3) that True unfolding consistent_def by blast
    have "log_state False (log_of ot oid c (map er_Record (st_events s'))) = Some (active_in rows c \<noteq> None)"
      unfolding e log_state_append before option.case by (rule l)
    thus ?thesis using True replaces_rows(1) [OF assms(1)] by simp
  next
    case False
    have "log_of ot' oid' c events = []" using r(4) False by (auto simp: log_of_def list_all_iff filter_empty_conv)
    hence e: "log_of ot' oid' c (map er_Record (st_events s')) = log_of ot' oid' c (map er_Record (st_events s))"
      by (simp only: r(3) log_of_append append_Nil2)
    have "log_state False (log_of ot' oid' c (map er_Record (st_events s))) = Some (active_in (rows_of ot' oid' s) c \<noteq> None)"
      using assms(3) that unfolding consistent_def by blast
    thus ?thesis unfolding e replaces_rows(2) [OF assms(1) False] .
  qed
  thus "consistent s'" unfolding consistent_def by blast
qed

subsection \<open>The two writers\<close>

lemma ListActiveIncidents_mset: "mset (ListActiveIncidents ot oid s) = mset (rows_of ot oid s)"
  by (simp add: ListActiveIncidents_def rows_of_def)

lemma active_ok_mset:
  assumes "mset xs = mset ys" and "active_ok ot oid ys"
  shows "active_ok ot oid xs"
proof -
  have "mset (map inc_IncidentClass xs) = mset (map inc_IncidentClass ys)" using assms(1) by (simp add: mset_map)
  hence "distinct (map inc_IncidentClass xs) = distinct (map inc_IncidentClass ys)" by (rule mset_eq_imp_distinct_iff)
  thus ?thesis using assms(2) unfolding active_ok_def incidents_ok_def list_all_iff mset_eq_setD [OF assms(1)] by simp
qed

lemma rows_active_ok:
  assumes "store_ok s" and "incident_object ot"
  shows "active_ok ot oid (rows_of ot oid s)"
  using assms rows_of_ok [OF assms(1)] by (auto simp: active_ok_def store_ok_def row_ok_def rows_of_def list_all_iff)

lemma mutation_replaces:
  assumes "incidentMutationTx env m s = Inr s'" and "store_ok s" and "mutation_ok ot oid previous m"
    and "active_ok ot oid (mu_Active m)"
    and "\<And>row. map_of (st_objects s) (ot, oid) = Some row \<Longrightarrow> ow_version row = mu_ExpectedObjectRowVersion m \<Longrightarrow>
      mset previous = mset (rows_of ot oid s)"
  shows "replaces ot oid (mu_Active m) (mu_Events m) s s'"
    and "\<exists>row'. st_objects s' = AList.update (ot, oid) row' (st_objects s) \<and> ow_version row' = env_newVersion env"
proof -
  have k: "mu_ObjectType m = ot" "mu_ObjectID m = oid" using assms(3) by (auto simp: mutation_ok_def)
  have act: "active_ok (mu_ObjectType m) (mu_ObjectID m) (mu_Active m)" using assms(4) by (simp add: k)
  obtain row new where row: "map_of (st_objects s) (ot, oid) = Some row" "ow_version row = mu_ExpectedObjectRowVersion m"
    and new: "map er_Record new = mu_Events m"
      "list_all (\<lambda>r. ev_CreatedAt (er_Record r) \<le> er_CreatedAt r) new"
    and s': "s' = s\<lparr> st_active := filter (\<lambda>r. \<not> belongs ot oid r) (st_active s) @ mu_Active m,
      st_events := st_events s @ new,
      st_objects := AList.update (ot, oid) (summaryRow env ot (mu_Active m) row) (st_objects s) \<rparr>"
    by (rule incidentMutationTx_effect [OF assms(1,2) act, unfolded k])
  have "mset previous = mset (rows_of ot oid s)" by (rule assms(5) [OF row])
  hence "active_in (rows_of ot oid s) c = active_in previous c" for c
    using active_in_mset rows_of_ok [OF assms(2)] by (metis incidents_ok_def)
  hence "log_state (active_in (rows_of ot oid s) c \<noteq> None) (filter (\<lambda>e. ev_IncidentClass e = c) (mu_Events m)) =
      Some (active_in (mu_Active m) c \<noteq> None)" for c
    using assms(3) unfolding mutation_ok_def by metis
  moreover have "list_all (\<lambda>e. ev_ObjectType e = ot \<and> ev_ObjectID e = oid) (mu_Events m)"
    using assms(3) unfolding mutation_ok_def event_for_def list_all_iff by blast
  ultimately show "replaces ot oid (mu_Active m) (mu_Events m) s s'"
    using assms(4) unfolding replaces_def by (simp add: s' new)
  show "\<exists>row'. st_objects s' = AList.update (ot, oid) row' (st_objects s) \<and> ow_version row' = env_newVersion env"
    by (rule exI [of _ "summaryRow env ot (mu_Active m) row"]) (simp add: s' summaryRow_def Let_def)
qed

lemma archive_event_types:
  "map ev_EventType (filter (\<lambda>e. ev_IncidentClass e = c)
     (map (\<lambda>(i, row). archiveCloseEvent ot oid reason (now i) row) (enumerate n rows))) =
   map ev_EventType (filter (\<lambda>e. ev_IncidentClass e = c) (map (closedByManagementEvent ot oid 0 []) rows))"
  by (induction rows arbitrary: n) (simp_all add: archiveCloseEvent_def closedByManagementEvent_def)

lemma archive_replaces:
  assumes "closeArchiveIncidents env ot oid reason now s = Inr s'" and "store_ok s" and "incident_object ot"
  shows "\<exists>events. replaces ot oid [] events s s'"
    and "st_objects s' = st_objects s \<and> map_of (st_objects s) (ot, oid) = None \<or>
      (\<exists>row'. st_objects s' = AList.update (ot, oid) row' (st_objects s) \<and> ow_version row' = env_newVersion env)"
proof -
  define rows where "rows = SliceStable incident_id_less (filter (belongs ot oid) (st_active s))"
  let ?events = "map (\<lambda>(i, row). archiveCloseEvent ot oid reason (now i) row) (enumerate 0 rows)"
  obtain s1 where ins: "insertStateChangeEvents env ?events s = Inr s1"
    and s': "s' = s1\<lparr> st_active := filter (\<lambda>row. \<not> belongs ot oid row) (st_active s1),
      st_objects := (case map_of (st_objects s1) (ot, oid) of
          None \<Rightarrow> st_objects s1
        | Some row \<Rightarrow> AList.update (ot, oid)
            (row\<lparr> ow_version := env_newVersion env, ow_currentActiveIncidentCount := 0,
              ow_currentPrimaryIssueSummary := [], ow_currentHealthStatus := ''unknown'' \<rparr>) (st_objects s1)) \<rparr>"
    using assms(1) unfolding closeArchiveIncidents_def rows_def Let_def by (auto split: option.splits sum.splits)
  obtain new where s1: "s1 = s\<lparr> st_events := st_events s @ new \<rparr>" "map er_Record new = ?events"
    using insertStateChangeEvents_effect [OF ins] by blast
  have m: "mset rows = mset (rows_of ot oid s)" by (simp add: rows_def rows_of_def)
  hence ok: "active_ok ot oid rows" by (rule active_ok_mset [OF _ rows_active_ok [OF assms(2,3)]])
  hence d: "distinct (map inc_IncidentClass rows)" by (simp add: active_ok_def incidents_ok_def)
  have "log_state (active_in (rows_of ot oid s) c \<noteq> None) (filter (\<lambda>e. ev_IncidentClass e = c) ?events) = Some False" for c
  proof -
    from log_state_types [OF archive_event_types] show ?thesis
      using log_closes [OF d] active_in_mset [OF m d] by simp
  qed
  moreover have "active_ok ot oid []" using assms(3) by (simp add: active_ok_def incidents_ok_def)
  moreover have "list_all (\<lambda>e. ev_ObjectType e = ot \<and> ev_ObjectID e = oid) ?events"
    by (auto simp: list_all_iff archiveCloseEvent_def closedByManagementEvent_def)
  ultimately have "replaces ot oid [] ?events s s'"
    unfolding replaces_def by (simp add: s' s1)
  thus "\<exists>events. replaces ot oid [] events s s'" by blast
  show "st_objects s' = st_objects s \<and> map_of (st_objects s) (ot, oid) = None \<or>
      (\<exists>row'. st_objects s' = AList.update (ot, oid) row' (st_objects s) \<and> ow_version row' = env_newVersion env)"
  proof (cases "map_of (st_objects s) (ot, oid)")
    case (Some row)
    show ?thesis
      by (intro disjI2 exI [of _ "row\<lparr> ow_version := env_newVersion env, ow_currentActiveIncidentCount := 0,
          ow_currentPrimaryIssueSummary := [], ow_currentHealthStatus := ''unknown'' \<rparr>"]) (simp add: s' s1 Some)
  qed (simp add: s' s1)
qed

subsection \<open>The invariant\<close>

text \<open>
  Between two states, an object row with an old version is the same row, and the incidents of that
  object are the same.
\<close>

definition frame :: "string list \<Rightarrow> incidentStore \<Rightarrow> incidentStore \<Rightarrow> bool" where
  "frame versions s s' \<longleftrightarrow> (\<forall>ot oid row. map_of (st_objects s') (ot, oid) = Some row \<and> ow_version row \<in> set versions \<longrightarrow>
     map_of (st_objects s) (ot, oid) = Some row \<and> rows_of ot oid s' = rows_of ot oid s)"

lemma running_kept:
  assumes "running_ok S p" and "set (sy_versions S) \<subseteq> set (sy_versions S')"
    and "frame (sy_versions S) (sy_store S) (sy_store S')"
  shows "running_ok S' p"
proof (cases p)
  case (VersionRead ot oid v)
  thus ?thesis using assms(1,2) by (auto simp: running_ok_def)
next
  case (PreviousRead ot oid v previous)
  have "mset previous = mset (rows_of ot oid (sy_store S'))"
    if "map_of (st_objects (sy_store S')) (ot, oid) = Some row" "ow_version row = v" for row
  proof -
    have "v \<in> set (sy_versions S)" using assms(1) by (simp add: running_ok_def PreviousRead)
    hence "map_of (st_objects (sy_store S)) (ot, oid) = Some row \<and> rows_of ot oid (sy_store S') = rows_of ot oid (sy_store S)"
      using assms(3) that unfolding frame_def by blast
    thus ?thesis using assms(1) that(2) by (simp add: running_ok_def PreviousRead)
  qed
  thus ?thesis using assms(1,2) by (auto simp: running_ok_def PreviousRead)
qed

lemma system_ok_store:
  assumes "system_ok S" and "store_ok s'" and "consistent s'" and "frame (sy_versions S) (sy_store S) s'"
    and "set (sy_versions S) \<subseteq> set vs"
    and "\<And>k row. map_of (st_objects s') k = Some row \<Longrightarrow> ow_version row \<in> set vs"
    and "\<And>i p. running i = Some p \<Longrightarrow> sy_running S i = Some p"
  shows "system_ok \<lparr> sy_store = s', sy_versions = vs, sy_running = running \<rparr>"
proof -
  let ?S' = "\<lparr> sy_store = s', sy_versions = vs, sy_running = running \<rparr>"
  have f: "sy_store ?S' = s'" "sy_versions ?S' = vs" "sy_running ?S' = running" by simp_all
  have "running_ok ?S' p" if "running i = Some p" for i p
  proof (rule running_kept)
    show "running_ok S p" using assms(1) assms(7) [OF that] unfolding system_ok_def by blast
  qed (use assms(4,5) in simp_all)
  thus ?thesis unfolding system_ok_def f using assms(2,3,6) by blast
qed

lemma system_ok_write:
  assumes ok: "system_ok S" and rep: "replaces ot oid rows events (sy_store S) s'"
    and obj: "st_objects s' = st_objects (sy_store S) \<and> map_of (st_objects (sy_store S)) (ot, oid) = None \<or>
      (\<exists>row'. st_objects s' = AList.update (ot, oid) row' (st_objects (sy_store S)) \<and> ow_version row' = v)"
    and fresh: "v \<notin> set (sy_versions S)" and run: "\<And>i p. running i = Some p \<Longrightarrow> sy_running S i = Some p"
  shows "system_ok \<lparr> sy_store = s', sy_versions = v # sy_versions S, sy_running = running \<rparr>"
proof (rule system_ok_store [OF ok])
  have s: "store_ok (sy_store S)" "consistent (sy_store S)"
    and known: "\<And>k row. map_of (st_objects (sy_store S)) k = Some row \<Longrightarrow> ow_version row \<in> set (sy_versions S)"
    using ok unfolding system_ok_def by blast+
  show "store_ok s'" "consistent s'" by (rule replaces_consistent [OF rep s])+
  have o: "map_of (st_objects s') k = (if k = (ot, oid) then map_of (st_objects s') (ot, oid) else map_of (st_objects (sy_store S)) k)"
    for k using obj by (auto simp: update_conv')
  have new: "ow_version row = v" if "map_of (st_objects s') (ot, oid) = Some row" for row
    using obj that by (auto simp: update_conv')
  show "frame (sy_versions S) (sy_store S) s'"
    unfolding frame_def
  proof (intro allI impI)
    fix ot' oid' row
    assume a: "map_of (st_objects s') (ot', oid') = Some row \<and> ow_version row \<in> set (sy_versions S)"
    hence ne: "(ot', oid') \<noteq> (ot, oid)" using new fresh by metis
    show "map_of (st_objects (sy_store S)) (ot', oid') = Some row \<and> rows_of ot' oid' s' = rows_of ot' oid' (sy_store S)"
      using a ne o [of "(ot', oid')"] replaces_rows(2) [OF rep ne] by (simp split: if_splits)
  qed
  show "ow_version row \<in> set (v # sy_versions S)" if "map_of (st_objects s') k = Some row" for k row
    using that known [of k row] new o [of k] by (cases "k = (ot, oid)") auto
  show "set (sy_versions S) \<subseteq> set (v # sy_versions S)" by auto
qed (rule run)

lemma system_okD:
  assumes "system_ok S"
  shows "store_ok (sy_store S)" and "consistent (sy_store S)"
    and "map_of (st_objects (sy_store S)) k = Some row \<Longrightarrow> ow_version row \<in> set (sy_versions S)"
    and "sy_running S i = Some p \<Longrightarrow> running_ok S p"
  using assms unfolding system_ok_def by blast+

lemma system_update:
  fixes S :: system
  shows "S\<lparr> sy_store := s, sy_versions := vs, sy_running := running \<rparr> =
      \<lparr> sy_store = s, sy_versions = vs, sy_running = running \<rparr>"
    and "S\<lparr> sy_store := s, sy_versions := vs \<rparr> = \<lparr> sy_store = s, sy_versions = vs, sy_running = sy_running S \<rparr>"
    and "S\<lparr> sy_store := s \<rparr> = \<lparr> sy_store = s, sy_versions = sy_versions S, sy_running = sy_running S \<rparr>"
    and "S\<lparr> sy_running := running \<rparr> = \<lparr> sy_store = sy_store S, sy_versions = sy_versions S, sy_running = running \<rparr>"
  by (cases S, simp)+

text \<open>An evaluation that was planned from reads the invariant describes.\<close>

lemma planned_ok:
  assumes "planned ot oid reads plan" and "reads_ok ot oid reads"
  shows "plan_ok ot oid reads plan"
  using assms heartbeatOnlyPlan_ok instancePlan_ok targetPlan_ok unfolding planned_def by blast

lemma runPlan_snd:
  "snd (runPlan write plan s) = (case plan_mutations plan of [m] \<Rightarrow> snd (write m s) | _ \<Rightarrow> s)"
  by (cases plan) (simp_all add: runPlan_def applyEvaluationAttempt_def plan_mutations_def case_prod_unfold Let_def)

lemma runPlan_store:
  assumes "snd (runPlan (ApplyIncidentMutation env) plan s) \<noteq> s"
  shows "\<exists>m. plan_mutations plan = [m] \<and>
    incidentMutationTx env m s = Inr (snd (runPlan (ApplyIncidentMutation env) plan s))"
  using assms applied_effect unfolding runPlan_snd by (auto split: list.splits)

lemma plan_ok_mutation: "plan_ok ot oid reads plan \<Longrightarrow> plan_mutations plan = [m] \<Longrightarrow> mutation_from ot oid reads m"
  by (cases plan) (auto simp: plan_ok_def plan_mutations_def)

lemma evaluate_ok:
  assumes ok: "system_ok S" and run: "sy_running S i = Some (PreviousRead ot oid v previous)"
    and reads: "rd_rowVersion reads = Inr v" "rd_active reads = Inr previous" "\<And>m. mset (rd_rangeOrder reads m) = mset m"
    and plan: "planned ot oid reads plan" and fresh: "env_newVersion env \<notin> set (sy_versions S)"
  shows "system_ok (S\<lparr> sy_store := snd (runPlan (ApplyIncidentMutation env) plan (sy_store S)),
      sy_versions := env_newVersion env # sy_versions S, sy_running := (sy_running S)(i := None) \<rparr>)"
proof -
  let ?s = "sy_store S" and ?s' = "snd (runPlan (ApplyIncidentMutation env) plan (sy_store S))"
  let ?run = "(sy_running S)(i := None)"
  have p: "running_ok S (PreviousRead ot oid v previous)" and s: "store_ok ?s"
    using ok run unfolding system_ok_def by blast+
  have "system_ok \<lparr> sy_store = ?s', sy_versions = env_newVersion env # sy_versions S, sy_running = ?run \<rparr>"
  proof (cases "?s' = ?s")
    case True
    show ?thesis unfolding True
    proof (rule system_ok_store [OF ok])
      show "store_ok ?s" "consistent ?s" using ok unfolding system_ok_def by blast+
      show "frame (sy_versions S) ?s ?s" unfolding frame_def by blast
      show "ow_version row \<in> set (env_newVersion env # sy_versions S)" if "map_of (st_objects ?s) k = Some row" for k row
        using ok that unfolding system_ok_def list.set by blast
    qed (auto split: if_splits)
  next
    case False
    then obtain m where m: "plan_mutations plan = [m]" "incidentMutationTx env m ?s = Inr ?s'"
      using runPlan_store by blast
    have "reads_ok ot oid reads" using p reads by (simp add: reads_ok_def running_ok_def)
    from plan_ok_mutation [OF planned_ok [OF plan this] m(1)]
    have f: "mu_ExpectedObjectRowVersion m = v" "active_ok ot oid (mu_Active m)" "mutation_ok ot oid previous m"
      using reads by (auto simp: mutation_from_def)
    have "mset previous = mset (rows_of ot oid ?s)"
      if "map_of (st_objects ?s) (ot, oid) = Some row" "ow_version row = mu_ExpectedObjectRowVersion m" for row
      using p that f(1) by (simp add: running_ok_def)
    note w = mutation_replaces [OF m(2) s f(3,2) this]
    show ?thesis
      using w(2) fresh by (intro system_ok_write [OF ok w(1)]) (auto split: if_splits)
  qed
  thus ?thesis unfolding system_update(1) .
qed

lemma objects_ok:
  assumes ok: "system_ok S" and obj: "\<And>k row. map_of objects k = Some row \<Longrightarrow>
      map_of (st_objects (sy_store S)) k = Some row \<or> ow_version row \<in> set vs - set (sy_versions S)"
    and vs: "set (sy_versions S) \<subseteq> set vs"
  shows "system_ok \<lparr> sy_store = (sy_store S)\<lparr> st_objects := objects \<rparr>, sy_versions = vs, sy_running = sy_running S \<rparr>"
proof (rule system_ok_store [OF ok])
  have rows: "rows_of ot oid ((sy_store S)\<lparr> st_objects := objects \<rparr>) = rows_of ot oid (sy_store S)" for ot oid
    by (simp add: rows_of_def)
  show "store_ok ((sy_store S)\<lparr> st_objects := objects \<rparr>)" using ok by (simp add: system_ok_def store_ok_def)
  show "consistent ((sy_store S)\<lparr> st_objects := objects \<rparr>)"
    using ok unfolding system_ok_def consistent_def rows by simp
  show "frame (sy_versions S) (sy_store S) ((sy_store S)\<lparr> st_objects := objects \<rparr>)"
    unfolding frame_def rows using obj by fastforce
  show "ow_version row \<in> set vs" if "map_of (st_objects ((sy_store S)\<lparr> st_objects := objects \<rparr>)) k = Some row" for k row
    using obj [of k row] that vs system_okD(3) [OF ok, of k row] by auto
qed (use vs in auto)

lemma logs_ok:
  assumes ok: "system_ok S" and s: "s' = (sy_store S)\<lparr> st_events := st_events (sy_store S) @ new, st_notifications := sent \<rparr>"
    and other: "\<And>r. r \<in> set new \<Longrightarrow> ev_IncidentClass (er_Record r) \<notin> set known_classes"
  shows "system_ok \<lparr> sy_store = s', sy_versions = sy_versions S, sy_running = sy_running S \<rparr>"
proof (rule system_ok_store [OF ok])
  have rows: "rows_of ot oid s' = rows_of ot oid (sy_store S)" for ot oid by (simp add: rows_of_def s)
  have log: "log_of ot oid c (map er_Record (st_events s')) = log_of ot oid c (map er_Record (st_events (sy_store S)))"
    if "c \<in> set known_classes" for ot oid c
    using other that by (auto simp: log_of_def s filter_empty_conv)
  show "store_ok s'" using ok by (simp add: system_ok_def store_ok_def s)
  show "consistent s'" using ok log unfolding system_ok_def consistent_def rows by metis
  show "frame (sy_versions S) (sy_store S) s'" unfolding frame_def rows by (simp add: s)
  show "ow_version row \<in> set (sy_versions S)" if "map_of (st_objects s') k = Some row" for k row
    using that system_okD(3) [OF ok, of k row] by (simp add: s)
qed auto

lemma phase_ok:
  assumes ok: "system_ok S" and p: "\<And>q. p = Some q \<Longrightarrow> running_ok S q"
  shows "system_ok \<lparr> sy_store = sy_store S, sy_versions = sy_versions S, sy_running = (sy_running S)(i := p) \<rparr>"
proof -
  have "running_ok \<lparr> sy_store = sy_store S, sy_versions = sy_versions S, sy_running = (sy_running S)(i := p) \<rparr> q = running_ok S q" for q
    by (cases q) (simp_all add: running_ok_def)
  thus ?thesis
    unfolding system_ok_def [of "\<lparr> sy_store = _, sy_versions = _, sy_running = _ \<rparr>"]
    using system_okD [OF ok] p by (simp split: if_splits)
qed

lemma notifications_store:
  "\<exists>sent. snd (AppendNotificationRecords env records s) = s\<lparr> st_events := st_events s @ [], st_notifications := sent \<rparr>"
proof -
  have "\<exists>sent. s = s\<lparr> st_notifications := sent \<rparr>" by (rule exI [of _ "st_notifications s"]) simp
  thus ?thesis
    unfolding AppendNotificationRecords_def commitTx_def
    by (simp split: option.split sum.split commitOutcome.split) blast
qed

lemma step_ok:
  assumes "step S S'" and ok: "system_ok S"
  shows "system_ok S'"
  using assms(1)
proof cases
  case (read_version ot oid v i)
  then obtain row where "map_of (st_objects (sy_store S)) (ot, oid) = Some row" "ow_version row = v" "incident_object ot"
    by (auto simp: GetObjectRowVersion_def split: if_splits option.splits)
  hence "running_ok S (VersionRead ot oid v)" using system_okD(3) [OF ok, of "(ot, oid)" row] by (simp add: running_ok_def)
  thus ?thesis unfolding read_version(1) system_update(4) by (intro phase_ok [OF ok]) auto
next
  case (read_previous i ot oid v)
  have "running_ok S (VersionRead ot oid v)" and s: "store_ok (sy_store S)"
    using system_okD [OF ok] read_previous(2) by blast+
  hence "running_ok S (PreviousRead ot oid v (ListActiveIncidents ot oid (sy_store S)))"
    using active_ok_mset [OF ListActiveIncidents_mset rows_active_ok [OF s]]
    by (simp add: running_ok_def ListActiveIncidents_mset)
  thus ?thesis unfolding read_previous(1) system_update(4) by (intro phase_ok [OF ok]) auto
next
  case (evaluate i ot oid v previous reads plan env)
  show ?thesis unfolding evaluate(1) by (rule evaluate_ok [OF ok evaluate(2-7)])
next
  case (abandon i)
  show ?thesis unfolding abandon system_update(4) by (rule phase_ok [OF ok]) simp
next
  case (archive env ot oid reason now s)
  have "store_ok (sy_store S)" by (rule system_okD(1) [OF ok])
  note a = archive_replaces [OF archive(2) this archive(3)]
  obtain events where "replaces ot oid [] events (sy_store S) s" using a(1) by blast
  from system_ok_write [OF ok this a(2) archive(4)] show ?thesis unfolding archive(1) system_update(2) by blast
next
  case (change_object row k)
  show ?thesis unfolding change_object(1) system_update(2)
    using change_object(2) by (intro objects_ok [OF ok]) (auto simp: update_conv' split: if_splits)
next
  case (delete_object k)
  show ?thesis unfolding delete_object system_update(3)
    by (intro objects_ok [OF ok]) (auto simp: delete_conv' split: if_splits)
next
  case (other_event r)
  show ?thesis unfolding other_event(1) system_update(3)
    using other_event(2) by (intro logs_ok [OF ok, where new = "[r]" and sent = "st_notifications (sy_store S)"]) auto
next
  case (notify env records)
  obtain sent where "snd (AppendNotificationRecords env records (sy_store S)) =
      (sy_store S)\<lparr> st_events := st_events (sy_store S) @ [], st_notifications := sent \<rparr>"
    using notifications_store by blast
  thus ?thesis unfolding notify system_update(3) by (rule logs_ok [OF ok]) simp
qed

lemma reachable_ok: "reachable S \<Longrightarrow> system_ok S"
proof (induction rule: reachable.induct)
  case initial
  show ?case by (simp add: system_ok_def empty_system_def store_ok_def consistent_def log_of_def rows_of_def)
next
  case (next_step S S')
  show ?case by (rule step_ok [OF next_step(2,3)])
qed

section \<open>The log tells what is active\<close>

text \<open>
  (C34) In every state that evaluations, administrative closures and all other writers can reach, in any
  interleaving of their reads and transactions and with any database faults and lost commit
  confirmations, the incident table is well formed and the event log is exact: for every object and
  incident class the events form an alternation of a start, escalations and one closing event, and the
  incident is in the table precisely when the last of them is not a closing event.  No incident is
  started twice, closed twice or closed without having been started, and none disappears silently.
\<close>

theorem log_tells_active:
  assumes "reachable S" and "incident_object ot" and "c \<in> set known_classes"
  shows "store_ok (sy_store S) \<and>
    log_state False (log_of ot oid c (map er_Record (st_events (sy_store S)))) =
      Some (active_in (rows_of ot oid (sy_store S)) c \<noteq> None)"
  using system_okD(1,2) [OF reachable_ok [OF assms(1)]] assms(2,3) unfolding consistent_def by blast

text \<open>A target is created, its failing probe is evaluated, and the incident is active.\<close>

definition sample_created :: system where
  "sample_created = empty_system\<lparr> sy_store := (sy_store empty_system)\<lparr> st_objects := [((ObjectTypeTarget, ''t''), sample_row)] \<rparr>,
     sy_versions := [''7''] \<rparr>"

definition sample_read :: system where
  "sample_read = sample_created\<lparr> sy_running := (\<lambda>i. if i = 0 then Some (PreviousRead ObjectTypeTarget ''t'' ''7'' []) else None) \<rparr>"

definition sample_evaluated :: system where
  "sample_evaluated = sample_read\<lparr>
     sy_store := snd (runPlan (ApplyIncidentMutation sample_env) (targetPlan sample_reads ''t'' (90 * second)) (sy_store sample_read)),
     sy_versions := ''8'' # sy_versions sample_read, sy_running := (sy_running sample_read)(0 := None) \<rparr>"

lemma sample_created_reachable: "reachable sample_created"
proof (rule next_step [OF initial])
  show "step empty_system sample_created"
    using change_object [of sample_row empty_system "(ObjectTypeTarget, ''t'')"]
    by (simp add: sample_created_def empty_system_def sample_row_def)
qed

lemma sample_read_reachable: "reachable sample_read"
proof -
  define S where "S = sample_created\<lparr> sy_running := (sy_running sample_created)(0 := Some (VersionRead ObjectTypeTarget ''t'' ''7'')) \<rparr>"
  have "GetObjectRowVersion ObjectTypeTarget ''t'' (sy_store sample_created) = Inr ''7''" by code_simp
  hence "reachable S" unfolding S_def by (intro next_step [OF sample_created_reachable] read_version)
  moreover have "ListActiveIncidents ObjectTypeTarget ''t'' (sy_store sample_created) = []" by code_simp
  hence "sample_read = S\<lparr> sy_running := (sy_running S)(0 := Some (PreviousRead ObjectTypeTarget ''t'' ''7''
      (ListActiveIncidents ObjectTypeTarget ''t'' (sy_store S)))) \<rparr>"
    by (simp add: sample_read_def S_def sample_created_def empty_system_def fun_eq_iff)
  moreover have "sy_running S 0 = Some (VersionRead ObjectTypeTarget ''t'' ''7'')" by (simp add: S_def)
  ultimately show ?thesis using next_step read_previous by metis
qed

lemma sample_evaluated_reachable: "reachable sample_evaluated"
proof (rule next_step [OF sample_read_reachable])
  have v: "env_newVersion sample_env = ''8''" by (simp add: sample_env_def)
  show "step sample_read sample_evaluated"
    unfolding sample_evaluated_def v [symmetric]
  proof (rule evaluate)
    show "sy_running sample_read 0 = Some (PreviousRead ObjectTypeTarget ''t'' ''7'' [])" by (simp add: sample_read_def)
    show "planned ObjectTypeTarget ''t'' sample_reads (targetPlan sample_reads ''t'' (90 * second))"
      unfolding planned_def by blast
    show "env_newVersion sample_env \<notin> set (sy_versions sample_read)"
      by (simp add: v sample_read_def sample_created_def)
  qed (simp_all add: sample_reads_def)
qed

theorem log_tells_active_witness:
  "log_state False (log_of ObjectTypeTarget ''t'' IncidentTargetProbeFailure
     (map er_Record (st_events (sy_store sample_evaluated)))) = Some True"
proof -
  have "active_in (rows_of ObjectTypeTarget ''t'' (sy_store sample_evaluated)) IncidentTargetProbeFailure \<noteq> None" by code_simp
  thus ?thesis
    using log_tells_active [OF sample_evaluated_reachable, of ObjectTypeTarget IncidentTargetProbeFailure "''t''"]
    by (simp add: known_class_names)
qed

end
