(* ===== verification/Sync_Queue.thy ===== *)
theory Sync_Queue
  imports Agent_Api "HOL-Library.Sublist"
begin

text \<open>
  The agent's durable queue of sync batches (\<open>agent/syncqueue/store.go\<close>): the envelope on disk, the checks
  of a reader, and every operation of \<open>FileStore\<close>.  The file is modelled by what its text says: it is
  missing, a legacy array, an envelope with all its fields, or something the JSON decoder rejects.  The
  JSON inside an envelope whose keys and numbers come from data (raw messages and maps) is a tree, on
  which the check for duplicate keys runs; the keys of structs are the distinct names in their tags.  The
  strings of an envelope are UTF-8, so that encoding keeps them.  The encoded lengths of an entry and of
  the envelope fields are arguments; the length of an envelope is their sum with a comma between two
  entries.  Every system call may fail; an operation takes an environment that says which do, the clock
  and the random identifier.  Requests are values, so cloning one is the identity.
\<close>

section \<open>Data\<close>

datatype queueError =
  ErrLegacyQueueNotDrained
| ErrAmbiguousDurability string
| errEntryExceedsCapacity
| QueueError string
| SystemError string

record Options =
  op_MaxEntries :: int
  op_MaxAge :: duration
  op_MaxBytes :: int
  op_SkipFsync :: bool

record Entry =
  en_ID :: string
  en_CreatedAt :: time
  en_Attempts :: int
  en_Request :: SyncRequest

record ReplayState =
  rs_SessionID :: string
  rs_ProducerID :: string
  rs_AllocatedThrough :: int
  rs_RetiredThrough :: int

record envelope =
  ev_Version :: int
  ev_SessionID :: string
  ev_ProducerID :: string
  ev_LastAllocatedBatchSeq :: int
  ev_RetiredBatchFloor :: int
  ev_LiveReservedThrough :: int
  ev_Entries :: "Entry list"

text \<open>
  The queue file: an array with that many elements, a text that has every control field and decodes to
  an envelope, or a text that does not (no JSON, a missing, null, unknown or repeated field, trailing data).
\<close>

datatype queueFile = FileMissing | FileLegacy nat | FileEnvelope envelope | FileInvalid string

text \<open>
  A store: the file other processes see and the file that survives a power loss, the options, and the
  fields of \<open>FileStore\<close> that change.
\<close>

record FileStore =
  fs_file :: queueFile
  fs_durable :: queueFile
  fs_opts :: Options
  fs_lock :: bool
  fs_session :: string
  fs_poison :: "queueError option"

text \<open>What the runtime and the operating system decide during one operation.\<close>

record queueEnv =
  qe_now :: time
  qe_pruneNow :: time
  qe_ctxReady :: "queueError option"
  qe_ctxResult :: "queueError option"
  qe_dir :: "queueError option"
  qe_openLock :: "queueError option"
  qe_chmodLock :: "queueError option"
  qe_flock :: "queueError option"
  qe_unlock :: "queueError option"
  qe_read :: "queueError option"
  qe_newRandom :: "queueError + string"
  qe_marshal :: "queueError option"
  qe_ctxWrite :: "nat \<Rightarrow> queueError option"
  qe_createTemp :: "nat \<Rightarrow> queueError option"
  qe_write :: "nat \<Rightarrow> queueError option"
  qe_chmod :: "nat \<Rightarrow> queueError option"
  qe_syncFile :: "nat \<Rightarrow> queueError option"
  qe_close :: "nat \<Rightarrow> queueError option"
  qe_ctxRename :: "nat \<Rightarrow> queueError option"
  qe_rename :: "nat \<Rightarrow> queueError option"
  qe_syncDir :: "nat \<Rightarrow> string option"

text \<open>The encoded lengths, and the parser of UUIDs.\<close>

record codec =
  cd_entrySize :: "Entry \<Rightarrow> int"
  cd_metadataSize :: "envelope \<Rightarrow> int"
  cd_uuidParse :: "string \<Rightarrow> string option"

definition defaultMaxEntries :: int where "defaultMaxEntries = 65536"
definition defaultMaxAge :: duration where "defaultMaxAge = 72 * hour"
definition defaultMaxBytes :: int where "defaultMaxBytes = 64 * 1024 * 1024"

definition NewFileStore :: "queueFile \<Rightarrow> Options \<Rightarrow> FileStore" where
  "NewFileStore file opts =
     \<lparr> fs_file = file, fs_durable = file,
       fs_opts = \<lparr> op_MaxEntries = (if op_MaxEntries opts \<le> 0 then defaultMaxEntries else op_MaxEntries opts),
         op_MaxAge = (if op_MaxAge opts \<le> 0 then defaultMaxAge else op_MaxAge opts),
         op_MaxBytes = (if op_MaxBytes opts \<le> 0 then defaultMaxBytes else op_MaxBytes opts),
         op_SkipFsync = op_SkipFsync opts \<rparr>,
       fs_lock = False, fs_session = [], fs_poison = None \<rparr>"

section \<open>JSON inside an envelope\<close>

text \<open>
  The values of a request whose keys and numbers are data, each with the number of arrays and objects
  around it in the text of an envelope.
\<close>

definition detailsJSON :: "IPQualityProviderDetails option \<Rightarrow> (nat \<times> json) list" where
  "detailsJSON details =
     (case details of
        None \<Rightarrow> []
      | Some d \<Rightarrow> [(9, JObject (map (\<lambda>(key, value). (jsonString key, JString (jsonString value))) (qd_FieldStates d)))])"

definition reportJSON :: "IPQualityReportPayload \<Rightarrow> (nat \<times> json) list" where
  "reportJSON report =
     rawJSON 6 (iq_RawJSON report) @ rawJSON 6 (iq_DiagnosticsJSON report) @
     concat (map (\<lambda>provider. rawJSON 8 (qr_ExtraJSON provider) @ detailsJSON (qr_Details provider)) (iq_ProviderResults report)) @
     concat (map (\<lambda>unlock. rawJSON 8 (qu_ExtraJSON unlock)) (iq_ServiceUnlocks report))"

definition requestJSON :: "SyncRequest \<Rightarrow> (nat \<times> json) list" where
  "requestJSON r = concat (map reportJSON (sr_IPQualityReports r))"

definition envelopeJSON :: "envelope \<Rightarrow> (nat \<times> json) list" where
  "envelopeJSON st = concat (map (\<lambda>entry. requestJSON (en_Request entry)) (ev_Entries st))"

text \<open>\<open>json.Marshal\<close> of a request fails on a raw message that is not JSON.\<close>

definition reportMarshals :: "IPQualityReportPayload \<Rightarrow> bool" where
  "reportMarshals report \<longleftrightarrow>
     rawMarshals (iq_RawJSON report) \<and> rawMarshals (iq_DiagnosticsJSON report) \<and>
     list_all (\<lambda>provider. rawMarshals (qr_ExtraJSON provider)) (iq_ProviderResults report) \<and>
     list_all (\<lambda>unlock. rawMarshals (qu_ExtraJSON unlock)) (iq_ServiceUnlocks report)"

definition marshalError :: "queueEnv \<Rightarrow> Entry list \<Rightarrow> queueError option" where
  "marshalError env entries =
     (if list_all (\<lambda>entry. list_all reportMarshals (sr_IPQualityReports (en_Request entry))) entries
      then qe_marshal env else Some (SystemError ''json: error calling MarshalJSON for type json.RawMessage''))"

text \<open>
  \<open>rejectDuplicateKeys\<close> reads the tokens of a value.  A number token fails when it is no \<open>float64\<close>; a key
  is checked against the keys before it, and then its value is read.
\<close>

fun rejectDuplicateKeys :: "json \<Rightarrow> queueError option"
  and rejectElements :: "json list \<Rightarrow> queueError option"
  and rejectMembers :: "string list \<Rightarrow> (string \<times> json) list \<Rightarrow> queueError option" where
  "rejectDuplicateKeys (JNumber x) =
     (if numberInRange x then None else Some (SystemError ''json: cannot unmarshal number into float64''))"
| "rejectDuplicateKeys (JArray values) = rejectElements values"
| "rejectDuplicateKeys (JObject members) = rejectMembers [] members"
| "rejectDuplicateKeys _ = None"
| "rejectElements [] = None"
| "rejectElements (value # values) =
     (case rejectDuplicateKeys value of Some err \<Rightarrow> Some err | None \<Rightarrow> rejectElements values)"
| "rejectMembers seen [] = None"
| "rejectMembers seen ((name, value) # members) =
     (if name \<in> set seen then Some (QueueError (''duplicate JSON key '' @ name))
      else case rejectDuplicateKeys value of
        Some err \<Rightarrow> Some err
      | None \<Rightarrow> rejectMembers (name # seen) members)"

section \<open>Reading\<close>

definition batchIdentity :: "string \<Rightarrow> int \<Rightarrow> string" where
  "batchIdentity producer seq = producer @ '':'' @ itoa seq"

definition batchIdentityMatches :: "SyncRequest \<Rightarrow> string \<Rightarrow> bool" where
  "batchIdentityMatches r bid \<longleftrightarrow>
     list_all (\<lambda>fact. hb_SyncBatchID fact = bid) (sr_Heartbeats r) \<and>
     list_all (\<lambda>fact. hp_SyncBatchID fact = bid) (sr_HostSamples r) \<and>
     list_all (\<lambda>fact. pp_SyncBatchID fact = bid) (sr_ProbeObservations r) \<and>
     list_all (\<lambda>fact. iq_SyncBatchID fact = bid) (sr_IPQualityReports r)"

definition validReplayBounds :: "codec \<Rightarrow> envelope \<Rightarrow> bool" where
  "validReplayBounds cd st \<longleftrightarrow>
     \<not> (ev_Version st \<noteq> 2 \<or> ev_SessionID st = [] \<or> \<not> ValidSyncProducerID (cd_uuidParse cd) (ev_ProducerID st) \<or>
        ev_LastAllocatedBatchSeq st < 0 \<or> ev_RetiredBatchFloor st < 0 \<or>
        ev_RetiredBatchFloor st > ev_LastAllocatedBatchSeq st \<or> ev_LiveReservedThrough st < 0)"

definition entryInvalid :: "envelope \<Rightarrow> int \<Rightarrow> time \<Rightarrow> Entry \<Rightarrow> bool" where
  "entryInvalid st previous previousTime entry \<longleftrightarrow>
     (let r = en_Request entry in
      sr_ProtocolRevision r \<noteq> SyncProtocolRevision \<or> sr_SessionID r \<noteq> ev_SessionID st \<or>
      sr_ProducerID r \<noteq> ev_ProducerID st \<or>
      sr_BatchSequence r \<le> previous \<or> sr_BatchSequence r > ev_LastAllocatedBatchSeq st \<or>
      sr_AllocatedThrough r < sr_BatchSequence r \<or> sr_AllocatedThrough r > ev_LastAllocatedBatchSeq st \<or>
      sr_RetiredThrough r < 0 \<or> sr_RetiredThrough r \<ge> sr_BatchSequence r \<or>
      sr_RetiredThrough r > ev_RetiredBatchFloor st \<or> sr_LiveSignal r \<noteq> None \<or>
      en_ID entry \<noteq> batchIdentity (ev_ProducerID st) (sr_BatchSequence r) \<or> IsZero (en_CreatedAt entry) \<or>
      (\<not> IsZero previousTime \<and> \<not> time_After (en_CreatedAt entry) previousTime) \<or> en_Attempts entry < 0)"

fun decodeEntries :: "envelope \<Rightarrow> int \<Rightarrow> time \<Rightarrow> Entry list \<Rightarrow> queueError option" where
  "decodeEntries st previous previousTime [] = None"
| "decodeEntries st previous previousTime (entry # entries) =
     (if entryInvalid st previous previousTime entry then Some (QueueError ''invalid sync queue entry identity or bounds'')
      else if \<not> batchIdentityMatches (en_Request entry)
          (batchIdentity (ev_ProducerID st) (sr_BatchSequence (en_Request entry)))
      then Some (QueueError ''invalid sync queue fact identity'')
      else decodeEntries st (sr_BatchSequence (en_Request entry)) (en_CreatedAt entry) entries)"

definition expectedFloor :: "envelope \<Rightarrow> int" where
  "expectedFloor st =
     (case ev_Entries st of [] \<Rightarrow> ev_LastAllocatedBatchSeq st | entry # _ \<Rightarrow> sr_BatchSequence (en_Request entry) - 1)"

definition checkEnvelope :: "codec \<Rightarrow> envelope \<Rightarrow> queueError option" where
  "checkEnvelope cd st =
     (if \<not> validReplayBounds cd st then Some (QueueError ''invalid sync queue replay bounds'')
      else case decodeEntries st (ev_RetiredBatchFloor st) zeroTime (ev_Entries st) of
        Some err \<Rightarrow> Some err
      | None \<Rightarrow>
          if ev_RetiredBatchFloor st \<noteq> expectedFloor st then Some (QueueError ''invalid sync queue retired floor'')
          else None)"

definition decodeEnvelope :: "codec \<Rightarrow> queueFile \<Rightarrow> queueError + envelope" where
  "decodeEnvelope cd file =
     (case file of
        FileEnvelope st \<Rightarrow>
          if list_ex (\<lambda>(around, value). rejectDuplicateKeys value \<noteq> None) (envelopeJSON st)
          then Inl (QueueError ''invalid sync queue JSON'')
          else if list_ex (\<lambda>(around, value). around + jsonDepth value > maxNestingDepth) (envelopeJSON st)
          then Inl (QueueError ''invalid sync queue envelope'')
          else (case checkEnvelope cd st of Some err \<Rightarrow> Inl err | None \<Rightarrow> Inr st)
      | _ \<Rightarrow> Inl (QueueError ''invalid sync queue envelope''))"

definition readEnvelope :: "codec \<Rightarrow> queueEnv \<Rightarrow> FileStore \<Rightarrow> queueError + envelope" where
  "readEnvelope cd env s =
     (case qe_read env of
        Some err \<Rightarrow> Inl err
      | None \<Rightarrow>
          if fs_file s = FileMissing then Inl (SystemError ''file does not exist'')
          else case decodeEnvelope cd (fs_file s) of
            Inl err \<Rightarrow> Inl err
          | Inr st \<Rightarrow>
              if fs_session s \<noteq> [] \<and> ev_SessionID st \<noteq> fs_session s
              then Inl (QueueError ''sync queue session changed while open'')
              else Inr st)"

section \<open>Writing\<close>

definition envelopeSize :: "codec \<Rightarrow> envelope \<Rightarrow> int" where
  "envelopeSize cd st =
     cd_metadataSize cd (st\<lparr> ev_Entries := [] \<rparr>) + sum_list (map (cd_entrySize cd) (ev_Entries st)) +
     max 0 (int (length (ev_Entries st)) - 1)"

fun firstError :: "queueError option list \<Rightarrow> queueError option" where
  "firstError [] = None"
| "firstError (Some err # rest) = Some err"
| "firstError (None # rest) = firstError rest"

text \<open>
  The number tells the writes of one operation apart.  Up to the rename only a temporary file exists;
  after it the new file is visible, and durable once the directory is synced.
\<close>

definition writeEnvelope :: "codec \<Rightarrow> queueEnv \<Rightarrow> nat \<Rightarrow> envelope \<Rightarrow> FileStore \<Rightarrow> queueError option \<times> FileStore" where
  "writeEnvelope cd env i st s =
     (case marshalError env (ev_Entries st) of
        Some err \<Rightarrow> (Some err, s)
      | None \<Rightarrow>
          if envelopeSize cd st > op_MaxBytes (fs_opts s) then (Some errEntryExceedsCapacity, s)
          else case firstError [qe_ctxWrite env i, qe_createTemp env i, qe_write env i, qe_chmod env i,
                 (if op_SkipFsync (fs_opts s) then None else qe_syncFile env i), qe_close env i,
                 qe_ctxRename env i, qe_rename env i] of
            Some err \<Rightarrow> (Some err, s)
          | None \<Rightarrow>
              let s = s\<lparr> fs_file := FileEnvelope st \<rparr> in
              if op_SkipFsync (fs_opts s) then (None, s)
              else case qe_syncDir env i of
                Some msg \<Rightarrow> (Some (ErrAmbiguousDurability msg), s\<lparr> fs_poison := Some (ErrAmbiguousDurability msg) \<rparr>)
              | None \<Rightarrow> (None, s\<lparr> fs_durable := FileEnvelope st \<rparr>))"

definition advanceFloor :: "envelope \<Rightarrow> envelope" where
  "advanceFloor st =
     (let floor = (case ev_Entries st of [] \<Rightarrow> ev_LastAllocatedBatchSeq st
         | entry # _ \<Rightarrow> sr_BatchSequence (en_Request entry) - 1)
      in if floor > ev_RetiredBatchFloor st then st\<lparr> ev_RetiredBatchFloor := floor \<rparr> else st)"

lemma advanceFloor_entries [simp]: "ev_Entries (advanceFloor st) = ev_Entries st"
  by (simp add: advanceFloor_def Let_def)

function pruneLoop :: "codec \<Rightarrow> int \<Rightarrow> int list \<Rightarrow> int \<Rightarrow> envelope \<Rightarrow> queueError + envelope" where
  "pruneLoop cd maxBytes sizes bytes st =
     (let st = advanceFloor st;
          payload = cd_metadataSize cd (st\<lparr> ev_Entries := [] \<rparr>);
          commas = max 0 (int (length (ev_Entries st)) - 1)
      in if payload + bytes + commas \<le> maxBytes then Inr st
         else if ev_Entries st = [] then Inl errEntryExceedsCapacity
         else pruneLoop cd maxBytes (tl sizes) (bytes - hd sizes) (st\<lparr> ev_Entries := tl (ev_Entries st) \<rparr>))"
  by pat_completeness auto
termination by (relation "measure (\<lambda>(_, _, _, _, st). length (ev_Entries st))") auto

declare pruneLoop.simps [simp del]

definition pruneEnvelope :: "codec \<Rightarrow> queueEnv \<Rightarrow> Options \<Rightarrow> envelope \<Rightarrow> queueError + envelope" where
  "pruneEnvelope cd env opts st =
     (let cutoff = qe_pruneNow env - op_MaxAge opts;
          young = dropWhile (\<lambda>entry. time_Before (en_CreatedAt entry) cutoff) (ev_Entries st);
          entries = (if int (length young) > op_MaxEntries opts
            then drop (length (ev_Entries st) - nat (op_MaxEntries opts)) (ev_Entries st) else young);
          sizes = map (cd_entrySize cd) entries
      in case marshalError env entries of
           Some err \<Rightarrow> Inl err
         | None \<Rightarrow> pruneLoop cd (op_MaxBytes opts) sizes (sum_list sizes) (st\<lparr> ev_Entries := entries \<rparr>))"

section \<open>Operations\<close>

definition ready :: "queueEnv \<Rightarrow> FileStore \<Rightarrow> queueError option" where
  "ready env s =
     (case fs_poison s of
        Some err \<Rightarrow> Some err
      | None \<Rightarrow>
          (case qe_ctxReady env of
             Some err \<Rightarrow> Some err
           | None \<Rightarrow> if \<not> fs_lock s then Some (QueueError ''sync queue requires OpenSession'') else None))"

definition releaseLock :: "queueEnv \<Rightarrow> FileStore \<Rightarrow> queueError option \<times> FileStore" where
  "releaseLock env s =
     (if \<not> fs_lock s then (None, s) else (qe_unlock env, s\<lparr> fs_lock := False, fs_session := [] \<rparr>))"

text \<open>The errors of \<open>errors.Join\<close>, in order.\<close>

definition Close :: "queueEnv \<Rightarrow> FileStore \<Rightarrow> queueError list \<times> FileStore" where
  "Close env s =
     (let (err, s') = releaseLock env s
      in (List.map_filter (\<lambda>x. x) [fs_poison s, err], s'))"

definition bootstrapEnvelope :: "string \<Rightarrow> string \<Rightarrow> envelope" where
  "bootstrapEnvelope session producer =
     \<lparr> ev_Version = 2, ev_SessionID = session, ev_ProducerID = producer, ev_LastAllocatedBatchSeq = 0,
       ev_RetiredBatchFloor = 0, ev_LiveReservedThrough = 0, ev_Entries = [] \<rparr>"

text \<open>
  The part of \<open>OpenSession\<close> under the lock: what the file asks for, the retirement of another session's
  entries, and the new authority.
\<close>

definition openDecision :: "codec \<Rightarrow> queueEnv \<Rightarrow> queueFile \<Rightarrow> queueError + envelope option" where
  "openDecision cd env file =
     (case qe_read env of
        Some err \<Rightarrow> Inl err
      | None \<Rightarrow>
          (case file of
             FileMissing \<Rightarrow> Inr None
           | FileLegacy n \<Rightarrow> if n \<noteq> 0 then Inl ErrLegacyQueueNotDrained else Inr None
           | _ \<Rightarrow> (case decodeEnvelope cd file of Inl err \<Rightarrow> Inl err | Inr st \<Rightarrow> Inr (Some st))))"

definition bootstrap :: "codec \<Rightarrow> queueEnv \<Rightarrow> string \<Rightarrow> FileStore \<Rightarrow> queueError option \<times> FileStore" where
  "bootstrap cd env session s =
     (case qe_newRandom env of
        Inl err \<Rightarrow> (Some err, s)
      | Inr producer \<Rightarrow> writeEnvelope cd env 1 (bootstrapEnvelope session producer) s)"

definition openLocked :: "codec \<Rightarrow> queueEnv \<Rightarrow> string \<Rightarrow> FileStore \<Rightarrow> queueError option \<times> FileStore" where
  "openLocked cd env session s =
     (case openDecision cd env (fs_file s) of
        Inl err \<Rightarrow> (Some err, s)
      | Inr None \<Rightarrow> bootstrap cd env session s
      | Inr (Some st) \<Rightarrow>
          if ev_SessionID st = session then (None, s)
          else (case writeEnvelope cd env 0
                  (st\<lparr> ev_Entries := [], ev_RetiredBatchFloor := ev_LastAllocatedBatchSeq st \<rparr>) s of
                  (Some err, s') \<Rightarrow> (Some err, s')
                | (None, s') \<Rightarrow> bootstrap cd env session s'))"

definition OpenSession :: "codec \<Rightarrow> queueEnv \<Rightarrow> string \<Rightarrow> FileStore \<Rightarrow> queueError option \<times> FileStore" where
  "OpenSession cd env session s =
     (case firstError [fs_poison s, qe_ctxReady env] of
        Some err \<Rightarrow> (Some err, s)
      | None \<Rightarrow>
          if session = [] then (Some (QueueError ''sync queue session is required''), s)
          else if fs_lock s then
            if session = fs_session s
            then ((case readEnvelope cd env s of Inl err \<Rightarrow> Some err | Inr _ \<Rightarrow> None), s)
            else (Some (QueueError ''close sync queue before changing session''), s)
          else case firstError [qe_dir env, qe_openLock env, qe_chmodLock env, qe_flock env] of
            Some err \<Rightarrow> (Some err, s)
          | None \<Rightarrow>
              (case openLocked cd env session (s\<lparr> fs_lock := True \<rparr>) of
                 (Some err, s') \<Rightarrow> (Some err, snd (releaseLock env s'))
               | (None, s') \<Rightarrow> (None, s'\<lparr> fs_session := session \<rparr>)))"

definition readReady :: "codec \<Rightarrow> queueEnv \<Rightarrow> FileStore \<Rightarrow> queueError + envelope" where
  "readReady cd env s = (case ready env s of Some err \<Rightarrow> Inl err | None \<Rightarrow> readEnvelope cd env s)"

definition ReplayState_get :: "codec \<Rightarrow> queueEnv \<Rightarrow> FileStore \<Rightarrow> queueError + ReplayState" where
  "ReplayState_get cd env s =
     (case readReady cd env s of
        Inl err \<Rightarrow> Inl err
      | Inr st \<Rightarrow>
          (case qe_ctxResult env of
             Some err \<Rightarrow> Inl err
           | None \<Rightarrow> Inr \<lparr> rs_SessionID = ev_SessionID st, rs_ProducerID = ev_ProducerID st,
               rs_AllocatedThrough = ev_LastAllocatedBatchSeq st, rs_RetiredThrough = ev_RetiredBatchFloor st \<rparr>))"

definition List_entries :: "codec \<Rightarrow> queueEnv \<Rightarrow> FileStore \<Rightarrow> queueError + Entry list" where
  "List_entries cd env s =
     (case readReady cd env s of
        Inl err \<Rightarrow> Inl err
      | Inr st \<Rightarrow> (case qe_ctxResult env of Some err \<Rightarrow> Inl err | None \<Rightarrow> Inr (ev_Entries st)))"

definition ReserveLiveSequences ::
    "codec \<Rightarrow> queueEnv \<Rightarrow> int \<Rightarrow> FileStore \<Rightarrow> (queueError + int \<times> int) \<times> FileStore" where
  "ReserveLiveSequences cd env requested s =
     (case ready env s of
        Some err \<Rightarrow> (Inl err, s)
      | None \<Rightarrow>
          if requested \<noteq> LiveSequenceReservation
          then (Inl (QueueError ''live sequence reservation must contain 1024 sequences''), s)
          else case readEnvelope cd env s of
            Inl err \<Rightarrow> (Inl err, s)
          | Inr st \<Rightarrow>
              if ev_LiveReservedThrough st > maxInt64 - requested then (Inl (QueueError ''live sequence overflow''), s)
              else
                let first = ev_LiveReservedThrough st + 1;
                    st = st\<lparr> ev_LiveReservedThrough := ev_LiveReservedThrough st + requested \<rparr>
                in case writeEnvelope cd env 0 st s of
                     (Some err, s') \<Rightarrow> (Inl err, s')
                   | (None, s') \<Rightarrow> (Inr (first, ev_LiveReservedThrough st), s'))"

definition setBatchIdentity :: "string \<Rightarrow> SyncRequest \<Rightarrow> SyncRequest" where
  "setBatchIdentity bid r = r\<lparr>
     sr_Heartbeats := map (\<lambda>fact. fact\<lparr> hb_SyncBatchID := bid \<rparr>) (sr_Heartbeats r),
     sr_HostSamples := map (\<lambda>fact. fact\<lparr> hp_SyncBatchID := bid \<rparr>) (sr_HostSamples r),
     sr_ProbeObservations := map (\<lambda>fact. fact\<lparr> pp_SyncBatchID := bid \<rparr>) (sr_ProbeObservations r),
     sr_IPQualityReports := map (\<lambda>fact. fact\<lparr> iq_SyncBatchID := bid \<rparr>) (sr_IPQualityReports r) \<rparr>"

definition newEntry :: "queueEnv \<Rightarrow> SyncRequest \<Rightarrow> envelope \<Rightarrow> Entry" where
  "newEntry env request st =
     (let seq = ev_LastAllocatedBatchSeq st + 1;
          bid = batchIdentity (ev_ProducerID st) seq;
          request = setBatchIdentity bid (request\<lparr> sr_LiveSignal := None, sr_ProtocolRevision := SyncProtocolRevision,
            sr_ProducerID := ev_ProducerID st, sr_BatchSequence := seq, sr_AllocatedThrough := seq,
            sr_RetiredThrough := ev_RetiredBatchFloor st \<rparr>);
          createdAt = (if ev_Entries st \<noteq> [] \<and> \<not> time_After (qe_now env) (en_CreatedAt (last (ev_Entries st)))
            then en_CreatedAt (last (ev_Entries st)) + 1 else qe_now env)
      in \<lparr> en_ID = bid, en_CreatedAt = createdAt, en_Attempts = 0, en_Request = request \<rparr>)"

definition Enqueue ::
    "codec \<Rightarrow> queueEnv \<Rightarrow> SyncRequest \<Rightarrow> FileStore \<Rightarrow> (queueError + string) \<times> FileStore" where
  "Enqueue cd env request s =
     (case readReady cd env s of
        Inl err \<Rightarrow> (Inl err, s)
      | Inr st \<Rightarrow>
          if sr_SessionID request \<noteq> ev_SessionID st
          then (Inl (QueueError ''sync queue request session mismatch''), s)
          else if ev_LastAllocatedBatchSeq st = maxInt64 then (Inl (QueueError ''batch sequence overflow''), s)
          else
            let entry = newEntry env request st;
                st = st\<lparr> ev_LastAllocatedBatchSeq := ev_LastAllocatedBatchSeq st + 1, ev_Entries := ev_Entries st @ [entry] \<rparr>
            in case pruneEnvelope cd env (fs_opts s) st of
                 Inl err \<Rightarrow> (Inl err, s)
               | Inr st \<Rightarrow>
                   if ev_Entries st = [] \<or> en_ID (last (ev_Entries st)) \<noteq> en_ID entry
                   then (Inl errEntryExceedsCapacity, s)
                   else case writeEnvelope cd env 0 st s of
                     (Some err, s') \<Rightarrow> (Inl err, s')
                   | (None, s') \<Rightarrow> (Inr (en_ID entry), s'))"

definition mutate ::
    "codec \<Rightarrow> queueEnv \<Rightarrow> (envelope \<Rightarrow> queueError + envelope) \<Rightarrow> FileStore \<Rightarrow> queueError option \<times> FileStore" where
  "mutate cd env mutation s =
     (case readReady cd env s of
        Inl err \<Rightarrow> (Some err, s)
      | Inr st \<Rightarrow> (case mutation st of Inl err \<Rightarrow> (Some err, s) | Inr st' \<Rightarrow> writeEnvelope cd env 0 st' s))"

definition deleteEntries :: "string list \<Rightarrow> envelope \<Rightarrow> queueError + envelope" where
  "deleteEntries ids st =
     Inr (advanceFloor (st\<lparr> ev_Entries := filter (\<lambda>entry. en_ID entry \<notin> set ids) (ev_Entries st) \<rparr>))"

definition DeleteMany :: "codec \<Rightarrow> queueEnv \<Rightarrow> string list \<Rightarrow> FileStore \<Rightarrow> queueError option \<times> FileStore" where
  "DeleteMany cd env ids s = mutate cd env (deleteEntries ids) s"

definition Delete :: "codec \<Rightarrow> queueEnv \<Rightarrow> string \<Rightarrow> FileStore \<Rightarrow> queueError option \<times> FileStore" where
  "Delete cd env bid s = DeleteMany cd env [bid] s"

fun markLoop :: "string \<Rightarrow> Entry list \<Rightarrow> queueError + Entry list" where
  "markLoop bid [] = Inr []"
| "markLoop bid (entry # entries) =
     (if en_ID entry = bid
      then if en_Attempts entry = maxInt64 then Inl (QueueError ''sync queue attempt count overflow'')
        else Inr (entry\<lparr> en_Attempts := en_Attempts entry + 1 \<rparr> # entries)
      else case markLoop bid entries of Inl err \<Rightarrow> Inl err | Inr rest \<Rightarrow> Inr (entry # rest))"

definition markEntry :: "string \<Rightarrow> envelope \<Rightarrow> queueError + envelope" where
  "markEntry bid st =
     (case markLoop bid (ev_Entries st) of Inl err \<Rightarrow> Inl err | Inr entries \<Rightarrow> Inr (st\<lparr> ev_Entries := entries \<rparr>))"

definition MarkAttempt :: "codec \<Rightarrow> queueEnv \<Rightarrow> string \<Rightarrow> FileStore \<Rightarrow> queueError option \<times> FileStore" where
  "MarkAttempt cd env bid s = mutate cd env (markEntry bid) s"

definition Prune :: "codec \<Rightarrow> queueEnv \<Rightarrow> FileStore \<Rightarrow> queueError option \<times> FileStore" where
  "Prune cd env s = mutate cd env (pruneEnvelope cd env (fs_opts s)) s"

definition WithBackfilledFacts :: "SyncRequest \<Rightarrow> bool \<Rightarrow> SyncRequest" where
  "WithBackfilledFacts r backfilled = r\<lparr> sr_LiveSignal := None,
     sr_Heartbeats := map (\<lambda>fact. fact\<lparr> hb_IsBackfilled := backfilled \<rparr>) (sr_Heartbeats r),
     sr_HostSamples := map (\<lambda>fact. fact\<lparr> hp_IsBackfilled := backfilled \<rparr>) (sr_HostSamples r),
     sr_ProbeObservations := map (\<lambda>fact. fact\<lparr> pp_IsBackfilled := backfilled \<rparr>) (sr_ProbeObservations r),
     sr_IPQualityReports := map (\<lambda>fact. fact\<lparr> iq_IsBackfilled := backfilled \<rparr>) (sr_IPQualityReports r) \<rparr>"

section \<open>Valid envelopes\<close>

text \<open>The checks of the decoder, stated of all entries at once.\<close>

definition entry_ok :: "envelope \<Rightarrow> Entry \<Rightarrow> bool" where
  "entry_ok st e \<longleftrightarrow>
     (let r = en_Request e in
      sr_ProtocolRevision r = SyncProtocolRevision \<and> sr_SessionID r = ev_SessionID st \<and>
      sr_ProducerID r = ev_ProducerID st \<and>
      sr_BatchSequence r \<le> sr_AllocatedThrough r \<and> sr_AllocatedThrough r \<le> ev_LastAllocatedBatchSeq st \<and>
      0 \<le> sr_RetiredThrough r \<and> sr_RetiredThrough r < sr_BatchSequence r \<and>
      sr_RetiredThrough r \<le> ev_RetiredBatchFloor st \<and> sr_LiveSignal r = None \<and>
      en_ID e = batchIdentity (ev_ProducerID st) (sr_BatchSequence r) \<and> \<not> IsZero (en_CreatedAt e) \<and> 0 \<le> en_Attempts e \<and>
      batchIdentityMatches r (batchIdentity (ev_ProducerID st) (sr_BatchSequence r)))"

abbreviation seq_of :: "Entry \<Rightarrow> int" where "seq_of e \<equiv> sr_BatchSequence (en_Request e)"

definition entry_before :: "Entry \<Rightarrow> Entry \<Rightarrow> bool" where
  "entry_before a b \<longleftrightarrow> seq_of a < seq_of b \<and> en_CreatedAt a < en_CreatedAt b"

lemma entry_before_trans: "entry_before a b \<Longrightarrow> entry_before b c \<Longrightarrow> entry_before a c"
  by (auto simp: entry_before_def)

definition envelope_ok :: "codec \<Rightarrow> envelope \<Rightarrow> bool" where
  "envelope_ok cd st \<longleftrightarrow> validReplayBounds cd st \<and> list_all (entry_ok st) (ev_Entries st) \<and>
     list_all (\<lambda>e. ev_RetiredBatchFloor st < seq_of e) (ev_Entries st) \<and>
     sorted_wrt entry_before (ev_Entries st) \<and> ev_RetiredBatchFloor st = expectedFloor st"

lemma decodeEntries_None:
  "decodeEntries st p t es = None \<longleftrightarrow>
     list_all (entry_ok st) es \<and> list_all (\<lambda>e. p < seq_of e) es \<and>
     (IsZero t \<or> list_all (\<lambda>e. t < en_CreatedAt e) es) \<and> sorted_wrt entry_before es"
proof (induction es arbitrary: p t)
  case (Cons e es)
  have e: "\<not> entryInvalid st p t e \<and> batchIdentityMatches (en_Request e) (batchIdentity (ev_ProducerID st) (seq_of e)) \<longleftrightarrow>
      entry_ok st e \<and> p < seq_of e \<and> (IsZero t \<or> t < en_CreatedAt e)"
    by (auto simp: entryInvalid_def entry_ok_def Let_def time_After_def)
  have after: "list_all (entry_before e) es \<longleftrightarrow> list_all (\<lambda>x. seq_of e < seq_of x) es \<and> list_all (\<lambda>x. en_CreatedAt e < en_CreatedAt x) es"
    by (auto simp: list_all_iff entry_before_def)
  have z: "entry_ok st e \<Longrightarrow> \<not> IsZero (en_CreatedAt e)" by (simp add: entry_ok_def Let_def)
  have mono: "list_all (\<lambda>x. seq_of e < seq_of x) es \<Longrightarrow> p < seq_of e \<Longrightarrow> list_all (\<lambda>x. p < seq_of x) es"
    "list_all (\<lambda>x. en_CreatedAt e < en_CreatedAt x) es \<Longrightarrow> t < en_CreatedAt e \<Longrightarrow> list_all (\<lambda>x. t < en_CreatedAt x) es"
    by (auto simp: list_all_iff)
  have "decodeEntries st p t (e # es) = None \<longleftrightarrow>
      (\<not> entryInvalid st p t e \<and> batchIdentityMatches (en_Request e) (batchIdentity (ev_ProducerID st) (seq_of e))) \<and>
      decodeEntries st (seq_of e) (en_CreatedAt e) es = None" by simp
  also have "\<dots> \<longleftrightarrow> entry_ok st e \<and> p < seq_of e \<and> (IsZero t \<or> t < en_CreatedAt e) \<and> list_all (entry_ok st) es \<and>
      list_all (entry_before e) es \<and> sorted_wrt entry_before es"
    unfolding e Cons.IH after using z by blast
  finally have step: "decodeEntries st p t (e # es) = None \<longleftrightarrow> entry_ok st e \<and> p < seq_of e \<and> (IsZero t \<or> t < en_CreatedAt e) \<and>
      list_all (entry_ok st) es \<and> list_all (entry_before e) es \<and> sorted_wrt entry_before es" .
  have before: "(\<forall>x \<in> set es. entry_before e x) \<longleftrightarrow> list_all (entry_before e) es" by (simp add: list_all_iff)
  have "list_all (entry_before e) es \<Longrightarrow> p < seq_of e \<Longrightarrow> list_all (\<lambda>x. p < seq_of x) es"
    "list_all (entry_before e) es \<Longrightarrow> t < en_CreatedAt e \<Longrightarrow> list_all (\<lambda>x. t < en_CreatedAt x) es"
    using mono after by blast+
  thus ?case unfolding step list.pred_inject sorted_wrt.simps before by blast
qed simp

lemma checkEnvelope_None: "checkEnvelope cd st = None \<longleftrightarrow> envelope_ok cd st"
proof -
  have "decodeEntries st (ev_RetiredBatchFloor st) zeroTime (ev_Entries st) = None \<longleftrightarrow>
      list_all (entry_ok st) (ev_Entries st) \<and> list_all (\<lambda>e. ev_RetiredBatchFloor st < seq_of e) (ev_Entries st) \<and>
      sorted_wrt entry_before (ev_Entries st)"
    unfolding decodeEntries_None by (simp add: IsZero_def)
  thus ?thesis
    unfolding checkEnvelope_def envelope_ok_def
    by (cases "decodeEntries st (ev_RetiredBatchFloor st) zeroTime (ev_Entries st)") auto
qed

text \<open>
  JSON that the decoder reads back: no key twice in an object, every number a \<open>float64\<close>, and not nested
  too deeply.
\<close>

definition json_readable :: "nat \<times> json \<Rightarrow> bool" where
  "json_readable part \<longleftrightarrow> rejectDuplicateKeys (snd part) = None \<and> fst part + jsonDepth (snd part) \<le> maxNestingDepth"

definition request_readable :: "SyncRequest \<Rightarrow> bool" where
  "request_readable r \<longleftrightarrow> list_all json_readable (requestJSON r)"

definition envelope_readable :: "envelope \<Rightarrow> bool" where
  "envelope_readable st \<longleftrightarrow> list_all (\<lambda>e. request_readable (en_Request e)) (ev_Entries st)"

lemma envelope_readable_subset:
  assumes "envelope_readable st" and "set (ev_Entries st') \<subseteq> set (ev_Entries st)"
  shows "envelope_readable st'"
  using assms unfolding envelope_readable_def list_all_iff by blast

lemma envelope_readable_iff:
  "envelope_readable st \<longleftrightarrow>
     \<not> list_ex (\<lambda>(around, value). rejectDuplicateKeys value \<noteq> None) (envelopeJSON st) \<and>
     \<not> list_ex (\<lambda>(around, value). around + jsonDepth value > maxNestingDepth) (envelopeJSON st)"
proof -
  have "envelope_readable st \<longleftrightarrow> (\<forall>part \<in> set (envelopeJSON st). json_readable part)"
    by (auto simp: envelope_readable_def request_readable_def envelopeJSON_def list_all_iff)
  thus ?thesis by (force simp: json_readable_def list_ex_iff not_less)
qed

lemma decodeEnvelope_Inr:
  "decodeEnvelope cd file = Inr st \<longleftrightarrow> file = FileEnvelope st \<and> envelope_ok cd st \<and> envelope_readable st"
proof (cases "file")
  case (FileEnvelope st')
  show ?thesis
    unfolding FileEnvelope decodeEnvelope_def queueFile.case queueFile.inject envelope_readable_iff checkEnvelope_None [symmetric]
    by (auto split: option.splits if_splits)
qed (simp_all add: decodeEnvelope_def)

lemma readEnvelope_Inr:
  "readEnvelope cd env s = Inr st \<Longrightarrow> fs_file s = FileEnvelope st \<and> envelope_ok cd st \<and> envelope_readable st"
  by (auto simp: readEnvelope_def decodeEnvelope_Inr split: option.splits if_splits sum.splits)

lemma readReady_Inr:
  "readReady cd env s = Inr st \<Longrightarrow>
     fs_file s = FileEnvelope st \<and> envelope_ok cd st \<and> envelope_readable st \<and> fs_poison s = None \<and> fs_lock s"
  using readEnvelope_Inr by (fastforce simp: readReady_def ready_def split: option.splits if_splits)

subsection \<open>Removing entries\<close>

text \<open>
  Dropping entries and advancing the floor keeps an envelope valid.  The floor of the result is that of
  its first entry, and it never goes back.
\<close>

lemma entry_ok_floor:
  "entry_ok st e \<Longrightarrow> ev_RetiredBatchFloor st \<le> f \<Longrightarrow> entry_ok (st\<lparr> ev_RetiredBatchFloor := f \<rparr>) e"
  "entry_ok (st\<lparr> ev_Entries := es \<rparr>) e = entry_ok st e"
  by (auto simp: entry_ok_def Let_def)

lemma advanceFloor_cases:
  assumes "validReplayBounds cd st" and "list_all (\<lambda>e. ev_RetiredBatchFloor st < seq_of e) (ev_Entries st)"
  shows "advanceFloor st = st\<lparr> ev_RetiredBatchFloor := expectedFloor st \<rparr> \<and> ev_RetiredBatchFloor st \<le> expectedFloor st"
proof (cases "ev_Entries st")
  case Nil
  thus ?thesis using assms(1)
    by (cases "ev_LastAllocatedBatchSeq st = ev_RetiredBatchFloor st")
      (auto simp: advanceFloor_def expectedFloor_def validReplayBounds_def intro!: envelope.equality)
next
  case (Cons e es)
  thus ?thesis using assms(2)
    by (cases "seq_of e - 1 = ev_RetiredBatchFloor st")
      (auto simp: advanceFloor_def expectedFloor_def intro!: envelope.equality)
qed

definition part_ok :: "codec \<Rightarrow> envelope \<Rightarrow> bool" where
  "part_ok cd st \<longleftrightarrow> validReplayBounds cd st \<and> list_all (entry_ok st) (ev_Entries st) \<and>
     list_all (\<lambda>e. ev_RetiredBatchFloor st < seq_of e) (ev_Entries st) \<and> sorted_wrt entry_before (ev_Entries st)"

lemma envelope_part: "envelope_ok cd st \<Longrightarrow> part_ok cd st"
  unfolding envelope_ok_def part_ok_def by blast

lemma sorted_wrt_subseq_entries: "subseq es es' \<Longrightarrow> sorted_wrt R es' \<Longrightarrow> sorted_wrt R es"
proof (induction rule: list_emb.induct)
  case (list_emb_Cons2 x y xs ys)
  thus ?case using list_emb_set [OF list_emb_Cons2.hyps(2)] by fastforce
qed simp_all

lemma part_ok_entries:
  assumes "part_ok cd st" and "subseq es (ev_Entries st)"
  shows "part_ok cd (st\<lparr> ev_Entries := es \<rparr>)"
proof -
  have sub: "e \<in> set (ev_Entries st)" if "e \<in> set es" for e
    using list_emb_set [OF assms(2) that] by blast
  have v: "validReplayBounds cd (st\<lparr> ev_Entries := es \<rparr>) = validReplayBounds cd st" by (simp add: validReplayBounds_def)
  have "sorted_wrt entry_before es"
    using assms by (auto simp: part_ok_def intro: sorted_wrt_subseq_entries)
  thus ?thesis
    using assms(1) sub unfolding part_ok_def v list_all_iff entry_ok_floor(2) by simp
qed

lemma advanceFloor_ok:
  assumes "part_ok cd st"
  shows "envelope_ok cd (advanceFloor st)" and "ev_RetiredBatchFloor st \<le> ev_RetiredBatchFloor (advanceFloor st)"
proof -
  have a: "advanceFloor st = st\<lparr> ev_RetiredBatchFloor := expectedFloor st \<rparr>" "ev_RetiredBatchFloor st \<le> expectedFloor st"
    using advanceFloor_cases assms unfolding part_ok_def by blast+
  have last: "expectedFloor st \<le> ev_LastAllocatedBatchSeq st"
    using assms by (cases "ev_Entries st") (auto simp: expectedFloor_def part_ok_def entry_ok_def Let_def validReplayBounds_def)
  have first: "expectedFloor st < seq_of e" if "e \<in> set (ev_Entries st)" for e
    using assms that by (cases "ev_Entries st") (auto simp: expectedFloor_def part_ok_def entry_before_def)
  have f: "expectedFloor (st\<lparr> ev_RetiredBatchFloor := x \<rparr>) = expectedFloor st" for x
    by (simp add: expectedFloor_def split: list.split)
  have "validReplayBounds cd (st\<lparr> ev_RetiredBatchFloor := expectedFloor st \<rparr>)"
    using assms a(2) last by (auto simp: part_ok_def validReplayBounds_def)
  thus "envelope_ok cd (advanceFloor st)"
    using assms first entry_ok_floor(1) [OF _ a(2)] unfolding a(1) envelope_ok_def part_ok_def list_all_iff f by simp
  show "ev_RetiredBatchFloor st \<le> ev_RetiredBatchFloor (advanceFloor st)" using a by simp
qed

subsection \<open>Pruning\<close>

definition trimmed :: "codec \<Rightarrow> envelope \<Rightarrow> envelope \<Rightarrow> bool" where
  "trimmed cd st st' \<longleftrightarrow> envelope_ok cd st' \<and>
     (\<exists>k f. ev_RetiredBatchFloor st \<le> f \<and> st' = st\<lparr> ev_Entries := drop k (ev_Entries st), ev_RetiredBatchFloor := f \<rparr>)"

lemma subseq_tl: "subseq (tl xs) xs"
  by (cases xs) auto

lemma subseq_drop_entries: "subseq (drop k xs) xs"
  by (meson suffix_drop suffix_imp_subseq)

lemma advanceFloor_update:
  "\<exists>f. ev_RetiredBatchFloor st \<le> f \<and> advanceFloor st = st\<lparr> ev_RetiredBatchFloor := f \<rparr>"
proof (cases "advanceFloor st = st")
  case True
  thus ?thesis by (intro exI [of _ "ev_RetiredBatchFloor st"]) simp
next
  case False
  hence "advanceFloor st = st\<lparr> ev_RetiredBatchFloor := expectedFloor st \<rparr> \<and> ev_RetiredBatchFloor st < expectedFloor st"
    unfolding advanceFloor_def expectedFloor_def [symmetric] Let_def by (simp split: if_splits)
  thus ?thesis by (intro exI [of _ "expectedFloor st"]) simp
qed

lemma advanceFloor_entries_again:
  assumes "part_ok cd st" and "subseq es (ev_Entries st)"
  shows "advanceFloor ((advanceFloor st)\<lparr> ev_Entries := es \<rparr>) = advanceFloor (st\<lparr> ev_Entries := es \<rparr>)"
proof -
  have exact: "advanceFloor x = x\<lparr> ev_RetiredBatchFloor := expectedFloor x \<rparr>" if "part_ok cd x" for x
    using advanceFloor_cases that unfolding part_ok_def by blast
  have "part_ok cd ((advanceFloor st)\<lparr> ev_Entries := es \<rparr>)"
    using part_ok_entries [OF envelope_part [OF advanceFloor_ok(1) [OF assms(1)]]] assms(2) by simp
  moreover have "expectedFloor ((advanceFloor st)\<lparr> ev_Entries := es \<rparr>) = expectedFloor (st\<lparr> ev_Entries := es \<rparr>)"
    by (simp add: exact [OF assms(1)] expectedFloor_def split: list.split)
  ultimately show ?thesis
    by (simp add: exact part_ok_entries [OF assms] exact [OF assms(1)])
qed

text \<open>
  The loop drops the fewest oldest entries that make the rest fit, and leaves the floor below the rest.
\<close>

lemma pruneLoop_exact:
  assumes "part_ok cd st" and "sizes = map (cd_entrySize cd) (ev_Entries st)" and "bytes = sum_list sizes"
    and "pruneLoop cd maxBytes sizes bytes st = Inr st'"
  shows "\<exists>k. st' = advanceFloor (st\<lparr> ev_Entries := drop k (ev_Entries st) \<rparr>) \<and> envelopeSize cd st' \<le> maxBytes \<and>
    (\<forall>j < k. maxBytes < envelopeSize cd (advanceFloor (st\<lparr> ev_Entries := drop j (ev_Entries st) \<rparr>)))"
  using assms
proof (induction cd maxBytes sizes bytes st rule: pruneLoop.induct)
  case (1 cd maxBytes sizes bytes st)
  define a where "a = advanceFloor st"
  have ok: "part_ok cd a" unfolding a_def by (rule envelope_part [OF advanceFloor_ok(1) [OF "1.prems"(1)]])
  have es: "ev_Entries a = ev_Entries st" by (simp add: a_def)
  let ?fits = "cd_metadataSize cd (a\<lparr> ev_Entries := [] \<rparr>) + bytes + max 0 (int (length (ev_Entries a)) - 1) \<le> maxBytes"
  have size: "?fits \<longleftrightarrow> envelopeSize cd a \<le> maxBytes"
    using "1.prems"(2,3) unfolding envelopeSize_def es by simp
  note unf = pruneLoop.simps [of cd maxBytes sizes bytes st, folded a_def, unfolded Let_def]
  show ?case
  proof (cases ?fits)
    case True
    hence "st' = a" using "1.prems"(4) unf by simp
    thus ?thesis using True size by (intro exI [of _ 0]) (simp add: a_def)
  next
    case False
    have ne: "ev_Entries a \<noteq> []" using "1.prems"(4) False unf by (auto split: if_splits)
    let ?t = "a\<lparr> ev_Entries := tl (ev_Entries a) \<rparr>"
    have "part_ok cd ?t" by (rule part_ok_entries [OF ok subseq_tl])
    moreover have "tl sizes = map (cd_entrySize cd) (ev_Entries ?t)" using "1.prems"(2) by (simp add: es map_tl)
    moreover have "bytes - hd sizes = sum_list (tl sizes)"
      using "1.prems"(2,3) ne es by (cases "ev_Entries st") auto
    moreover have "pruneLoop cd maxBytes (tl sizes) (bytes - hd sizes) ?t = Inr st'"
      using "1.prems"(4) unf False ne by simp
    ultimately obtain k where k: "st' = advanceFloor (?t\<lparr> ev_Entries := drop k (ev_Entries ?t) \<rparr>)"
      "envelopeSize cd st' \<le> maxBytes"
      "\<forall>j < k. maxBytes < envelopeSize cd (advanceFloor (?t\<lparr> ev_Entries := drop j (ev_Entries ?t) \<rparr>))"
      using "1.IH" [OF a_def refl refl] False ne by auto
    have step: "advanceFloor (?t\<lparr> ev_Entries := drop j (ev_Entries ?t) \<rparr>) =
        advanceFloor (st\<lparr> ev_Entries := drop (Suc j) (ev_Entries st) \<rparr>)" for j
      using advanceFloor_entries_again [OF "1.prems"(1) subseq_drop_entries, of "Suc j"]
      by (simp add: a_def drop_Suc)
    have "maxBytes < envelopeSize cd (advanceFloor (st\<lparr> ev_Entries := drop j (ev_Entries st) \<rparr>))" if "j < Suc k" for j
    proof (cases j)
      case 0
      thus ?thesis using False size by (simp add: a_def)
    next
      case (Suc i)
      thus ?thesis using k(3) that unfolding step by simp
    qed
    thus ?thesis using k(1,2) unfolding step by (intro exI [of _ "Suc k"]) blast
  qed
qed

text \<open>The limits of a queue: the age of its entries, their number and their length in bytes.\<close>

definition within_limits :: "codec \<Rightarrow> Options \<Rightarrow> time \<Rightarrow> envelope \<Rightarrow> bool" where
  "within_limits cd opts now st \<longleftrightarrow>
     list_all (\<lambda>e. now - op_MaxAge opts \<le> en_CreatedAt e) (ev_Entries st) \<and>
     int (length (ev_Entries st)) \<le> op_MaxEntries opts \<and> envelopeSize cd st \<le> op_MaxBytes opts"

lemma dropWhile_old:
  assumes "sorted_wrt entry_before es"
  shows "list_all (\<lambda>e. t \<le> en_CreatedAt e) (dropWhile (\<lambda>e. time_Before (en_CreatedAt e) t) es)"
  using assms
proof (induction es)
  case (Cons e es)
  have "t \<le> en_CreatedAt x" if "t \<le> en_CreatedAt e" "x \<in> set es" for x
    using Cons.prems that by (force simp: entry_before_def)
  hence "list_all (\<lambda>x. t \<le> en_CreatedAt x) es" if "t \<le> en_CreatedAt e" using that by (simp add: list_all_iff)
  moreover have "list_all (\<lambda>x. t \<le> en_CreatedAt x) (dropWhile (\<lambda>x. time_Before (en_CreatedAt x) t) es)"
    using Cons.IH Cons.prems by simp
  ultimately show ?case by (cases "t \<le> en_CreatedAt e") (simp_all add: time_Before_def not_le)
qed simp

lemma pruneEnvelope_exact:
  assumes "part_ok cd st" and "pruneEnvelope cd env opts st = Inr st'" and "0 \<le> op_MaxEntries opts"
  shows "\<exists>k. st' = advanceFloor (st\<lparr> ev_Entries := drop k (ev_Entries st) \<rparr>) \<and>
    within_limits cd opts (qe_pruneNow env) st' \<and>
    (\<forall>j < k. \<not> within_limits cd opts (qe_pruneNow env) (advanceFloor (st\<lparr> ev_Entries := drop j (ev_Entries st) \<rparr>)))"
proof -
  let ?all = "ev_Entries st" and ?t = "qe_pruneNow env - op_MaxAge opts"
  let ?old = "\<lambda>entry. time_Before (en_CreatedAt entry) ?t"
  define n where "n = length (takeWhile ?old ?all)"
  define f where "f = (if int (length ?all - n) > op_MaxEntries opts then length ?all - nat (op_MaxEntries opts) else n)"
  have young: "dropWhile ?old ?all = drop n ?all" unfolding n_def by (rule dropWhile_eq_drop)
  have "(if int (length (drop n ?all)) > op_MaxEntries opts then drop (length ?all - nat (op_MaxEntries opts)) ?all
      else drop n ?all) = drop f ?all" by (simp add: f_def)
  hence loop: "pruneLoop cd (op_MaxBytes opts) (map (cd_entrySize cd) (drop f ?all)) (sum_list (map (cd_entrySize cd) (drop f ?all)))
      (st\<lparr> ev_Entries := drop f ?all \<rparr>) = Inr st'"
    using assms(2) unfolding pruneEnvelope_def Let_def young by (auto split: option.splits)
  from pruneLoop_exact [OF part_ok_entries [OF assms(1) subseq_drop_entries] _ refl this]
  obtain k where k: "st' = advanceFloor (st\<lparr> ev_Entries := drop (k + f) ?all \<rparr>)" "envelopeSize cd st' \<le> op_MaxBytes opts"
    "\<forall>j < k. op_MaxBytes opts < envelopeSize cd (advanceFloor (st\<lparr> ev_Entries := drop (j + f) ?all \<rparr>))" by auto
  have nf: "n \<le> f" "int (length (drop f ?all)) \<le> op_MaxEntries opts"
    using assms(3) by (auto simp: f_def)
  have "list_all (\<lambda>e. ?t \<le> en_CreatedAt e) (drop n ?all)"
    using dropWhile_old [of ?all ?t] assms(1) unfolding young part_ok_def by blast
  moreover have "set (drop (k + f) ?all) \<subseteq> set (drop n ?all)" using nf(1) by (intro set_drop_subset_set_drop) simp
  moreover have "length (drop (k + f) ?all) \<le> length (drop f ?all)" by simp
  ultimately have "within_limits cd opts (qe_pruneNow env) st'"
    using k(2) nf(2) unfolding within_limits_def k(1) by (auto simp: list_all_iff)
  moreover have "\<not> within_limits cd opts (qe_pruneNow env) (advanceFloor (st\<lparr> ev_Entries := drop j ?all \<rparr>))" if "j < k + f" for j
  proof (cases "j < f")
    case True
    show ?thesis
    proof (cases "f = n")
      case True
      hence j: "j < length (takeWhile ?old ?all)" using \<open>j < f\<close> by (simp add: n_def)
      hence old: "?old (?all ! j)" by (metis nth_mem set_takeWhileD takeWhile_nth)
      have "j < length ?all" using j length_takeWhile_le [of ?old ?all] by linarith
      hence mem: "drop j ?all = ?all ! j # drop (Suc j) ?all" by (rule Cons_nth_drop_Suc [symmetric])
      show ?thesis
      proof
        assume "within_limits cd opts (qe_pruneNow env) (advanceFloor (st\<lparr> ev_Entries := drop j ?all \<rparr>))"
        hence "?t \<le> en_CreatedAt (?all ! j)" unfolding within_limits_def by (simp add: mem)
        thus False using old by (simp add: time_Before_def)
      qed
    next
      case False
      hence "f = length ?all - nat (op_MaxEntries opts)" by (auto simp: f_def split: if_splits)
      hence "op_MaxEntries opts < int (length (drop j ?all))" using \<open>j < f\<close> assms(3) by simp
      thus ?thesis by (simp add: within_limits_def)
    qed
  next
    case False
    define i where "i = j - f"
    have "j = i + f" "i < k" using False that by (simp_all add: i_def)
    hence "op_MaxBytes opts < envelopeSize cd (advanceFloor (st\<lparr> ev_Entries := drop j ?all \<rparr>))" using k(3) by blast
    thus ?thesis by (simp add: within_limits_def)
  qed
  ultimately show ?thesis using k(1) by blast
qed

lemma pruneEnvelope_trimmed:
  assumes "part_ok cd st" and "pruneEnvelope cd env opts st = Inr st'"
  shows "trimmed cd st st'"
proof -
  define young where "young = dropWhile (\<lambda>entry. time_Before (en_CreatedAt entry) (qe_pruneNow env - op_MaxAge opts)) (ev_Entries st)"
  define es where "es = (if int (length young) > op_MaxEntries opts
      then drop (length (ev_Entries st) - nat (op_MaxEntries opts)) (ev_Entries st) else young)"
  have loop: "pruneLoop cd (op_MaxBytes opts) (map (cd_entrySize cd) es) (sum_list (map (cd_entrySize cd) es))
      (st\<lparr> ev_Entries := es \<rparr>) = Inr st'"
    using assms(2) unfolding pruneEnvelope_def Let_def young_def [symmetric] es_def [symmetric] by (auto split: option.splits)
  obtain i where i: "es = drop i (ev_Entries st)" unfolding es_def young_def using dropWhile_eq_drop by (metis (full_types))
  have "part_ok cd (st\<lparr> ev_Entries := es \<rparr>)" unfolding i by (rule part_ok_entries [OF assms(1) subseq_drop_entries])
  from pruneLoop_exact [OF this _ refl loop] obtain k
    where k: "st' = advanceFloor (st\<lparr> ev_Entries := drop (k + i) (ev_Entries st) \<rparr>)" by (auto simp: i)
  have "envelope_ok cd st'"
    unfolding k by (rule advanceFloor_ok(1) [OF part_ok_entries [OF assms(1) subseq_drop_entries]])
  moreover obtain f where "ev_RetiredBatchFloor st \<le> f"
    "st' = st\<lparr> ev_Entries := drop (k + i) (ev_Entries st), ev_RetiredBatchFloor := f \<rparr>"
    using advanceFloor_update [of "st\<lparr> ev_Entries := drop (k + i) (ev_Entries st) \<rparr>"] unfolding k by auto
  ultimately show ?thesis unfolding trimmed_def by blast
qed

subsection \<open>Appending\<close>

lemma setBatchIdentity_fields:
  "sr_ProtocolRevision (setBatchIdentity b r) = sr_ProtocolRevision r" "sr_SessionID (setBatchIdentity b r) = sr_SessionID r"
  "sr_ProducerID (setBatchIdentity b r) = sr_ProducerID r" "sr_BatchSequence (setBatchIdentity b r) = sr_BatchSequence r"
  "sr_AllocatedThrough (setBatchIdentity b r) = sr_AllocatedThrough r"
  "sr_RetiredThrough (setBatchIdentity b r) = sr_RetiredThrough r" "sr_LiveSignal (setBatchIdentity b r) = sr_LiveSignal r"
  "batchIdentityMatches (setBatchIdentity b r) b"
  by (simp_all add: setBatchIdentity_def batchIdentityMatches_def list_all_iff)

lemma newEntry_fields:
  "en_ID (newEntry env r st) = batchIdentity (ev_ProducerID st) (ev_LastAllocatedBatchSeq st + 1)"
  "seq_of (newEntry env r st) = ev_LastAllocatedBatchSeq st + 1"
  by (simp_all add: newEntry_def Let_def setBatchIdentity_fields)

lemma setBatchIdentity_JSON: "requestJSON (setBatchIdentity b r) = requestJSON r"
proof -
  have "reportJSON (report\<lparr> iq_SyncBatchID := b \<rparr>) = reportJSON report" for report by (simp add: reportJSON_def)
  thus ?thesis by (simp add: requestJSON_def setBatchIdentity_def comp_def)
qed

lemma newEntry_readable: "request_readable (en_Request (newEntry env r st)) \<longleftrightarrow> request_readable r"
proof -
  have "requestJSON (en_Request (newEntry env r st)) = requestJSON r"
    unfolding newEntry_def Let_def Entry.select_convs setBatchIdentity_JSON by (simp add: requestJSON_def)
  thus ?thesis by (simp add: request_readable_def)
qed

abbreviation appended :: "queueEnv \<Rightarrow> SyncRequest \<Rightarrow> envelope \<Rightarrow> envelope" where
  "appended env r st \<equiv> st\<lparr> ev_LastAllocatedBatchSeq := ev_LastAllocatedBatchSeq st + 1,
     ev_Entries := ev_Entries st @ [newEntry env r st] \<rparr>"

lemma newEntry_fresh:
  assumes "envelope_ok cd st"
  shows "en_ID (newEntry env r st) \<notin> en_ID ` set (ev_Entries st)"
proof
  assume "en_ID (newEntry env r st) \<in> en_ID ` set (ev_Entries st)"
  then obtain x where x: "x \<in> set (ev_Entries st)" "en_ID x = en_ID (newEntry env r st)" by auto
  have seq: "seq_of x \<le> ev_LastAllocatedBatchSeq st \<and> en_ID x = batchIdentity (ev_ProducerID st) (seq_of x)"
    using assms x(1) by (auto simp: envelope_ok_def list_all_iff entry_ok_def Let_def)
  hence "itoa (seq_of x) = itoa (ev_LastAllocatedBatchSeq st + 1)" using x(2) by (simp add: newEntry_fields batchIdentity_def)
  with itoa_inj seq show False by fastforce
qed

lemma appended_part_ok:
  assumes "envelope_ok cd st" and "sr_SessionID r = ev_SessionID st" and "0 < qe_now env"
  shows "part_ok cd (appended env r st)"
proof -
  let ?e = "newEntry env r st"
  have b: "0 \<le> ev_RetiredBatchFloor st" "ev_RetiredBatchFloor st \<le> ev_LastAllocatedBatchSeq st"
    "0 \<le> ev_LastAllocatedBatchSeq st"
    using assms(1) by (auto simp: envelope_ok_def validReplayBounds_def)
  have es: "entry_ok st x" "ev_RetiredBatchFloor st < seq_of x" "seq_of x \<le> ev_LastAllocatedBatchSeq st"
    if "x \<in> set (ev_Entries st)" for x
    using assms(1) that by (fastforce simp: envelope_ok_def list_all_iff entry_ok_def Let_def)+
  have created: "0 < en_CreatedAt ?e"
    using assms(3) by (auto simp: newEntry_def Let_def time_After_def)
  have after: "en_CreatedAt x < en_CreatedAt ?e" if "x \<in> set (ev_Entries st)" for x
  proof -
    have "x = last (ev_Entries st) \<or> entry_before x (last (ev_Entries st))"
    proof -
      have "ev_Entries st = butlast (ev_Entries st) @ [last (ev_Entries st)]" using that by (metis append_butlast_last_id length_pos_if_in_set length_0_conv less_irrefl)
      hence "sorted_wrt entry_before (butlast (ev_Entries st) @ [last (ev_Entries st)])" "x \<in> set (butlast (ev_Entries st) @ [last (ev_Entries st)])"
        using assms(1) that by (auto simp: envelope_ok_def)
      thus ?thesis by (auto simp: sorted_wrt_append)
    qed
    hence "en_CreatedAt x \<le> en_CreatedAt (last (ev_Entries st))" by (auto simp: entry_before_def)
    moreover have "en_CreatedAt (last (ev_Entries st)) < en_CreatedAt ?e"
      using that by (auto simp: newEntry_def Let_def time_After_def)
    ultimately show ?thesis by linarith
  qed
  have "entry_ok (appended env r st) ?e"
    using b assms(2) created newEntry_fields [of env r st]
    by (simp add: entry_ok_def Let_def IsZero_def zeroTime_def newEntry_def setBatchIdentity_fields)
  moreover have "entry_ok (appended env r st) x" if "x \<in> set (ev_Entries st)" for x
    using es(1) [OF that] by (simp add: entry_ok_def Let_def)
  moreover have "entry_before x ?e" if "x \<in> set (ev_Entries st)" for x
    using after [OF that] es(3) [OF that] by (simp add: entry_before_def newEntry_fields)
  moreover have "validReplayBounds cd (appended env r st)"
    using assms(1) b by (auto simp: envelope_ok_def validReplayBounds_def)
  ultimately show ?thesis
    using assms(1) b(2) es(2) by (auto simp: part_ok_def envelope_ok_def list_all_iff sorted_wrt_append newEntry_fields)
qed

section \<open>What an operation does to the file\<close>

text \<open>
  The authority over sequence numbers only advances: the batch counter, the retired floor and the live
  reservation never go back, and an entry with an old number is an old entry.
\<close>

definition advances :: "envelope \<Rightarrow> envelope \<Rightarrow> bool" where
  "advances st st' \<longleftrightarrow> ev_ProducerID st' = ev_ProducerID st \<and> ev_SessionID st' = ev_SessionID st \<and>
     ev_LastAllocatedBatchSeq st \<le> ev_LastAllocatedBatchSeq st' \<and> ev_RetiredBatchFloor st \<le> ev_RetiredBatchFloor st' \<and>
     ev_LiveReservedThrough st \<le> ev_LiveReservedThrough st' \<and>
     list_all (\<lambda>e. seq_of e \<le> ev_LastAllocatedBatchSeq st \<longrightarrow>
       (\<exists>d \<in> set (ev_Entries st). en_Request d = en_Request e \<and> en_ID d = en_ID e)) (ev_Entries st')"

lemma advances_refl: "advances st st"
  by (auto simp: advances_def list_all_iff)

lemma advances_trimmed: "trimmed cd st st' \<Longrightarrow> advances st st'"
  by (auto simp: trimmed_def advances_def list_all_iff) (blast dest: in_set_dropD)

lemma trimmed_readable: "trimmed cd st st' \<Longrightarrow> envelope_readable st \<Longrightarrow> envelope_readable st'"
  by (rule envelope_readable_subset) (auto simp: trimmed_def dest: in_set_dropD)

text \<open>
  The files after an operation: as before, or replaced by a valid envelope the operation allows.  When
  the visible file was durable, it still is, unless the store is poisoned or skips synchronisation.
\<close>

definition replaced :: "codec \<Rightarrow> (queueFile \<Rightarrow> envelope \<Rightarrow> bool) \<Rightarrow> FileStore \<Rightarrow> FileStore \<Rightarrow> bool" where
  "replaced cd allowed s s' \<longleftrightarrow> fs_opts s' = fs_opts s \<and>
     (fs_file s' = fs_file s \<or> (\<exists>st. envelope_ok cd st \<and> allowed (fs_file s) st \<and> fs_file s' = FileEnvelope st)) \<and>
     (fs_durable s' = fs_durable s \<or> (\<exists>st. envelope_ok cd st \<and> allowed (fs_file s) st \<and> fs_durable s' = FileEnvelope st)) \<and>
     (fs_durable s = fs_file s \<and> \<not> op_SkipFsync (fs_opts s) \<and> fs_poison s' = None \<longrightarrow> fs_durable s' = fs_file s')"

lemma writeEnvelope_cases:
  assumes "writeEnvelope cd env i st s = (err, s')"
  shows "fs_opts s' = fs_opts s \<and> fs_lock s' = fs_lock s \<and> fs_session s' = fs_session s \<and>
    (s' = s \<and> err \<noteq> None \<or>
     fs_file s' = FileEnvelope st \<and> envelopeSize cd st \<le> op_MaxBytes (fs_opts s) \<and>
     (err = None \<and> fs_poison s' = fs_poison s \<and>
        fs_durable s' = (if op_SkipFsync (fs_opts s) then fs_durable s else FileEnvelope st) \<or>
      err \<noteq> None \<and> fs_poison s' = err \<and> fs_durable s' = fs_durable s))"
  using assms unfolding writeEnvelope_def Let_def by (auto split: option.splits if_splits)

lemma write_replaced:
  assumes "envelope_ok cd st" and "allowed (fs_file s) st"
  shows "replaced cd allowed s (snd (writeEnvelope cd env i st s))"
proof -
  obtain err s' where w: "writeEnvelope cd env i st s = (err, s')" by fastforce
  from writeEnvelope_cases [OF w] show ?thesis
    unfolding w snd_conv replaced_def using assms by (auto split: if_splits)
qed

lemma replaced_refl: "replaced cd allowed s s"
  by (simp add: replaced_def)

text \<open>
  An envelope that continues the one in the file; when what the operation brings in can be read back, so
  can the envelope.
\<close>

definition continues :: "bool \<Rightarrow> queueFile \<Rightarrow> envelope \<Rightarrow> bool" where
  "continues readable file st' \<longleftrightarrow>
     (\<exists>st. file = FileEnvelope st \<and> advances st st') \<and> (readable \<longrightarrow> envelope_readable st')"

text \<open>The contract of the mutations that run inside \<open>mutate\<close>: they keep an envelope valid and only advance it.\<close>

locale queue_mutation =
  fixes cd :: codec and mutation :: "envelope \<Rightarrow> queueError + envelope"
  assumes keeps: "envelope_ok cd st \<Longrightarrow> mutation st = Inr st' \<Longrightarrow>
    envelope_ok cd st' \<and> advances st st' \<and> (envelope_readable st \<longrightarrow> envelope_readable st')"
begin

lemma mutate_replaced:
  "replaced cd (continues True) s (snd (mutate cd env mutation s))"
proof (cases "readReady cd env s")
  case (Inr st)
  note r = readReady_Inr [OF Inr]
  show ?thesis
  proof (cases "mutation st")
    case (Inr st')
    hence "envelope_ok cd st'" "continues True (fs_file s) st'" using keeps [of st st'] r by (auto simp: continues_def)
    thus ?thesis using write_replaced \<open>readReady cd env s = Inr st\<close> Inr by (simp add: mutate_def)
  qed (simp add: mutate_def \<open>readReady cd env s = Inr st\<close> replaced_refl)
qed (simp add: mutate_def replaced_refl)

end

lemma deleteEntries_ok:
  assumes "envelope_ok cd st" and "deleteEntries ids st = Inr st'"
  shows "envelope_ok cd st' \<and> advances st st' \<and> (envelope_readable st \<longrightarrow> envelope_readable st')"
proof -
  let ?t = "st\<lparr> ev_Entries := filter (\<lambda>entry. en_ID entry \<notin> set ids) (ev_Entries st) \<rparr>"
  have p: "part_ok cd ?t" by (rule part_ok_entries [OF envelope_part [OF assms(1)] subseq_filter_left])
  obtain f where f: "ev_RetiredBatchFloor ?t \<le> f" "advanceFloor ?t = ?t\<lparr> ev_RetiredBatchFloor := f \<rparr>"
    using advanceFloor_update by blast
  have "st' = advanceFloor ?t" using assms(2) by (simp add: deleteEntries_def)
  moreover have "envelope_readable (advanceFloor ?t)" if "envelope_readable st"
    by (rule envelope_readable_subset [OF that]) auto
  ultimately show ?thesis using advanceFloor_ok(1) [OF p] f by (auto simp: advances_def list_all_iff)
qed

lemma markLoop_entries:
  assumes "markLoop bid es = Inr es'"
  shows "list_all2 (\<lambda>e e'. e' = e \<or> e' = e\<lparr> en_Attempts := en_Attempts e + 1 \<rparr>) es es'"
  using assms
proof (induction es arbitrary: es')
  case (Cons e es)
  have "list_all2 (\<lambda>e e'. e' = e \<or> e' = e\<lparr> en_Attempts := en_Attempts e + 1 \<rparr>) es es" by (simp add: list_all2_same)
  thus ?case using Cons by (auto split: if_splits sum.splits)
qed simp

lemma mark_sorted:
  assumes "list_all2 (\<lambda>e e'. e' = e \<or> e' = e\<lparr> en_Attempts := en_Attempts e + 1 \<rparr>) es es'"
  shows "list_all (entry_ok st) es \<Longrightarrow> list_all (entry_ok st) es'"
    and "list_all (\<lambda>e. f < seq_of e) es \<Longrightarrow> list_all (\<lambda>e. f < seq_of e) es'"
    and "list_all (entry_before x) es \<Longrightarrow> list_all (entry_before x) es'"
    and "e' \<in> set es' \<Longrightarrow> \<exists>e \<in> set es. en_Request e = en_Request e' \<and> en_ID e = en_ID e'"
    and "map seq_of es' = map seq_of es" and "map en_CreatedAt es' = map en_CreatedAt es"
  using assms by (induction rule: list_all2_induct) (auto simp: entry_ok_def Let_def entry_before_def)

lemma sorted_entry_before:
  "sorted_wrt entry_before es \<longleftrightarrow> sorted_wrt (<) (map seq_of es) \<and> sorted_wrt (<) (map en_CreatedAt es)"
  by (induction es) (auto simp: entry_before_def)

lemma markEntry_ok:
  assumes "envelope_ok cd st" and "markEntry bid st = Inr st'"
  shows "envelope_ok cd st' \<and> advances st st' \<and> (envelope_readable st \<longrightarrow> envelope_readable st')"
proof -
  obtain es where m: "markLoop bid (ev_Entries st) = Inr es" "st' = st\<lparr> ev_Entries := es \<rparr>"
    using assms(2) by (auto simp: markEntry_def split: sum.splits)
  note k = mark_sorted [OF markLoop_entries [OF m(1)]]
  have "expectedFloor st' = expectedFloor st"
    using k(5) unfolding m(2) by (cases es; cases "ev_Entries st") (auto simp: expectedFloor_def)
  moreover have "sorted_wrt entry_before es" using assms(1) k(5,6) by (simp add: sorted_entry_before envelope_ok_def)
  moreover have "validReplayBounds cd st'" using assms(1) by (simp add: m(2) envelope_ok_def validReplayBounds_def)
  moreover have "list_all (entry_ok st') es"
    using assms(1) k(1) [of st] by (simp add: envelope_ok_def m(2) list_all_iff entry_ok_floor(2))
  moreover have "list_all (\<lambda>e. ev_RetiredBatchFloor st < seq_of e) es" "ev_RetiredBatchFloor st = expectedFloor st"
    using assms(1) k(2) unfolding envelope_ok_def by blast+
  ultimately have "envelope_ok cd st'"
    unfolding envelope_ok_def by (simp add: m(2))
  moreover have "advances st st'" using k(4) by (auto simp: advances_def m(2) list_all_iff)
  moreover have "envelope_readable st \<longrightarrow> envelope_readable st'"
    using k(4) unfolding envelope_readable_def m(2) list_all_iff by fastforce
  ultimately show ?thesis by blast
qed

lemma pruneEnvelope_ok:
  assumes "envelope_ok cd st" and "pruneEnvelope cd env opts st = Inr st'"
  shows "envelope_ok cd st' \<and> advances st st' \<and> (envelope_readable st \<longrightarrow> envelope_readable st')"
proof -
  have "trimmed cd st st'" by (rule pruneEnvelope_trimmed [OF envelope_part [OF assms(1)] assms(2)])
  thus ?thesis using advances_trimmed trimmed_readable unfolding trimmed_def by blast
qed

interpretation delete_mutation: queue_mutation cd "deleteEntries ids" for cd ids
  by unfold_locales (rule deleteEntries_ok)

interpretation mark_mutation: queue_mutation cd "markEntry bid" for cd bid
  by unfold_locales (rule markEntry_ok)

interpretation prune_mutation: queue_mutation cd "pruneEnvelope cd env opts" for cd env opts
  by unfold_locales (rule pruneEnvelope_ok)

subsection \<open>Enqueue, reserve and open\<close>

lemma enqueued_advances:
  assumes "envelope_ok cd st" and "trimmed cd (appended env r st) st'"
  shows "advances st st'"
proof -
  obtain k f where k: "ev_RetiredBatchFloor st \<le> f"
    "st' = st\<lparr> ev_LastAllocatedBatchSeq := ev_LastAllocatedBatchSeq st + 1,
       ev_Entries := drop k (ev_Entries st @ [newEntry env r st]), ev_RetiredBatchFloor := f \<rparr>"
    using assms(2) unfolding trimmed_def by auto
  have "e \<in> set (ev_Entries st)"
    if "e \<in> set (drop k (ev_Entries st @ [newEntry env r st]))" "seq_of e \<le> ev_LastAllocatedBatchSeq st" for e
    using in_set_dropD [OF that(1)] that(2) by (auto simp: newEntry_fields)
  thus ?thesis using k(1) by (auto simp: advances_def k(2) list_all_iff simp del: drop_append)
qed

lemma Enqueue_replaced:
  assumes "0 < qe_now env"
  shows "replaced cd (continues (request_readable r)) s (snd (Enqueue cd env r s))"
proof (cases "readReady cd env s")
  case (Inr st)
  note rd = readReady_Inr [OF Inr]
  have w: "replaced cd (continues (request_readable r)) s (snd (writeEnvelope cd env 0 st' s))"
    if "pruneEnvelope cd env (fs_opts s) (appended env r st) = Inr st'" "sr_SessionID r = ev_SessionID st" for st'
  proof (rule write_replaced)
    have t: "trimmed cd (appended env r st) st'"
      using pruneEnvelope_trimmed [OF appended_part_ok that(1)] rd that(2) assms by blast
    thus "envelope_ok cd st'" unfolding trimmed_def by blast
    have "envelope_readable st'" if "request_readable r"
      by (rule trimmed_readable [OF t]) (use rd that in \<open>simp add: envelope_readable_def newEntry_readable\<close>)
    thus "continues (request_readable r) (fs_file s) st'" using rd enqueued_advances [OF _ t] unfolding continues_def by blast
  qed
  have snd_case: "snd (case x of (None, s') \<Rightarrow> (Inr b, s') | (Some err, s') \<Rightarrow> (Inl err, s')) = snd x"
    for x :: "queueError option \<times> FileStore" and b :: string by (cases x) (simp split: option.split)
  show ?thesis
    using w by (auto simp: Enqueue_def Inr Let_def replaced_refl snd_case split: sum.split)
qed (simp add: Enqueue_def replaced_refl)

lemma ReserveLiveSequences_replaced: "replaced cd (continues True) s (snd (ReserveLiveSequences cd env n s))"
proof -
  have snd_case: "snd (case x of (None, s') \<Rightarrow> (Inr b, s') | (Some err, s') \<Rightarrow> (Inl err, s')) = snd x"
    for x :: "queueError option \<times> FileStore" and b :: "int \<times> int" by (cases x) (simp split: option.split)
  have w: "replaced cd (continues True) s (snd (writeEnvelope cd env 0
      (st\<lparr> ev_LiveReservedThrough := ev_LiveReservedThrough st + LiveSequenceReservation \<rparr>) s))"
    if "readEnvelope cd env s = Inr st" for st
  proof (rule write_replaced)
    let ?t = "st\<lparr> ev_LiveReservedThrough := ev_LiveReservedThrough st + LiveSequenceReservation \<rparr>"
    note r = readEnvelope_Inr [OF that]
    have "entry_ok ?t e = entry_ok st e" for e by (simp add: entry_ok_def Let_def)
    moreover have "expectedFloor ?t = expectedFloor st" by (simp add: expectedFloor_def split: list.split)
    moreover have "validReplayBounds cd ?t"
      using r by (auto simp: envelope_ok_def validReplayBounds_def LiveSequenceReservation_def)
    ultimately show "envelope_ok cd ?t" using r by (auto simp: envelope_ok_def list_all_iff)
    have "advances st ?t" by (auto simp: advances_def list_all_iff LiveSequenceReservation_def)
    moreover have "envelope_readable ?t" using r by (simp add: envelope_readable_def)
    ultimately show "continues True (fs_file s) ?t" using r unfolding continues_def by blast
  qed
  show ?thesis
    using w by (auto simp: ReserveLiveSequences_def Let_def replaced_refl snd_case split: option.split sum.split)
qed

text \<open>What opening a session may leave: the retired authority of the other session, or a new one.\<close>

definition producer_ok :: "codec \<Rightarrow> queueEnv \<Rightarrow> bool" where
  "producer_ok cd env \<longleftrightarrow> (\<forall>p. qe_newRandom env = Inr p \<longrightarrow> ValidSyncProducerID (cd_uuidParse cd) p)"

lemma bootstrapEnvelope_ok:
  "session \<noteq> [] \<Longrightarrow> ValidSyncProducerID (cd_uuidParse cd) p \<Longrightarrow> envelope_ok cd (bootstrapEnvelope session p)"
  by (simp add: envelope_ok_def bootstrapEnvelope_def validReplayBounds_def expectedFloor_def)

lemma retired_ok:
  "envelope_ok cd st \<Longrightarrow> envelope_ok cd (st\<lparr> ev_Entries := [], ev_RetiredBatchFloor := ev_LastAllocatedBatchSeq st \<rparr>)"
  by (auto simp: envelope_ok_def validReplayBounds_def expectedFloor_def)

definition bootstraps :: "queueEnv \<Rightarrow> queueFile \<Rightarrow> envelope \<Rightarrow> bool" where
  "bootstraps env file st \<longleftrightarrow> (\<exists>session p. qe_newRandom env = Inr p \<and> st = bootstrapEnvelope session p)"

definition reopens :: "queueEnv \<Rightarrow> queueFile \<Rightarrow> envelope \<Rightarrow> bool" where
  "reopens env file st' \<longleftrightarrow> continues True file st' \<or> bootstraps env file st'"

lemma replaced_cong:
  assumes "replaced cd allowed s s'" and "fs_file t = fs_file s'" and "fs_durable t = fs_durable s'"
    and "fs_poison t = fs_poison s'" and "fs_opts t = fs_opts s'"
  shows "replaced cd allowed s t"
  using assms by (simp add: replaced_def)

lemma replaced_from:
  assumes "replaced cd allowed t s'" and "fs_file t = fs_file s" and "fs_durable t = fs_durable s" and "fs_opts t = fs_opts s"
  shows "replaced cd allowed s s'"
  using assms by (simp add: replaced_def)

lemma replaced_trans:
  assumes "replaced cd A s s1" and "fs_poison s1 = None" and "replaced cd B s1 s2"
    and "\<And>st. B (fs_file s1) st \<Longrightarrow> A (fs_file s) st"
  shows "replaced cd A s s2"
  unfolding replaced_def
proof (intro conjI impI)
  have o: "fs_opts s1 = fs_opts s" "fs_opts s2 = fs_opts s1" using assms(1,3) unfolding replaced_def by blast+
  thus "fs_opts s2 = fs_opts s" by simp
  show "fs_file s2 = fs_file s \<or> (\<exists>st. envelope_ok cd st \<and> A (fs_file s) st \<and> fs_file s2 = FileEnvelope st)"
  proof (cases "fs_file s2 = fs_file s1")
    case True
    thus ?thesis using assms(1) unfolding replaced_def by simp
  next
    case False
    thus ?thesis using assms(3,4) unfolding replaced_def by blast
  qed
  show "fs_durable s2 = fs_durable s \<or> (\<exists>st. envelope_ok cd st \<and> A (fs_file s) st \<and> fs_durable s2 = FileEnvelope st)"
  proof (cases "fs_durable s2 = fs_durable s1")
    case True
    thus ?thesis using assms(1) unfolding replaced_def by simp
  next
    case False
    thus ?thesis using assms(3,4) unfolding replaced_def by blast
  qed
  assume h: "fs_durable s = fs_file s \<and> \<not> op_SkipFsync (fs_opts s) \<and> fs_poison s2 = None"
  hence "fs_durable s1 = fs_file s1" using assms(1,2) unfolding replaced_def by blast
  thus "fs_durable s2 = fs_file s2" using assms(3) h o(1) unfolding replaced_def by simp
qed

lemma bootstrap_replaced:
  assumes "producer_ok cd env" and "session \<noteq> []"
  shows "replaced cd (bootstraps env) s (snd (bootstrap cd env session s))"
proof (cases "qe_newRandom env")
  case (Inr p)
  have "envelope_ok cd (bootstrapEnvelope session p)"
    using assms Inr by (intro bootstrapEnvelope_ok) (auto simp: producer_ok_def)
  moreover have "bootstraps env (fs_file s) (bootstrapEnvelope session p)" using Inr by (auto simp: bootstraps_def)
  ultimately show ?thesis using Inr write_replaced [where allowed = "bootstraps env"] by (simp add: bootstrap_def)
qed (simp add: bootstrap_def replaced_refl)

lemma openLocked_replaced:
  assumes "producer_ok cd env" and "session \<noteq> []" and "fs_poison s = None"
  shows "replaced cd (reopens env) s (snd (openLocked cd env session s))"
proof (cases "openDecision cd env (fs_file s)")
  case (Inr d)
  show ?thesis
  proof (cases d)
    case None
    have "replaced cd (reopens env) s (snd (bootstrap cd env session s))"
      by (rule replaced_trans [OF replaced_refl assms(3) bootstrap_replaced [OF assms(1,2)]]) (simp add: reopens_def bootstraps_def)
    thus ?thesis using Inr None by (simp add: openLocked_def)
  next
    case (Some st)
    hence st: "fs_file s = FileEnvelope st" "envelope_ok cd st"
      using Inr by (auto simp: openDecision_def decodeEnvelope_Inr split: option.splits queueFile.splits if_splits sum.splits)
    let ?r = "st\<lparr> ev_Entries := [], ev_RetiredBatchFloor := ev_LastAllocatedBatchSeq st \<rparr>"
    obtain err s1 where w: "writeEnvelope cd env 0 ?r s = (err, s1)" by fastforce
    have "advances st ?r" using st(2) by (auto simp: advances_def envelope_ok_def validReplayBounds_def)
    hence "reopens env (fs_file s) ?r" using st(1) by (auto simp: reopens_def continues_def envelope_readable_def)
    with write_replaced [OF retired_ok [OF st(2)], where allowed = "reopens env" and env = env and i = 0 and s = s]
    have one: "replaced cd (reopens env) s s1" by (simp add: w)
    have "replaced cd (reopens env) s (snd (bootstrap cd env session s1))" if "err = None"
    proof (rule replaced_trans [OF one _ bootstrap_replaced [OF assms(1,2)]])
      show "fs_poison s1 = None" using writeEnvelope_cases [OF w] that assms(3) by auto
    qed (simp add: reopens_def bootstraps_def)
    thus ?thesis
      using one Inr Some by (cases err) (simp_all add: openLocked_def w replaced_refl)
  qed
qed (simp add: openLocked_def replaced_refl)

lemma OpenSession_replaced:
  assumes "producer_ok cd env"
  shows "replaced cd (reopens env) s (snd (OpenSession cd env session s))"
proof -
  have o: "replaced cd (reopens env) s (snd (openLocked cd env session (s\<lparr> fs_lock := True \<rparr>)))"
    if "session \<noteq> []" "fs_poison s = None"
    by (rule replaced_from [OF openLocked_replaced [OF assms that(1)]]) (simp_all add: that)
  have rel: "replaced cd (reopens env) s (snd (releaseLock env s'))" if "replaced cd (reopens env) s s'" for s'
    by (rule replaced_cong [OF that]) (simp_all add: releaseLock_def)
  have ses: "replaced cd (reopens env) s (s'\<lparr> fs_session := x \<rparr>)" if "replaced cd (reopens env) s s'" for s' x
    by (rule replaced_cong [OF that]) simp_all
  show ?thesis
  proof (cases "firstError [fs_poison s, qe_ctxReady env] = None \<and> session \<noteq> [] \<and> \<not> fs_lock s \<and>
      firstError [qe_dir env, qe_openLock env, qe_chmodLock env, qe_flock env] = None")
    case True
    hence "fs_poison s = None" by (cases "fs_poison s") auto
    note op = o [OF _ this]
    obtain err s' where w: "openLocked cd env session (s\<lparr> fs_lock := True \<rparr>) = (err, s')" by fastforce
    show ?thesis
      using True op rel [of s'] ses [of s'] unfolding OpenSession_def w by (cases err) simp_all
  next
    case False
    hence "snd (OpenSession cd env session s) = s"
      unfolding OpenSession_def by (auto split: option.split)
    thus ?thesis by (simp add: replaced_refl)
  qed
qed

section \<open>The life of a queue\<close>

datatype queueOp =
  OpOpen string | OpClose | OpReserve int | OpEnqueue SyncRequest | OpDelete "string list" | OpMark string | OpPrune

fun runOp :: "codec \<Rightarrow> queueEnv \<Rightarrow> queueOp \<Rightarrow> FileStore \<Rightarrow> FileStore" where
  "runOp cd env (OpOpen session) s = snd (OpenSession cd env session s)"
| "runOp cd env OpClose s = snd (Close env s)"
| "runOp cd env (OpReserve n) s = snd (ReserveLiveSequences cd env n s)"
| "runOp cd env (OpEnqueue r) s = snd (Enqueue cd env r s)"
| "runOp cd env (OpDelete ids) s = snd (DeleteMany cd env ids s)"
| "runOp cd env (OpMark bid) s = snd (MarkAttempt cd env bid s)"
| "runOp cd env OpPrune s = snd (Prune cd env s)"

text \<open>
  What the queue relies on: the identifiers of \<open>uuid.NewRandom\<close> are UUIDs, and the clock is after the
  zero instant.  All faults are allowed.
\<close>

definition env_ok :: "codec \<Rightarrow> queueEnv \<Rightarrow> bool" where
  "env_ok cd env \<longleftrightarrow> producer_ok cd env \<and> 0 < qe_now env"

text \<open>
  An operation brings JSON into the queue only with a request.  The agent builds its raw messages with
  \<open>json.Marshal\<close> from maps (\<open>agent/ipquality\<close>), so that they can be read back.
\<close>

fun op_readable :: "queueOp \<Rightarrow> bool" where
  "op_readable (OpEnqueue r) = request_readable r"
| "op_readable op = True"

text \<open>
  A queue starts without a file or with a drained legacy file.  Between operations the process may be
  restarted, which keeps the visible file, or the power may fail, which keeps the durable one.
\<close>

inductive queue_reachable :: "codec \<Rightarrow> FileStore \<Rightarrow> bool" for cd where
  start: "file \<in> {FileMissing, FileLegacy 0} \<Longrightarrow> queue_reachable cd (NewFileStore file opts)"
| operate: "queue_reachable cd s \<Longrightarrow> env_ok cd env \<Longrightarrow> op_readable op \<Longrightarrow> queue_reachable cd (runOp cd env op s)"
| restart: "queue_reachable cd s \<Longrightarrow> queue_reachable cd ((NewFileStore (fs_file s) opts)\<lparr> fs_durable := fs_durable s \<rparr>)"
| power_loss: "queue_reachable cd s \<Longrightarrow> queue_reachable cd (NewFileStore (fs_durable s) opts)"

lemma Close_files:
  "fs_file (snd (Close env s)) = fs_file s" "fs_durable (snd (Close env s)) = fs_durable s"
  "fs_opts (snd (Close env s)) = fs_opts s" "fs_poison (snd (Close env s)) = fs_poison s"
  by (simp_all add: Close_def releaseLock_def Let_def)

lemma runOp_replaced:
  assumes "env_ok cd env"
  shows "replaced cd (case op of OpOpen session \<Rightarrow> reopens env | _ \<Rightarrow> continues (op_readable op)) s (runOp cd env op s)"
proof -
  have e: "producer_ok cd env" "0 < qe_now env" using assms by (auto simp: env_ok_def)
  have "replaced cd (continues True) s (snd (Close env s))" by (rule replaced_cong [OF replaced_refl]) (simp_all add: Close_files)
  thus ?thesis
    using OpenSession_replaced [OF e(1)] ReserveLiveSequences_replaced Enqueue_replaced [OF e(2)]
      delete_mutation.mutate_replaced mark_mutation.mutate_replaced prune_mutation.mutate_replaced
    by (cases op) (simp_all add: DeleteMany_def MarkAttempt_def Prune_def)
qed

definition file_ok :: "codec \<Rightarrow> queueFile \<Rightarrow> bool" where
  "file_ok cd file \<longleftrightarrow> file = FileMissing \<or> file = FileLegacy 0 \<or>
     (\<exists>st. file = FileEnvelope st \<and> envelope_ok cd st \<and> envelope_readable st)"

lemma replaced_file_ok:
  assumes "replaced cd allowed s s'" and "\<And>file st. allowed file st \<Longrightarrow> envelope_readable st"
    and "file_ok cd (fs_file s)" and "file_ok cd (fs_durable s)"
  shows "file_ok cd (fs_file s') \<and> file_ok cd (fs_durable s')"
proof -
  have new: "file_ok cd (FileEnvelope st)" if "envelope_ok cd st" "envelope_readable st" for st
    using that by (simp add: file_ok_def)
  have "fs_file s' = fs_file s \<or> (\<exists>st. envelope_ok cd st \<and> envelope_readable st \<and> fs_file s' = FileEnvelope st)"
    "fs_durable s' = fs_durable s \<or> (\<exists>st. envelope_ok cd st \<and> envelope_readable st \<and> fs_durable s' = FileEnvelope st)"
    using assms(1,2) unfolding replaced_def by blast+
  thus ?thesis using new assms(3,4) by fastforce
qed

lemma allowed_readable:
  assumes "(case op of OpOpen session \<Rightarrow> reopens env | _ \<Rightarrow> continues (op_readable op)) file st" and "op_readable op"
  shows "envelope_readable st"
  using assms by (cases op) (auto simp: reopens_def continues_def bootstraps_def bootstrapEnvelope_def envelope_readable_def)

lemma NewFileStore_files: "fs_file (NewFileStore file opts) = file" "fs_durable (NewFileStore file opts) = file"
  by (simp_all add: NewFileStore_def)

lemma reachable_files: "queue_reachable cd s \<Longrightarrow> file_ok cd (fs_file s) \<and> file_ok cd (fs_durable s)"
proof (induction rule: queue_reachable.induct)
  case (operate s env op)
  show ?case
    by (rule replaced_file_ok [OF runOp_replaced [OF operate.hyps(2)]], erule allowed_readable [OF _ operate.hyps(3)])
      (use operate.IH in blast)+
qed (auto simp: NewFileStore_files file_ok_def)

lemma file_ok_opens:
  assumes "file_ok cd file" and "qe_read env = None"
  shows "\<exists>d. openDecision cd env file = Inr d"
proof -
  have "decodeEnvelope cd (FileEnvelope st) = Inr st" if "envelope_ok cd st" "envelope_readable st" for st
    using that by (simp add: decodeEnvelope_Inr)
  thus ?thesis using assms by (auto simp: file_ok_def openDecision_def)
qed

text \<open>
  (C38) Whatever sequence of operations, failed system calls, restarts and power losses the queue goes
  through, as long as the JSON inside the requests it was given can be read back (no repeated key, no
  number out of range, no excessive nesting), the decoder accepts its file: both the visible file and the
  one that survives a power loss are absent, an empty legacy array or an envelope that passes every
  check, so that a new process can always open the queue.
\<close>

theorem queue_always_reopens:
  assumes "queue_reachable cd s" and "qe_read env = None"
  shows "(\<exists>d. openDecision cd env (fs_file s) = Inr d) \<and> (\<exists>d. openDecision cd env (fs_durable s) = Inr d)"
  using reachable_files [OF assms(1)] file_ok_opens [OF _ assms(2)] by blast

text \<open>
  (C39) No operation loses the replay authority or gives out a sequence number twice.  With any failed
  system calls, an envelope is followed by an envelope in which the batch counter, the retired floor
  and the live reservation are at least what they were and every entry with an old number is the old
  entry; only opening another session starts a new authority, under a new producer identity.
\<close>

theorem sequences_only_advance:
  assumes "env_ok cd env" and "fs_file s = FileEnvelope st"
  shows "\<exists>st'. fs_file (runOp cd env op s) = FileEnvelope st' \<and>
    (advances st st' \<or> (\<exists>session. op = OpOpen session) \<and> bootstraps env (fs_file s) st')"
proof -
  let ?allowed = "case op of OpOpen session \<Rightarrow> reopens env | _ \<Rightarrow> continues (op_readable op)"
  have "fs_file (runOp cd env op s) = fs_file s \<or>
      (\<exists>st'. ?allowed (fs_file s) st' \<and> fs_file (runOp cd env op s) = FileEnvelope st')"
    using runOp_replaced [OF assms(1), of op s] unfolding replaced_def by blast
  moreover have "advances st st' \<or> (\<exists>session. op = OpOpen session) \<and> bootstraps env (fs_file s) st'"
    if "?allowed (fs_file s) st'" for st'
    using that assms(2) by (cases op) (auto simp: reopens_def continues_def)
  ultimately show ?thesis using assms(2) advances_refl by metis
qed

lemma advanceFloor_first:
  assumes "part_ok cd st" and "ev_Entries st \<noteq> []"
  shows "advanceFloor st = st\<lparr> ev_RetiredBatchFloor := seq_of (hd (ev_Entries st)) - 1 \<rparr>"
proof -
  have "advanceFloor st = st\<lparr> ev_RetiredBatchFloor := expectedFloor st \<rparr>"
    using advanceFloor_cases assms(1) unfolding part_ok_def by blast
  thus ?thesis using assms(2) by (cases "ev_Entries st") (simp_all add: expectedFloor_def)
qed

text \<open>What a successful enqueue went through.\<close>

lemma Enqueue_Inr:
  assumes "Enqueue cd env r s = (Inr bid, s')" and "0 < qe_now env"
  obtains st st' where "readReady cd env s = Inr st" and "part_ok cd (appended env r st)"
    and "pruneEnvelope cd env (fs_opts s) (appended env r st) = Inr st'"
    and "ev_Entries st' \<noteq> []" and "bid = en_ID (newEntry env r st)" and "writeEnvelope cd env 0 st' s = (None, s')"
proof -
  obtain st where rd: "readReady cd env s = Inr st" using assms(1) by (auto simp: Enqueue_def split: sum.splits)
  obtain st' where ses: "sr_SessionID r = ev_SessionID st"
    and pr: "pruneEnvelope cd env (fs_opts s) (appended env r st) = Inr st'" "ev_Entries st' \<noteq> []"
      "bid = en_ID (newEntry env r st)" "writeEnvelope cd env 0 st' s = (None, s')"
    using assms(1) by (auto simp: Enqueue_def rd Let_def split: if_splits sum.splits prod.splits option.splits)
  have "part_ok cd (appended env r st)" using appended_part_ok readReady_Inr [OF rd] ses assms(2) by blast
  thus thesis using that rd pr by blast
qed

text \<open>
  (C40) Enqueue is the append of a bounded FIFO.  When it succeeds, the queue is the old entries followed
  by one new entry, without the \<open>k\<close> oldest.  The new entry has the returned identity, the next sequence
  number and its identity on every fact; no old entry has that identity.  What is dropped is exactly what
  the limits ask for: the new envelope respects the limits on age, number and bytes, and with fewer
  entries dropped it would not.  Its floor is just below its first entry, and the file is durable when
  synchronisation is on.
\<close>

theorem Enqueue_fifo:
  assumes "Enqueue cd env r s = (Inr bid, s')" and "0 < qe_now env" and "0 \<le> op_MaxEntries (fs_opts s)"
    and "fits = (\<lambda>x. (\<forall>d \<in> set (ev_Entries x). qe_pruneNow env - op_MaxAge (fs_opts s) \<le> en_CreatedAt d) \<and>
      int (length (ev_Entries x)) \<le> op_MaxEntries (fs_opts s) \<and> envelopeSize cd x \<le> op_MaxBytes (fs_opts s))"
    and "without = (\<lambda>j st e. st\<lparr> ev_LastAllocatedBatchSeq := ev_LastAllocatedBatchSeq st + 1,
      ev_Entries := drop j (ev_Entries st) @ [e],
      ev_RetiredBatchFloor := seq_of (hd (drop j (ev_Entries st) @ [e])) - 1 \<rparr>)"
  shows "\<exists>st st' k e. fs_file s = FileEnvelope st \<and> fs_file s' = FileEnvelope st' \<and> st' = without k st e \<and>
    ev_Entries st' = drop k (ev_Entries st) @ [e] \<and> en_ID e = bid \<and> seq_of e = ev_LastAllocatedBatchSeq st + 1 \<and>
    ev_LastAllocatedBatchSeq st' = ev_LastAllocatedBatchSeq st + 1 \<and> batchIdentityMatches (en_Request e) bid \<and>
    bid \<notin> en_ID ` set (ev_Entries st) \<and>
    fits st' \<and> (\<forall>j < k. \<not> fits (without j st e)) \<and> k \<le> length (ev_Entries st) \<and>
    int (length (ev_Entries st')) \<le> op_MaxEntries (fs_opts s) \<and> envelopeSize cd st' \<le> op_MaxBytes (fs_opts s) \<and>
    (op_SkipFsync (fs_opts s) \<or> fs_durable s' = fs_file s')"
proof -
  obtain st st' where rd: "readReady cd env s = Inr st" and part: "part_ok cd (appended env r st)"
    and pr: "pruneEnvelope cd env (fs_opts s) (appended env r st) = Inr st'"
    and ne: "ev_Entries st' \<noteq> []" and bid: "bid = en_ID (newEntry env r st)" and w: "writeEnvelope cd env 0 st' s = (None, s')"
    by (rule Enqueue_Inr [OF assms(1,2)])
  note ok = readReady_Inr [OF rd]
  let ?e = "newEntry env r st"
  have lim: "within_limits cd (fs_opts s) (qe_pruneNow env) x = fits x" for x
    unfolding assms(4) within_limits_def list_all_iff by simp
  have without: "advanceFloor ((appended env r st)\<lparr> ev_Entries := drop j (ev_Entries st @ [?e]) \<rparr>) = without j st ?e"
    if "j \<le> length (ev_Entries st)" for j
    using advanceFloor_first [OF part_ok_entries [OF part subseq_drop_entries], of j] that by (simp add: assms(5))
  from pruneEnvelope_exact [OF part pr assms(3)] obtain k
    where k: "st' = advanceFloor ((appended env r st)\<lparr> ev_Entries := drop k (ev_Entries st @ [?e]) \<rparr>)" "fits st'"
      "\<forall>j < k. \<not> fits (advanceFloor ((appended env r st)\<lparr> ev_Entries := drop j (ev_Entries st @ [?e]) \<rparr>))"
    unfolding lim by auto
  have kl: "k \<le> length (ev_Entries st)" using ne unfolding k(1) by (simp, linarith)
  have st': "st' = without k st ?e" unfolding k(1) by (rule without [OF kl])
  have less: "\<forall>j < k. \<not> fits (without j st ?e)" using k(3) kl without by simp
  have "bid \<notin> en_ID ` set (ev_Entries st)" unfolding bid using newEntry_fresh ok by blast
  moreover have "batchIdentityMatches (en_Request ?e) bid"
    by (simp add: bid newEntry_def Let_def setBatchIdentity_fields)
  moreover have "fs_file s' = FileEnvelope st'" "op_SkipFsync (fs_opts s) \<or> fs_durable s' = fs_file s'"
    using writeEnvelope_cases [OF w] by auto
  moreover have "ev_Entries st' = drop k (ev_Entries st) @ [?e]"
    "ev_LastAllocatedBatchSeq st' = ev_LastAllocatedBatchSeq st + 1" unfolding st' assms(5) by simp_all
  moreover have "int (length (ev_Entries st')) \<le> op_MaxEntries (fs_opts s)" "envelopeSize cd st' \<le> op_MaxBytes (fs_opts s)"
    using k(2) unfolding assms(4) by blast+
  ultimately show ?thesis
    using ok st' less kl k(2) newEntry_fields [of env r st] bid
    by (intro exI [of _ st] exI [of _ st'] exI [of _ k] exI [of _ ?e]) blast
qed

section \<open>A concrete queue\<close>

definition sample_codec :: codec where
  "sample_codec = \<lparr> cd_entrySize = (\<lambda>e. 40), cd_metadataSize = (\<lambda>st. 100), cd_uuidParse = (\<lambda>p. Some p) \<rparr>"

definition sample_queue_env :: queueEnv where
  "sample_queue_env = \<lparr> qe_now = 5, qe_pruneNow = 6, qe_ctxReady = None, qe_ctxResult = None, qe_dir = None,
     qe_openLock = None, qe_chmodLock = None, qe_flock = None, qe_unlock = None, qe_read = None,
     qe_newRandom = Inr (replicate 36 (CHR ''a'')), qe_marshal = None, qe_ctxWrite = (\<lambda>i. None), qe_createTemp = (\<lambda>i. None),
     qe_write = (\<lambda>i. None), qe_chmod = (\<lambda>i. None), qe_syncFile = (\<lambda>i. None), qe_close = (\<lambda>i. None),
     qe_ctxRename = (\<lambda>i. None), qe_rename = (\<lambda>i. None), qe_syncDir = (\<lambda>i. None) \<rparr>"

text \<open>A request with a heartbeat and a report that carries the given raw message.\<close>

definition sample_report :: "RawMessage \<Rightarrow> IPQualityReportPayload" where
  "sample_report raw = \<lparr> iq_ObservedAt = 4, iq_AgentVersion = [], iq_Fingerprint = [], iq_SyncBatchID = [],
     iq_IPAddress = ''192.0.2.1'', iq_IPVersion = 4, iq_Status = ''ok'', iq_ASN = [], iq_Organization = [], iq_Latitude = None,
     iq_Longitude = None, iq_UseRegionCode = [], iq_UseRegionName = [], iq_RegisteredRegionCode = [],
     iq_RegisteredRegionName = [], iq_RiskLevel = [], iq_ErrorCode = [], iq_ErrorSummary = [], iq_IsBackfilled = False,
     iq_RawJSON = raw, iq_Coverage = None, iq_DiagnosticsJSON = RawNil, iq_ProviderResults = [], iq_ServiceUnlocks = [],
     iq_Product = None \<rparr>"

definition sample_request_with :: "RawMessage \<Rightarrow> SyncRequest" where
  "sample_request_with raw = \<lparr> sr_ProtocolRevision = 0, sr_ProducerID = [], sr_BatchSequence = 0, sr_AllocatedThrough = 0,
     sr_RetiredThrough = 0, sr_SessionID = ''s'', sr_LiveSignal = None, sr_MonitoringInstanceID = ''mi'', sr_SyncToken = [],
     sr_Heartbeats = [\<lparr> hb_ObservedAt = 4, hb_AgentVersion = [], hb_Fingerprint = [], hb_SyncBatchID = [], hb_IsBackfilled = False \<rparr>],
     sr_HostSamples = [], sr_ProbeObservations = [], sr_IPQualityReports = [sample_report raw], sr_CommandResults = [] \<rparr>"

definition sample_request :: SyncRequest where
  "sample_request = sample_request_with (RawValue (JObject [(''a'', JNumber 1), (''b'', JArray [JNull])]))"

text \<open>A queue for two entries in 230 bytes, opened and filled.\<close>

definition sample_opened :: FileStore where
  "sample_opened = runOp sample_codec sample_queue_env (OpOpen ''s'') (NewFileStore FileMissing
     \<lparr> op_MaxEntries = 2, op_MaxAge = 0, op_MaxBytes = 230, op_SkipFsync = False \<rparr>)"

definition sample_filled :: FileStore where
  "sample_filled = runOp sample_codec sample_queue_env (OpEnqueue sample_request)
     (runOp sample_codec sample_queue_env (OpEnqueue sample_request) sample_opened)"

lemma sample_env_ok: "env_ok sample_codec sample_queue_env"
  by (simp add: env_ok_def producer_ok_def sample_queue_env_def sample_codec_def ValidSyncProducerID_def)

lemma sample_request_readable: "request_readable sample_request"
  by code_simp

lemma sample_filled_reachable: "queue_reachable sample_codec sample_filled"
  unfolding sample_filled_def sample_opened_def
  by (intro queue_reachable.operate sample_env_ok queue_reachable.start) (simp_all add: sample_request_readable)

theorem queue_always_reopens_witness:
  "\<exists>d. openDecision sample_codec sample_queue_env (fs_durable sample_filled) = Inr d"
  using queue_always_reopens [OF sample_filled_reachable, of sample_queue_env] by (simp add: sample_queue_env_def)

definition sample_envelope :: envelope where
  "sample_envelope = (case fs_file sample_filled of FileEnvelope st \<Rightarrow> st | _ \<Rightarrow> bootstrapEnvelope [] [])"

lemma sample_filled_file:
  "fs_file sample_filled = FileEnvelope sample_envelope" "map seq_of (ev_Entries sample_envelope) = [1, 2]"
proof -
  have "(case fs_file sample_filled of FileEnvelope st \<Rightarrow> True | _ \<Rightarrow> False)" by code_simp
  thus "fs_file sample_filled = FileEnvelope sample_envelope" by (simp add: sample_envelope_def split: queueFile.splits)
  show "map seq_of (ev_Entries sample_envelope) = [1, 2]" by code_simp
qed

theorem sequences_only_advance_witness:
  "\<exists>st'. fs_file (runOp sample_codec sample_queue_env (OpEnqueue sample_request) sample_filled) = FileEnvelope st' \<and>
     advances sample_envelope st'"
  using sequences_only_advance [OF sample_env_ok sample_filled_file(1), of "OpEnqueue sample_request"] by simp

lemma sample_enqueue:
  "fst (Enqueue sample_codec sample_queue_env sample_request sample_filled) = Inr (replicate 36 (CHR ''a'') @ '':3'')"
  by code_simp

theorem Enqueue_fifo_witness:
  "\<exists>st' k e. fs_file (snd (Enqueue sample_codec sample_queue_env sample_request sample_filled)) = FileEnvelope st' \<and>
     ev_Entries st' = drop k (ev_Entries sample_envelope) @ [e] \<and> en_ID e = replicate 36 (CHR ''a'') @ '':3'' \<and>
     int (length (ev_Entries st')) \<le> 2"
proof -
  have eq: "Enqueue sample_codec sample_queue_env sample_request sample_filled =
      (Inr (replicate 36 (CHR ''a'') @ '':3''), snd (Enqueue sample_codec sample_queue_env sample_request sample_filled))"
    using sample_enqueue by (metis prod.collapse)
  have m: "op_MaxEntries (fs_opts sample_filled) = 2" by code_simp
  have pos: "0 < qe_now sample_queue_env" "0 \<le> op_MaxEntries (fs_opts sample_filled)"
    by (simp add: sample_queue_env_def) (simp add: m)
  from Enqueue_fifo [OF eq pos refl refl] show ?thesis unfolding m sample_filled_file(1) queueFile.inject by blast
qed

text \<open>
  Enqueue accepts a request that its own decoder does not: a report whose raw JSON repeats a key is
  written, and neither this process nor a new one can read the queue again.
\<close>

lemma duplicate_key_blocks_queue:
  "let r = sample_request_with (RawValue (JObject [(''a'', JNumber 1), (''a'', JNumber 2)]));
       (result, s) = Enqueue sample_codec sample_queue_env r sample_filled in
   result = Inr (replicate 36 (CHR ''a'') @ '':3'') \<and>
   openDecision sample_codec sample_queue_env (fs_durable s) = Inl (QueueError ''invalid sync queue JSON'') \<and>
   fst (Enqueue sample_codec sample_queue_env sample_request s) = Inl (QueueError ''invalid sync queue JSON'')"
  by code_simp

end
