(* ===== verification/Spec2Isabelle.thy ===== *)
theory Spec2Isabelle
  imports Incident_Loop Sync_Queue
begin

text \<open>
  Verification of houfeng, a monitoring system with a center and agents, written in Go.

  \<^bold>\<open>The program.\<close>  An agent on every monitored host samples the host, runs probes, and sends batches of
  facts to the center; batches that cannot be sent wait in a durable queue file.  The center stores the
  facts in PostgreSQL.  After every sync, and in a periodic sweep, its incident service evaluates each
  affected monitoring instance or target: it reads the settings, the recent facts and the active incidents
  of the object, decides per incident class whether an incident starts, escalates, stays or recovers,
  writes the result and its events in one transaction, and sends notifications.  The development covers
  the agent's queue and the incident engine with its settings, from the wire format to the tables.

  \<^bold>\<open>The language.\<close>  \<open>Go_Prelude\<close> (64-bit integers with wrap-around, instants and durations in nanoseconds),
  \<open>Go_Strings\<close> (strings as bytes, their UTF-8 reading, decimal printing), \<open>Go_Collections\<close> (stable sorting by a
  strict order, given by the locale \<open>go_less\<close>; maps as association lists), \<open>Go_Float\<close> (float64 with rounding to
  nearest even) and \<open>Go_JSON\<close> (JSON trees, raw messages).  The order in which Go ranges over a map is an
  argument of every function that ranges over one.

  \<^bold>\<open>The components\<close>, in the order of their theories; paths are below \<open>src/\<close>.
  \<^item> \<open>Agent_Api\<close>: the structs of \<open>internal/contracts/agentapi\<close> and the stored facts of
    \<open>internal/center/runtimefacts\<close>, one record each.
  \<^item> \<open>Incident_Types\<close>: \<open>internal/center/incidents/types.go\<close>, with \<open>ValidMonitoringEventMetadata\<close>, the contract
    that stored events satisfy.
  \<^item> \<open>Incident_Transitions\<close>, \<open>Point_Evaluators\<close>: the evaluators of \<open>incidents/evaluator.go\<close> that look at the newest facts
    (heartbeat, disk, inodes, probe failure, TLS expiry) and \<open>heartbeat_policy.go\<close>.  The locale
    \<open>incident_evaluator\<close> is the contract of an evaluator; every evaluator of the engine is an interpretation.
  \<^item> \<open>Resource_Pressure\<close>, \<open>Resource_Decisions\<close>: the resource pressure evaluator over windows of fifteen and thirty minutes.
  \<^item> \<open>Incident_Trends\<close>: the trend evaluators against daily aggregates, and the counts that the retention job of
    \<open>internal/center/store/retention.go\<close> puts into an aggregate.
  \<^item> \<open>Settings_Model\<close>, \<open>Settings_Laws\<close>: \<open>internal/center/settings\<close>: records, defaults, resolution of overrides and
    validation.  Each validator is an interpretation of the locale \<open>normaliser\<close>.
  \<^item> \<open>Incident_Policy\<close>, \<open>Incident_Series\<close>, \<open>Incident_Mutation\<close>, \<open>Incident_Notify\<close>: the parts of \<open>incidents/service.go\<close> that resolve
    policies, evaluate all probe series of a target, fold evaluations into a mutation, and dispatch
    notifications.
  \<^item> \<open>Incident_Store\<close>: \<open>internal/center/store/incidents.go\<close>, \<open>monitoring_event_payload.go\<close> and \<open>closeArchiveIncidents\<close>: the
    tables as a record, the mutation transaction with its row version guard, event payloads, object summaries.
  \<^item> \<open>Incident_Attempts\<close>: the attempts, the retry after a lost race, the entry points after a sync and for the sweep, and the
    loop \<open>Run\<close>.
  \<^item> \<open>Incident_Loop\<close>: the interleaving of all of these as a step relation.
  \<^item> \<open>Sync_Queue\<close>: \<open>agent/syncqueue/store.go\<close>, every operation of \<open>FileStore\<close> over a visible and a durable file.

  Operations are functions that return the new state, and a Go error is a value of \<open>serviceError\<close> or \<open>queueError\<close> in
  a sum or option type.  What the database, the file system, the network, the clock and the random generator decide is
  an argument: records of outcomes (\<open>dbEnv\<close>, \<open>queueEnv\<close>, \<open>attemptReads\<close>, \<open>serviceEnv\<close>, \<open>sweepEnv\<close>) in which every call may fail.

  \<^bold>\<open>What is shown.\<close>
  \<^item> Of each evaluator: when an incident starts, escalates and recovers, with the thresholds of the code; that
    recovery rests on complete evidence; that replayed facts and maintenance stay silent; that the result does not
    depend on the order of map iteration.
  \<^item> Of the settings: exactly which incident defaults are accepted and what they become, that validated settings are
    a fixed point of validation, and that accepted settings give usable policies.
  \<^item> Of the service: a mutation is the per-class result of its evaluations; every attempt hands a well-formed mutation
    to the store; an attempt is repeated at most once; a notification is sent only when the policy permits it.
  \<^item> Of the store: a stale mutation changes nothing; an applied one replaces exactly the incidents of its object.  Over
    all interleavings of evaluations, administrative closures and other writers (\<open>Incident_Loop\<close>), the event log tells
    exactly which incidents are active.
  \<^item> Of the queue: sequence numbers never go back; an enqueue drops exactly what the limits ask for; after any
    faults the file can be opened again, provided the JSON inside the requests can be read back.

  \<^bold>\<open>Bounds.\<close>  No model runs on fuel.  All loops are structural recursion or have a termination proof; the infinite loop
  \<open>Run\<close> is a recursion over the list of its sweeps.  Subtraction of instants saturates and integer arithmetic wraps as
  in Go; a theorem that needs a range states it.

  \<^bold>\<open>What the models rely on.\<close>  A row version (\<open>xmin\<close>) that PostgreSQL assigns is fresh.  The archive transaction holds the lock
  of the object row while it closes incidents, so it is one step.  Instants in rows are kept exactly, where the columns keep
  microseconds.  The strings of a queued request are UTF-8.  The encoded length of an entry and the UUID parser are parameters.

  \<^bold>\<open>Not modelled.\<close>  SQL beyond the incident tables and the text of the fact queries, because its meaning is that of PostgreSQL; the
  HTTP layer, sessions, transports of notifications, probes and samplers, which are input and output; the agent runtime and
  the sync service, which are orchestration over these; JSON as text, and the creation of the queue directory; the asset
  ledger, records, evidence, attachments, IP quality providers, import and backup, and the web interface, which share no state
  with the incident engine beyond the tables above.
\<close>

section \<open>An event the metadata contract should not admit\<close>

text \<open>
  The contract ranks \<open>closed_by_management\<close> below \<open>normal\<close>, so it accepts an escalation of a closed incident to normal.
\<close>

lemma escalation_to_normal_accepted:
  "ValidMonitoringEventMetadata ObjectTypeTarget EventIncidentEscalated SeverityNormal False
     MonitoringEventProvenanceCenter MonitoringEventProducerVersion MonitoringEventIncidentRuleVersion
     ''closed_by_management'' ''normal'' []"
  by code_simp

end
